(* ===== verification/Prelude.thy ===== *)
theory Prelude
  imports Complex_Main "HOL-Library.Char_ord" "HOL-Library.List_Lexorder" "HOL-Library.Sublist"
begin

text \<open>
  Shared vocabulary of the treasury-orchestration model: the types every component uses
  (instants, durations, decimals, identifiers), the operations of the Go standard library the
  source calls on them, and the generic lemmas about row tables (a slice of rows searched from
  the front, appended at the end, updated in place) on which the store components rest.

  \<^item> \<open>time\<close> is a \<open>time.Time\<close> as the number of nanoseconds since the zero instant, so the
    zero \<open>time.Time{}\<close> is 0 and \<open>IsZero\<close> is a comparison with 0.
  \<^item> \<open>duration\<close> is a \<open>time.Duration\<close>, an \<open>int64\<close> of nanoseconds; where the source
    multiplies durations the wrap-around of \<open>int64\<close> is written out (\<open>i64\<close>).
  \<^item> \<open>decimal\<close> is a \<open>decimal.Decimal\<close> by its value: its \<open>Add\<close>, \<open>Sub\<close>, \<open>Mul\<close> and
    comparisons are exact, so a rational number stands for it.
  \<^item> \<open>float64\<close> is a finite \<open>float64\<close> by its value (infinities and NaN are not in the
    model); its conversion \<open>decimal.NewFromFloat\<close> is a parameter of the definitions using it.
  \<^item> \<open>uuid\<close> is a \<open>uuid.UUID\<close> by its canonical text \<open>ID.String()\<close>, which determines
    it: equality of identifiers is equality of the text, and the orders by \<open>ID.String()\<close>
    are the order of byte strings.
  \<^item> a pointer \<open>*T\<close> returned to a caller is the function that reads it in a state: a fresh
    copy is a constant function, an alias of a stored row reads the row in the later state.
\<close>

type_synonym time = int
type_synonym duration = int
type_synonym decimal = rat
type_synonym float64 = rat
type_synonym uuid = string
type_synonym ('s, 'a) ptr = "'s \<Rightarrow> 'a"

named_theorems table_simps \<open>rewrite rules for row tables: lookup after append and update\<close>

section \<open>Time and 64-bit integers\<close>

definition i64 :: "int \<Rightarrow> int" where
  "i64 x = (x + 2 ^ 63) mod 2 ^ 64 - 2 ^ 63"

abbreviation nanosecond :: duration where "nanosecond \<equiv> 1"
abbreviation millisecond :: duration where "millisecond \<equiv> 1000000"
abbreviation second :: duration where "second \<equiv> 1000000000"
abbreviation minute :: duration where "minute \<equiv> 60000000000"
abbreviation hour :: duration where "hour \<equiv> 3600000000000"

abbreviation zero_time :: time where "zero_time \<equiv> 0"

definition IsZero :: "time \<Rightarrow> bool" where
  "IsZero t \<longleftrightarrow> t = zero_time"

text \<open>\<open>time.Since\<close> saturates at the ends of \<open>int64\<close>.\<close>

definition Since :: "time \<Rightarrow> time \<Rightarrow> duration" where
  "Since now t = max (- (2 ^ 63)) (min (2 ^ 63 - 1) (now - t))"

lemma i64_id [simp]: "- (2 ^ 63) \<le> x \<Longrightarrow> x < 2 ^ 63 \<Longrightarrow> i64 x = x"
  by (simp add: i64_def mod_pos_pos_trivial)

lemma i64_range: "- (2 ^ 63) \<le> i64 x \<and> i64 x < 2 ^ 63"
  using pos_mod_bound [of "2 ^ 64" "x + 2 ^ 63"] pos_mod_sign [of "2 ^ 64" "x + 2 ^ 63"]
  by (simp add: i64_def)

lemma Since_ge_iff:
  "0 < d \<Longrightarrow> d < 2 ^ 63 \<Longrightarrow> d \<le> Since now t \<longleftrightarrow> t + d \<le> now"
  by (auto simp: Since_def)

section \<open>Strings\<close>

text \<open>
  Byte strings. \<open>to_upper\<close> is \<open>strings.ToUpper\<close> on ASCII letters; other bytes are left
  alone (a text outside ASCII is not in the model).
\<close>

definition upper_char :: "char \<Rightarrow> char" where
  "upper_char c = (if CHR ''a'' \<le> c \<and> c \<le> CHR ''z'' then char_of (of_char c - (32::nat)) else c)"

definition lower_char :: "char \<Rightarrow> char" where
  "lower_char c = (if CHR ''A'' \<le> c \<and> c \<le> CHR ''Z'' then char_of (of_char c + (32::nat)) else c)"

abbreviation to_upper :: "string \<Rightarrow> string" where "to_upper s \<equiv> map upper_char s"
abbreviation to_lower :: "string \<Rightarrow> string" where "to_lower s \<equiv> map lower_char s"

definition is_space :: "char \<Rightarrow> bool" where
  "is_space c \<longleftrightarrow> c \<in> {CHR '' '', CHR 0x09, CHR 0x0A, CHR 0x0B, CHR 0x0C, CHR 0x0D}"

definition trim_space :: "string \<Rightarrow> string" where
  "trim_space s = rev (dropWhile is_space (rev (dropWhile is_space s)))"

text \<open>\<open>strings.Split\<close> on a one-byte separator.\<close>

fun split_on :: "char \<Rightarrow> string \<Rightarrow> string list" where
  "split_on c [] = [[]]"
| "split_on c (x # xs) =
     (if x = c then [] # split_on c xs
      else (case split_on c xs of [] \<Rightarrow> [[x]] | y # ys \<Rightarrow> (x # y) # ys))"

text \<open>\<open>strings.IndexByte\<close> as a split: the text before and after the first occurrence.\<close>

fun cut_at :: "char \<Rightarrow> string \<Rightarrow> (string \<times> string) option" where
  "cut_at c [] = None"
| "cut_at c (x # xs) =
     (if x = c then Some ([], xs) else map_option (\<lambda>(a, b). (x # a, b)) (cut_at c xs))"

lemma cut_at_None [simp]: "cut_at c s = None \<longleftrightarrow> c \<notin> set s"
  by (induction s) auto

lemma cut_at_append [simp]: "c \<notin> set a \<Longrightarrow> cut_at c (a @ c # b) = Some (a, b)"
  by (induction a) auto

lemma cut_at_SomeD: "cut_at c s = Some (a, b) \<Longrightarrow> s = a @ c # b \<and> c \<notin> set a"
  by (induction s arbitrary: a) (auto split: if_splits)

lemma split_on_nonempty [simp]: "split_on c s \<noteq> []"
  by (induction s) (auto split: list.splits)

lemma split_on_free: "x \<in> set (split_on c s) \<Longrightarrow> c \<notin> set x"
  by (induction s arbitrary: x) (auto split: list.splits if_splits)

lemma dropWhile_space_no_space:
  "dropWhile is_space s = [] \<or> \<not> is_space (hd (dropWhile is_space s))"
  using hd_dropWhile [of is_space s] by auto

section \<open>Row tables\<close>

text \<open>
  The stores keep a slice of rows and find one with a loop that returns at the first match.
  \<open>first_ix P rows\<close> is the index at which such a loop stops; \<open>rowmap key rows\<close> is the
  finite map the table represents, each key bound to its first row.
\<close>

primrec first_ix :: "('a \<Rightarrow> bool) \<Rightarrow> 'a list \<Rightarrow> nat option" where
  "first_ix P [] = None"
| "first_ix P (x # xs) = (if P x then Some 0 else map_option Suc (first_ix P xs))"

definition rowmap :: "('r \<Rightarrow> 'k) \<Rightarrow> 'r list \<Rightarrow> 'k \<Rightarrow> 'r option" where
  "rowmap key rows k = map_option ((!) rows) (first_ix (\<lambda>r. key r = k) rows)"

lemma first_ix_None [table_simps]: "first_ix P xs = None \<longleftrightarrow> (\<forall>x \<in> set xs. \<not> P x)"
  by (induction xs) auto

lemma first_ix_SomeD:
  "first_ix P xs = Some i \<Longrightarrow> i < length xs \<and> P (xs ! i) \<and> (\<forall>j < i. \<not> P (xs ! j))"
  by (induction xs arbitrary: i) (auto split: if_splits simp: nth_Cons split: nat.splits)

lemma first_ix_Some_in: "first_ix P xs = Some i \<Longrightarrow> xs ! i \<in> set xs"
  by (auto dest: first_ix_SomeD)

lemma first_ix_append:
  "first_ix P (xs @ ys) =
     (case first_ix P xs of Some i \<Rightarrow> Some i | None \<Rightarrow> map_option ((+) (length xs)) (first_ix P ys))"
  by (induction xs; cases "first_ix P ys") (auto split: option.splits)

lemma first_ix_update [table_simps]:
  "i < length xs \<Longrightarrow> P y = P (xs ! i) \<Longrightarrow> first_ix P (xs[i := y]) = first_ix P xs"
  by (induction xs arbitrary: i) (auto split: nat.splits)

lemma find_first_ix: "find P xs = map_option ((!) xs) (first_ix P xs)"
  by (induction xs) (auto simp: option.map_comp comp_def)

lemma rowmap_find: "rowmap key rows k = find (\<lambda>r. key r = k) rows"
  by (simp add: rowmap_def find_first_ix)

lemma rowmap_Nil [simp]: "rowmap key [] = Map.empty"
  by (simp add: rowmap_def fun_eq_iff)

lemma rowmap_None: "rowmap key rows k = None \<longleftrightarrow> k \<notin> key ` set rows"
  by (auto simp: rowmap_def first_ix_None)

lemma rowmap_SomeD: "rowmap key rows k = Some r \<Longrightarrow> key r = k \<and> r \<in> set rows"
  by (auto simp: rowmap_def dest: first_ix_SomeD)

lemma dom_rowmap: "dom (rowmap key rows) = key ` set rows"
  by (rule set_eqI) (simp add: domIff rowmap_None)

lemma rowmap_append [table_simps]:
  "rowmap key (rows @ [r]) =
     (if key r \<in> key ` set rows then rowmap key rows else (rowmap key rows)(key r \<mapsto> r))"
  by (rule ext, induction rows) (auto simp: rowmap_find)

lemma rowmap_update:
  assumes "first_ix (\<lambda>r. key r = k) rows = Some i" and "key r' = k"
  shows "rowmap key (rows[i := r']) = (rowmap key rows)(k \<mapsto> r')"
proof (rule ext)
  fix k'
  show "rowmap key (rows[i := r']) k' = ((rowmap key rows)(k \<mapsto> r')) k'"
    using assms by (induction rows arbitrary: i) (auto simp: rowmap_find split: if_splits)
qed

lemma rowmap_modify [table_simps]:
  "first_ix (\<lambda>r. key r = k) rows = Some i \<Longrightarrow> key r' = key (rows ! i) \<Longrightarrow>
   rowmap key (rows[i := r']) = (rowmap key rows)(k \<mapsto> r')"
  by (rule rowmap_update) (auto dest: first_ix_SomeD)

lemma rowmap_Some_ix:
  "rowmap key rows k = Some r \<Longrightarrow> \<exists>i. first_ix (\<lambda>x. key x = k) rows = Some i \<and> rows ! i = r"
  by (auto simp: rowmap_def)

lemma rowmap_Some_row:
  "rowmap key rows k = Some r \<Longrightarrow>
   \<exists>i < length rows. first_ix (\<lambda>x. key x = k) rows = Some i \<and> r = rows ! i \<and> key (rows ! i) = k"
  by (auto simp: rowmap_def dest: first_ix_SomeD)

lemma keys_update [table_simps]:
  "i < length rows \<Longrightarrow> key r' = key (rows ! i) \<Longrightarrow> map key (rows[i := r']) = map key rows"
  by (simp add: map_update) (metis list_update_id nth_map)

lemma rowmap_in_set:
  assumes "distinct (map key rows)" and "r \<in> set rows"
  shows "rowmap key rows (key r) = Some r"
  using assms
proof (induction rows)
  case Nil
  then show ?case by simp
next
  case (Cons x xs)
  then show ?case
    by (cases "key x = key r") (auto simp: rowmap_find)
qed

lemma set_update_same_ix:
  "i < length xs \<Longrightarrow> set (xs[i := y]) \<subseteq> insert y (set xs)"
  by (rule set_update_subset_insert)

lemma sum_list_update_rows:
  fixes f :: "'a \<Rightarrow> 'b::ab_group_add"
  shows "i < length xs \<Longrightarrow>
     sum_list (map f (xs[i := y])) = sum_list (map f xs) - f (xs ! i) + f y"
  by (induction xs arbitrary: i) (auto split: nat.splits simp: algebra_simps)

lemma filter_update_same:
  "i < length xs \<Longrightarrow> \<not> P (xs ! i) \<Longrightarrow> \<not> P y \<Longrightarrow> filter P (xs[i := y]) = filter P xs"
  by (induction xs arbitrary: i) (auto split: nat.splits)

lemma length_filter_out_key:
  "distinct (map k xs) \<Longrightarrow> x \<in> set xs \<Longrightarrow> length xs = Suc (length (filter (\<lambda>y. k y \<noteq> k x) xs))"
proof (induction xs)
  case Nil
  then show ?case by simp
next
  case (Cons a xs)
  show ?case
  proof (cases "x = a")
    case True
    with Cons.prems(1) have "filter (\<lambda>y. k y \<noteq> k x) xs = xs"
      by (auto simp: image_iff intro!: filter_True)
    with True show ?thesis by simp
  next
    case False
    with Cons.prems have "k a \<noteq> k x" "x \<in> set xs" by auto
    with Cons show ?thesis by simp
  qed
qed

end
