(* ===== verification/Store.thy ===== *)
theory Store
  imports Prelude
begin

text \<open>
  \<^verbatim>\<open>internal/store/store.go\<close>: the status enumerations with the batch transition
  table, the row types, the sentinel errors, and the store interfaces. An interface is a
  record of its methods over a state type \<open>'s\<close>; a method that may fail returns
  \<open>error + 'a\<close>. A component that takes an interface value takes such a record, so its
  definitions hold for every implementation; the implementations fill the record.

  \<^verbatim>\<open>internal/metrics\<close> is here too, as the datatype of the updates the service makes to
  its Prometheus instruments, and the record \<open>Rt\<close> of what the run time gives every
  component: the clock, the generator of identifiers (\<open>uuid.NewV7\<close>), the conversion
  \<open>decimal.NewFromFloat\<close> and the sink of metric updates.
\<close>

section \<open>Statuses\<close>

datatype BatchStatus = BatchOpen | BatchClosed | BatchExecuting | BatchSettled

fun CanTransitionTo :: "BatchStatus \<Rightarrow> BatchStatus \<Rightarrow> bool" where
  "CanTransitionTo BatchOpen t \<longleftrightarrow> t = BatchClosed"
| "CanTransitionTo BatchClosed t \<longleftrightarrow> t = BatchExecuting"
| "CanTransitionTo BatchExecuting t \<longleftrightarrow> t = BatchSettled"
| "CanTransitionTo BatchSettled t \<longleftrightarrow> False"

fun BatchStatus_str :: "BatchStatus \<Rightarrow> string" where
  "BatchStatus_str BatchOpen = ''OPEN''"
| "BatchStatus_str BatchClosed = ''CLOSED''"
| "BatchStatus_str BatchExecuting = ''EXECUTING''"
| "BatchStatus_str BatchSettled = ''SETTLED''"

text \<open>
  The status of an order, a funding request or a job may also be the zero value of its
  string type, which the stores replace by a default.
\<close>

datatype AggregateStatus = AggregateUnset | AggregateExecuting | AggregateSettled | AggregateFailed

fun AggregateStatus_str :: "AggregateStatus \<Rightarrow> string" where
  "AggregateStatus_str AggregateUnset = []"
| "AggregateStatus_str AggregateExecuting = ''EXECUTING''"
| "AggregateStatus_str AggregateSettled = ''SETTLED''"
| "AggregateStatus_str AggregateFailed = ''FAILED''"

datatype FundingStatus =
  FundingUnset | FundingPending | FundingExecuting | FundingCompleted | FundingRejected

fun FundingStatus_str :: "FundingStatus \<Rightarrow> string" where
  "FundingStatus_str FundingUnset = []"
| "FundingStatus_str FundingPending = ''PENDING''"
| "FundingStatus_str FundingExecuting = ''EXECUTING''"
| "FundingStatus_str FundingCompleted = ''COMPLETED''"
| "FundingStatus_str FundingRejected = ''REJECTED''"

datatype RebalanceStatus =
  RebalanceUnset | RebalancePending | RebalanceExecuting | RebalanceCompleted | RebalanceRejected

fun RebalanceStatus_str :: "RebalanceStatus \<Rightarrow> string" where
  "RebalanceStatus_str RebalanceUnset = []"
| "RebalanceStatus_str RebalancePending = ''PENDING''"
| "RebalanceStatus_str RebalanceExecuting = ''EXECUTING''"
| "RebalanceStatus_str RebalanceCompleted = ''COMPLETED''"
| "RebalanceStatus_str RebalanceRejected = ''REJECTED''"

section \<open>Rows\<close>

record Batch =
  b_ID :: uuid
  b_AssetPair :: string
  b_Status :: BatchStatus
  b_NotionalUSD :: decimal
  b_OpenedAt :: time
  b_ClosedAt :: time

record Membership =
  m_ID :: uuid
  m_BatchID :: uuid
  m_TxID :: string
  m_Amount :: decimal
  m_Asset :: string
  m_FiatCurrency :: string
  m_NotionalUSD :: decimal
  m_UserID :: string
  m_CreatedAt :: time

record VenueRoute =
  vr_Venue :: string
  vr_Share :: decimal
  vr_Price :: decimal

record AggregateOrder =
  o_ID :: uuid
  o_BatchID :: uuid
  o_AssetPair :: string
  o_Side :: string
  o_NotionalUSD :: decimal
  o_VenueRoutes :: "VenueRoute list"
  o_FillPrice :: decimal
  o_TotalFilled :: decimal
  o_HedgedNotional :: decimal
  o_Status :: AggregateStatus
  o_CreatedAt :: time
  o_SettledAt :: time

record FundingRequest =
  fr_ID :: uuid
  fr_WalletID :: string
  fr_Asset :: string
  fr_Amount :: decimal
  fr_Status :: FundingStatus
  fr_SourceVenue :: string
  fr_CreatedAt :: time
  fr_CompletedAt :: time

record FloatPosition =
  fp_ID :: uuid
  fp_FiatCurrency :: string
  fp_ShortFiatAmount :: decimal
  fp_LongCryptoAmount :: decimal
  fp_LongCryptoAsset :: string
  fp_SettlementDueAt :: time
  fp_Settled :: bool
  fp_BatchID :: uuid
  fp_CreatedAt :: time
  fp_UpdatedAt :: time

record RebalancingJob =
  rj_ID :: uuid
  rj_FromRef :: string
  rj_ToRef :: string
  rj_Asset :: string
  rj_Amount :: decimal
  rj_Status :: RebalanceStatus
  rj_Reason :: string
  rj_CreatedAt :: time
  rj_CompletedAt :: time

record OutboxEntry =
  oe_ID :: uuid
  oe_Aggregate :: string
  oe_EventType :: string
  oe_DedupKey :: string
  oe_Payload :: string
  oe_CreatedAt :: time
  oe_EmittedAt :: time

section \<open>Errors\<close>

text \<open>
  The sentinel errors of every package, \<open>Wrapf e m\<close> for \<open>fmt.Errorf("%w: ...", e)\<close>,
  \<open>Annotate m e\<close> for \<open>fmt.Errorf("...: %w", e)\<close>,
  \<open>Errorf m\<close> for an unwrapped message, and \<open>External m\<close> for an error value made by code
  outside the repository (a driver, the network, the JSON decoder).
\<close>

datatype error =
    ErrNotFound | ErrConflict
  | ErrNotOpen
  | ErrInvalidAmount | ErrPolicyViolation
  | ClientErrConflict | ClientErrUnavailable | ClientErrBadRequest | ErrCircuitOpen
  | CtxErr
  | Wrapf error string
  | Annotate string error
  | Errorf string
  | External string

text \<open>\<open>errors.Is\<close>: the error itself or one that it wraps.\<close>

fun errors_Is :: "error \<Rightarrow> error \<Rightarrow> bool" where
  "errors_Is (Wrapf e m) t \<longleftrightarrow> Wrapf e m = t \<or> errors_Is e t"
| "errors_Is (Annotate m e) t \<longleftrightarrow> Annotate m e = t \<or> errors_Is e t"
| "errors_Is e t \<longleftrightarrow> e = t"

definition IsNotFound :: "error \<Rightarrow> bool" where
  "IsNotFound err = errors_Is err ErrNotFound"

text \<open>\<open>err.Error()\<close>.\<close>

fun error_str :: "error \<Rightarrow> string" where
  "error_str ErrNotFound = ''not found''"
| "error_str ErrConflict = ''conflict''"
| "error_str ErrNotOpen = ''batch: not open''"
| "error_str ErrInvalidAmount = ''funding: invalid amount''"
| "error_str ErrPolicyViolation = ''funding: policy violation''"
| "error_str ClientErrConflict = ''clients: conflict''"
| "error_str ClientErrUnavailable = ''clients: unavailable''"
| "error_str ClientErrBadRequest = ''clients: bad request''"
| "error_str ErrCircuitOpen = ''clients: circuit open''"
| "error_str CtxErr = ''context canceled''"
| "error_str (Wrapf e m) = error_str e @ '': '' @ m"
| "error_str (Annotate m e) = m @ '': '' @ error_str e"
| "error_str (Errorf m) = m"
| "error_str (External m) = m"

section \<open>Interfaces\<close>

text \<open>
  \<open>UpdateBatchStatus\<close> returns \<open>(*Batch, bool, error)\<close>: \<open>Inl e\<close> is an error,
  \<open>Inr None\<close> is \<open>(nil, false, nil)\<close> and \<open>Inr (Some b)\<close> is \<open>(b, true, nil)\<close>.
\<close>

record 's BatchStore =
  OpenBatch :: "string \<Rightarrow> 's \<Rightarrow> (error + Batch) \<times> 's"
  GetBatch :: "uuid \<Rightarrow> 's \<Rightarrow> (error + Batch) \<times> 's"
  ListBatches :: "time \<Rightarrow> time \<Rightarrow> 's \<Rightarrow> (error + Batch list) \<times> 's"
  ListOpenBatches :: "'s \<Rightarrow> (error + Batch list) \<times> 's"
  UpdateBatchStatus :: "uuid \<Rightarrow> BatchStatus \<Rightarrow> BatchStatus \<Rightarrow> (Batch \<Rightarrow> Batch) option
    \<Rightarrow> 's \<Rightarrow> (error + Batch option) \<times> 's"
  SetBatchNotional :: "uuid \<Rightarrow> decimal \<Rightarrow> 's \<Rightarrow> (error + unit) \<times> 's"

record 's MembershipStore =
  AddMembership :: "Membership \<Rightarrow> 's \<Rightarrow> (error + bool) \<times> 's"
  ListMemberships :: "uuid \<Rightarrow> 's \<Rightarrow> (error + Membership list) \<times> 's"
  SumNotional :: "uuid \<Rightarrow> 's \<Rightarrow> (error + decimal) \<times> 's"
  ExistsByTxID :: "string \<Rightarrow> 's \<Rightarrow> (error + bool) \<times> 's"

record 's AggregateOrderStore =
  CreateOrder :: "AggregateOrder \<Rightarrow> 's \<Rightarrow> (error + ('s, AggregateOrder) ptr) \<times> 's"
  GetOrderByBatch :: "uuid \<Rightarrow> 's \<Rightarrow> (error + ('s, AggregateOrder) ptr) \<times> 's"
  ListOrders :: "string \<Rightarrow> 's \<Rightarrow> (error + AggregateOrder list) \<times> 's"
  UpdateOrderFill :: "uuid \<Rightarrow> decimal \<Rightarrow> decimal \<Rightarrow> VenueRoute list
    \<Rightarrow> 's \<Rightarrow> (error + ('s, AggregateOrder) ptr) \<times> 's"
  SettleOrder :: "uuid \<Rightarrow> decimal \<Rightarrow> 's \<Rightarrow> (error + ('s, AggregateOrder) ptr) \<times> 's"

record 's FundingStore =
  CreateFunding :: "FundingRequest \<Rightarrow> 's \<Rightarrow> (error + ('s, FundingRequest) ptr) \<times> 's"
  GetFunding :: "uuid \<Rightarrow> 's \<Rightarrow> (error + ('s, FundingRequest) ptr) \<times> 's"
  UpdateFundingStatus :: "uuid \<Rightarrow> FundingStatus \<Rightarrow> 's \<Rightarrow> (error + unit) \<times> 's"
  ListFunding :: "string \<Rightarrow> 's \<Rightarrow> (error + FundingRequest list) \<times> 's"

record 's FloatStore =
  AddFloat :: "FloatPosition \<Rightarrow> 's \<Rightarrow> (error + ('s, FloatPosition) ptr) \<times> 's"
  GetFloat :: "string \<Rightarrow> 's \<Rightarrow> (error + FloatPosition) \<times> 's"
  ListFloat :: "'s \<Rightarrow> (error + FloatPosition list) \<times> 's"
  ListMaturedFloat :: "time \<Rightarrow> 's \<Rightarrow> (error + FloatPosition list) \<times> 's"
  SettleFloat :: "uuid \<Rightarrow> 's \<Rightarrow> (error + ('s, FloatPosition) ptr) \<times> 's"

record 's RebalancingStore =
  CreateJob :: "RebalancingJob \<Rightarrow> 's \<Rightarrow> (error + ('s, RebalancingJob) ptr) \<times> 's"
  ListJobs :: "string \<Rightarrow> 's \<Rightarrow> (error + RebalancingJob list) \<times> 's"
  UpdateJobStatus :: "uuid \<Rightarrow> RebalanceStatus \<Rightarrow> 's \<Rightarrow> (error + unit) \<times> 's"

record 's OutboxStore =
  Append :: "OutboxEntry \<Rightarrow> 's \<Rightarrow> (error + bool) \<times> 's"
  ListPending :: "int \<Rightarrow> 's \<Rightarrow> (error + OutboxEntry list) \<times> 's"
  MarkEmitted :: "uuid \<Rightarrow> 's \<Rightarrow> (error + unit) \<times> 's"

section \<open>Metrics and the run time\<close>

text \<open>One constructor per instrument; the arguments are its label values and the amount.\<close>

datatype metric =
    EventsConsumed string string
  | DeadLettered string
  | BatchesClosed string string
  | CloseLatency string duration
  | SlippageUSD string decimal
  | UnhedgedAdd string decimal
  | UnhedgedSet string decimal
  | FloatUSD string decimal
  | FloatBreach string string
  | LedgerPosted string string
  | AuditEmitted string string
  | FundingRequests string string
  | RebalanceJobs string string

record 's Rt =
  Now :: "'s \<Rightarrow> time \<times> 's"
  NewV7 :: "'s \<Rightarrow> uuid \<times> 's"
  NewFromFloat :: "float64 \<Rightarrow> decimal"
  Metric :: "metric \<Rightarrow> 's \<Rightarrow> 's"

section \<open>The batch lifecycle\<close>

text \<open>The rank of a status along the lifecycle; a transition moves up by exactly one.\<close>

fun status_rank :: "BatchStatus \<Rightarrow> nat" where
  "status_rank BatchOpen = 0"
| "status_rank BatchClosed = 1"
| "status_rank BatchExecuting = 2"
| "status_rank BatchSettled = 3"

instantiation BatchStatus :: linorder
begin

definition less_eq_BatchStatus :: "BatchStatus \<Rightarrow> BatchStatus \<Rightarrow> bool" where
  "less_eq_BatchStatus s t \<longleftrightarrow> status_rank s \<le> status_rank t"

definition less_BatchStatus :: "BatchStatus \<Rightarrow> BatchStatus \<Rightarrow> bool" where
  "less_BatchStatus s t \<longleftrightarrow> status_rank s < status_rank t"

instance
proof
  fix s t u :: BatchStatus
  show "s < t \<longleftrightarrow> s \<le> t \<and> \<not> t \<le> s"
    by (auto simp: less_eq_BatchStatus_def less_BatchStatus_def)
  show "s \<le> s" by (simp add: less_eq_BatchStatus_def)
  show "s \<le> t \<Longrightarrow> t \<le> u \<Longrightarrow> s \<le> u" by (simp add: less_eq_BatchStatus_def)
  show "s \<le> t \<Longrightarrow> t \<le> s \<Longrightarrow> s = t"
    by (cases s; cases t) (simp_all add: less_eq_BatchStatus_def)
  show "s \<le> t \<or> t \<le> s" by (auto simp: less_eq_BatchStatus_def)
qed

end

lemma CanTransitionTo_rank: "CanTransitionTo s t \<longleftrightarrow> status_rank t = Suc (status_rank s)"
  by (cases s; cases t) simp_all

lemma CanTransitionTo_less: "CanTransitionTo s t \<Longrightarrow> s < t"
  by (simp add: CanTransitionTo_rank less_BatchStatus_def)

lemma CanTransitionTo_settled [simp]: "\<not> CanTransitionTo BatchSettled t"
  by simp

lemma status_str_inject [simp]: "BatchStatus_str s = BatchStatus_str t \<longleftrightarrow> s = t"
  by (cases s; cases t) simp_all

lemma AggregateStatus_str_inject [simp]: "AggregateStatus_str s = AggregateStatus_str t \<longleftrightarrow> s = t"
  by (cases s; cases t) simp_all

lemma FundingStatus_str_inject [simp]: "FundingStatus_str s = FundingStatus_str t \<longleftrightarrow> s = t"
  by (cases s; cases t) simp_all

lemma RebalanceStatus_str_inject [simp]: "RebalanceStatus_str s = RebalanceStatus_str t \<longleftrightarrow> s = t"
  by (cases s; cases t) simp_all

end
