(* ===== verification/Idempotency.thy ===== *)
theory Idempotency
  imports Store
begin

text \<open>
  \<^verbatim>\<open>internal/idempotency/idempotency.go\<close>: the key store interface, the in-memory and
  the Redis implementation, \<open>Open\<close>, and the cadence lock. The contract \<open>idem_store\<close> states
  what every user of the interface relies on: a key is refused exactly while an earlier claim
  of it has not expired. The in-memory store meets it for every clock.

  Redis itself is a parameter: \<open>setnx\<close> and \<open>del\<close> are the client's calls.
\<close>

section \<open>The interface and its implementations\<close>

record 's IdemStore =
  CheckAndMark :: "string \<Rightarrow> duration \<Rightarrow> 's \<Rightarrow> (error + bool) \<times> 's"
  DeleteKey :: "string \<Rightarrow> 's \<Rightarrow> (error + unit) \<times> 's"

record MemStore =
  ms_seen :: "string \<rightharpoonup> time"

definition NewMem :: MemStore where
  "NewMem = \<lparr>ms_seen = Map.empty\<rparr>"

definition ms_CheckAndMark :: "time \<Rightarrow> string \<Rightarrow> duration \<Rightarrow> MemStore \<Rightarrow> bool \<times> MemStore" where
  "ms_CheckAndMark now key ttl s =
     (case ms_seen s key of
        Some expiry \<Rightarrow>
          if expiry > now then (False, s)
          else (True, s\<lparr>ms_seen := (ms_seen s)(key \<mapsto> now + ttl)\<rparr>)
      | None \<Rightarrow> (True, s\<lparr>ms_seen := (ms_seen s)(key \<mapsto> now + ttl)\<rparr>))"

definition ms_Delete :: "string \<Rightarrow> MemStore \<Rightarrow> MemStore" where
  "ms_Delete key s = s\<lparr>ms_seen := (ms_seen s)(key := None)\<rparr>"

text \<open>
  The in-memory store as a value of the interface, over a program state in which it occupies
  the part read by \<open>get\<close> and written by \<open>put\<close>; the clock is read once per claim.
\<close>

definition memIdem :: "'s Rt \<Rightarrow> ('s \<Rightarrow> MemStore) \<Rightarrow> (MemStore \<Rightarrow> 's \<Rightarrow> 's) \<Rightarrow> 's IdemStore" where
  "memIdem rt get put = \<lparr>
     CheckAndMark = (\<lambda>key ttl s.
       let (now, s1) = Now rt s; (ok, m) = ms_CheckAndMark now key ttl (get s1)
       in (Inr ok, put m s1)),
     DeleteKey = (\<lambda>key s. (Inr (), put (ms_Delete key (get s)) s))\<rparr>"

definition redis_CheckAndMark ::
  "(string \<Rightarrow> string \<Rightarrow> duration \<Rightarrow> 's \<Rightarrow> (error + bool) \<times> 's)
   \<Rightarrow> string \<Rightarrow> duration \<Rightarrow> 's \<Rightarrow> (error + bool) \<times> 's" where
  "redis_CheckAndMark setnx key ttl s =
     (case setnx key ''1'' ttl s of
        (Inl e, s1) \<Rightarrow> (Inl e, s1)
      | (Inr ok, s1) \<Rightarrow> (Inr ok, s1))"

definition redisIdem ::
  "(string \<Rightarrow> string \<Rightarrow> duration \<Rightarrow> 's \<Rightarrow> (error + bool) \<times> 's)
   \<Rightarrow> (string \<Rightarrow> 's \<Rightarrow> (error + unit) \<times> 's) \<Rightarrow> 's IdemStore" where
  "redisIdem setnx del = \<lparr>
     CheckAndMark = redis_CheckAndMark setnx,
     DeleteKey = del\<rparr>"

text \<open>Which implementation \<open>Open\<close> selects; it never fails.\<close>

datatype 'c backend = MemBackend | RedisBackend 'c

definition Open :: "(string \<Rightarrow> error + 'o) \<Rightarrow> ('o \<Rightarrow> 'c) \<Rightarrow> ('c \<Rightarrow> error option) \<Rightarrow> string \<Rightarrow> 'c backend"
where
  "Open parseURL newClient ping url =
     (if trim_space url = [] then MemBackend
      else case parseURL url of
        Inl e \<Rightarrow> MemBackend
      | Inr opts \<Rightarrow>
          let client = newClient opts
          in case ping client of
               Some e \<Rightarrow> MemBackend
             | None \<Rightarrow> RedisBackend client)"

record 's CadenceLock =
  cl_store :: "'s IdemStore"
  cl_ttl :: duration

definition NewCadenceLock :: "'s IdemStore \<Rightarrow> duration \<Rightarrow> 's CadenceLock" where
  "NewCadenceLock store ttl = \<lparr>cl_store = store, cl_ttl = ttl\<rparr>"

definition Acquire :: "'s CadenceLock \<Rightarrow> string \<Rightarrow> 's \<Rightarrow> (error + bool) \<times> 's" where
  "Acquire l assetPair s = CheckAndMark (cl_store l) (''cadence:'' @ assetPair) (cl_ttl l) s"

section \<open>The contract\<close>

text \<open>
  \<open>seen s\<close> maps a key to the instant its claim expires, \<open>clock s\<close> is the instant the next
  operation reads.
\<close>

definition held :: "(string \<rightharpoonup> time) \<Rightarrow> time \<Rightarrow> string \<Rightarrow> bool" where
  "held m now k = (case m k of None \<Rightarrow> False | Some e \<Rightarrow> e > now)"

locale idem_store =
  fixes I :: "'s IdemStore" and seen :: "'s \<Rightarrow> string \<rightharpoonup> time" and clock :: "'s \<Rightarrow> time"
  assumes cam_result: "fst (CheckAndMark I k ttl s) = Inr (\<not> held (seen s) (clock s) k)"
    and cam_seen: "seen (snd (CheckAndMark I k ttl s)) =
      (if held (seen s) (clock s) k then seen s else (seen s)(k \<mapsto> clock s + ttl))"
begin

lemma claim_cases:
  obtains (claimed) s' where "CheckAndMark I k ttl s = (Inr True, s')"
      "\<not> held (seen s) (clock s) k" "seen s' = (seen s)(k \<mapsto> clock s + ttl)"
    | (refused) s' where "CheckAndMark I k ttl s = (Inr False, s')"
      "held (seen s) (clock s) k" "seen s' = seen s"
  using cam_result [of k ttl s] cam_seen [of k ttl s]
  by (cases "CheckAndMark I k ttl s") (auto split: if_splits)

lemma claim_other: "k' \<noteq> k \<Longrightarrow> seen (snd (CheckAndMark I k ttl s)) k' = seen s k'"
  by (simp add: cam_seen)

text \<open>Between a claim and its expiry every later claim of the key is refused.\<close>

lemma claim_excludes:
  assumes "CheckAndMark I k ttl s = (Inr True, s')" and "seen t k = seen s' k"
    and "clock t < clock s + ttl"
  shows "fst (CheckAndMark I k ttl' t) = Inr False"
proof -
  from assms(1) cam_result [of k ttl s] have "\<not> held (seen s) (clock s) k" by simp
  with assms(1) cam_seen [of k ttl s] have "seen s' k = Some (clock s + ttl)" by simp
  with assms(2,3) show ?thesis by (simp add: cam_result held_def)
qed

text \<open>A key is claimable again once its claim has expired.\<close>

lemma claim_after_expiry:
  assumes "CheckAndMark I k ttl s = (Inr True, s')" and "seen t k = seen s' k"
    and "clock s + ttl \<le> clock t"
  shows "fst (CheckAndMark I k ttl' t) = Inr True"
proof -
  from assms(1) cam_result [of k ttl s] have "\<not> held (seen s) (clock s) k" by simp
  with assms(1) cam_seen [of k ttl s] have "seen s' k = Some (clock s + ttl)" by simp
  with assms(2,3) show ?thesis by (simp add: cam_result held_def)
qed

lemma acquire_excludes:
  assumes "Acquire (NewCadenceLock I ttl) p s = (Inr True, s')"
    and "seen t (''cadence:'' @ p) = seen s' (''cadence:'' @ p)" and "clock t < clock s + ttl"
  shows "fst (Acquire (NewCadenceLock I ttl) p t) = Inr False"
  using claim_excludes [OF _ assms(2,3)] assms(1) by (simp add: Acquire_def NewCadenceLock_def)

end

text \<open>
  A state in which a component occupies a slot: \<open>put\<close> replaces the component, and the run
  time (clock, identifiers, metrics) does not touch it. Every store of the program state is
  such a slot.
\<close>

locale slot =
  fixes rt :: "'s Rt" and get :: "'s \<Rightarrow> 'm" and put :: "'m \<Rightarrow> 's \<Rightarrow> 's"
  assumes get_put [simp]: "get (put m s) = m"
    and get_Now [simp]: "get (snd (Now rt s)) = get s"
    and get_NewV7 [simp]: "get (snd (NewV7 rt s)) = get s"
    and get_Metric [simp]: "get (Metric rt x s) = get s"

locale idem_slot = slot rt get put for rt :: "'s Rt" and get :: "'s \<Rightarrow> MemStore" and put
begin

sublocale mem: idem_store "memIdem rt get put" "\<lambda>s. ms_seen (get s)" "\<lambda>s. fst (Now rt s)"
  by unfold_locales
     (simp_all add: memIdem_def ms_CheckAndMark_def held_def Let_def case_prod_beta split: option.split)

end

section \<open>Claims on the in-memory store\<close>

text \<open>
  A history of claims, each with the clock reading it makes; the results are in the order
  of the calls.
\<close>

fun ms_claims :: "(time \<times> string \<times> duration) list \<Rightarrow> MemStore \<Rightarrow> bool list \<times> MemStore" where
  "ms_claims [] s = ([], s)"
| "ms_claims ((now, key, ttl) # cs) s =
     (let (ok, s1) = ms_CheckAndMark now key ttl s; (oks, s2) = ms_claims cs s1 in (ok # oks, s2))"

lemma ms_claim_seen:
  "ms_CheckAndMark now k ttl s = (ok, s') \<Longrightarrow>
   ok = (\<not> held (ms_seen s) now k) \<and>
   ms_seen s' = (if ok then (ms_seen s)(k \<mapsto> now + ttl) else ms_seen s)"
  by (auto simp: ms_CheckAndMark_def held_def split: option.splits if_splits)

lemma ms_claims_length: "length (fst (ms_claims cs s)) = length cs"
  by (induction cs s rule: ms_claims.induct) (auto split: prod.splits)

lemma ms_claims_while_held:
  assumes "ms_seen s k = Some e" and "\<forall>(now, k', d) \<in> set cs. k' = k \<longrightarrow> now < e"
  shows "\<forall>i < length cs. fst (snd (cs ! i)) = k \<longrightarrow> \<not> fst (ms_claims cs s) ! i"
  using assms
proof (induction cs s rule: ms_claims.induct)
  case (1 s)
  then show ?case by simp
next
  case (2 now key ttl cs s)
  obtain ok s1 where c: "ms_CheckAndMark now key ttl s = (ok, s1)" by fastforce
  obtain oks s2 where r: "ms_claims cs s1 = (oks, s2)" by fastforce
  have refused: "key = k \<Longrightarrow> \<not> ok"
    using ms_claim_seen [OF c] "2.prems" by (auto simp: held_def)
  then have "ms_seen s1 k = Some e"
    using ms_claim_seen [OF c] "2.prems"(1) by (cases "key = k") auto
  with "2.IH" [OF c [symmetric] refl] "2.prems"(2) c r
  have "\<forall>i < length cs. fst (snd (cs ! i)) = k \<longrightarrow> \<not> oks ! i" by auto
  with c r refused show ?case by (auto simp: nth_Cons split: nat.splits)
qed

end
