(* ===== verification/Mem_Batch.thy ===== *)
theory Mem_Batch
  imports Idempotency
begin

text \<open>
  \<^verbatim>\<open>memstore.BatchStore\<close> (\<^verbatim>\<open>internal/store/memstore/memstore.go\<close>): the table of
  batches. An operation is a function on the slice of rows; the identifier \<open>uuid.NewV7\<close>
  returns and the reading of \<open>time.Now\<close> are arguments of the operations that call them.
  Returned pointers are copies of rows, so the values themselves are returned.
  \<open>memBatch\<close> packs the operations as a value of the \<open>BatchStore\<close> interface.

  The contract \<open>batch_store\<close> is the interface's promise to the scheduler, the consumer and
  the executor, over the finite map from identifiers to batches.
\<close>

section \<open>Operations\<close>

type_synonym BatchTable = "Batch list"

definition isOpenFor :: "string \<Rightarrow> Batch \<Rightarrow> bool" where
  "isOpenFor assetPair b \<longleftrightarrow> b_AssetPair b = assetPair \<and> b_Status b = BatchOpen"

definition mb_OpenBatch :: "uuid \<Rightarrow> time \<Rightarrow> string \<Rightarrow> BatchTable \<Rightarrow> Batch \<times> BatchTable" where
  "mb_OpenBatch uid now assetPair rows =
     (case first_ix (isOpenFor assetPair) rows of
        Some i \<Rightarrow> (rows ! i, rows)
      | None \<Rightarrow>
          let b = \<lparr>b_ID = uid, b_AssetPair = assetPair, b_Status = BatchOpen,
                   b_NotionalUSD = 0, b_OpenedAt = now, b_ClosedAt = zero_time\<rparr>
          in (b, rows @ [b]))"

definition mb_GetBatch :: "uuid \<Rightarrow> BatchTable \<Rightarrow> error + Batch" where
  "mb_GetBatch uid rows =
     (case first_ix (\<lambda>b. b_ID b = uid) rows of
        Some i \<Rightarrow> Inr (rows ! i)
      | None \<Rightarrow> Inl ErrNotFound)"

definition mb_ListBatches :: "time \<Rightarrow> time \<Rightarrow> BatchTable \<Rightarrow> Batch list" where
  "mb_ListBatches from to rows =
     sort_key b_OpenedAt
       (filter (\<lambda>b. \<not> (\<not> IsZero from \<and> b_OpenedAt b < from) \<and> \<not> (\<not> IsZero to \<and> b_OpenedAt b > to)) rows)"

definition mb_ListOpenBatches :: "BatchTable \<Rightarrow> Batch list" where
  "mb_ListOpenBatches rows = sort_key b_ID (filter (\<lambda>b. b_Status b = BatchOpen) rows)"

definition mb_UpdateBatchStatus ::
  "time \<Rightarrow> uuid \<Rightarrow> BatchStatus \<Rightarrow> BatchStatus \<Rightarrow> (Batch \<Rightarrow> Batch) option \<Rightarrow> BatchTable
   \<Rightarrow> (error + Batch option) \<times> BatchTable" where
  "mb_UpdateBatchStatus now uid from to mutator rows =
     (case first_ix (\<lambda>b. b_ID b = uid) rows of
        None \<Rightarrow> (Inl ErrNotFound, rows)
      | Some i \<Rightarrow>
          if b_Status (rows ! i) \<noteq> from then (Inr None, rows)
          else if \<not> CanTransitionTo from to then (Inl ErrConflict, rows)
          else
            let b1 = (rows ! i)\<lparr>b_Status := to\<rparr>;
                b2 = (if to = BatchClosed \<and> IsZero (b_ClosedAt b1) then b1\<lparr>b_ClosedAt := now\<rparr> else b1);
                b3 = (case mutator of None \<Rightarrow> b2 | Some f \<Rightarrow> f b2)
            in (Inr (Some b3), rows[i := b3]))"

definition mb_SetBatchNotional :: "uuid \<Rightarrow> decimal \<Rightarrow> BatchTable \<Rightarrow> (error + unit) \<times> BatchTable" where
  "mb_SetBatchNotional uid notional rows =
     (case first_ix (\<lambda>b. b_ID b = uid) rows of
        Some i \<Rightarrow> (Inr (), rows[i := (rows ! i)\<lparr>b_NotionalUSD := notional\<rparr>])
      | None \<Rightarrow> (Inl ErrNotFound, rows))"

definition memBatch :: "'s Rt \<Rightarrow> ('s \<Rightarrow> BatchTable) \<Rightarrow> (BatchTable \<Rightarrow> 's \<Rightarrow> 's) \<Rightarrow> 's BatchStore" where
  "memBatch rt get put = \<lparr>
     OpenBatch = (\<lambda>p s.
       let (uid, s1) = NewV7 rt s; (now, s2) = Now rt s1; (b, rows) = mb_OpenBatch uid now p (get s2)
       in (Inr b, put rows s2)),
     GetBatch = (\<lambda>uid s. (mb_GetBatch uid (get s), s)),
     ListBatches = (\<lambda>from to s. (Inr (mb_ListBatches from to (get s)), s)),
     ListOpenBatches = (\<lambda>s. (Inr (mb_ListOpenBatches (get s)), s)),
     UpdateBatchStatus = (\<lambda>uid from to mutator s.
       let (now, s1) = Now rt s; (r, rows) = mb_UpdateBatchStatus now uid from to mutator (get s1)
       in (r, put rows s1)),
     SetBatchNotional = (\<lambda>uid n s.
       let (r, rows) = mb_SetBatchNotional uid n (get s) in (r, put rows s))\<rparr>"

section \<open>The table as a finite map\<close>

text \<open>
  The abstract store of batches: a map from identifiers. Each operation refines a map
  operation.
\<close>

abbreviation batch_map :: "BatchTable \<Rightarrow> uuid \<Rightarrow> Batch option" where
  "batch_map rows \<equiv> rowmap b_ID rows"

lemma mb_GetBatch_map:
  "mb_GetBatch uid rows = (case batch_map rows uid of None \<Rightarrow> Inl ErrNotFound | Some b \<Rightarrow> Inr b)"
  by (simp add: mb_GetBatch_def rowmap_def split: option.split)

text \<open>Equality up to the instant of closing.\<close>

definition same_batch :: "Batch \<Rightarrow> Batch \<Rightarrow> bool" where
  "same_batch b b' \<longleftrightarrow> b'\<lparr>b_ClosedAt := b_ClosedAt b\<rparr> = b"

lemma same_batch_refl [simp]: "same_batch b b"
  by (simp add: same_batch_def)

lemma same_batchD:
  "same_batch b b' \<Longrightarrow> b_ID b' = b_ID b \<and> b_AssetPair b' = b_AssetPair b \<and> b_Status b' = b_Status b
     \<and> b_NotionalUSD b' = b_NotionalUSD b \<and> b_OpenedAt b' = b_OpenedAt b"
  by (cases b; cases b') (auto simp: same_batch_def)

lemma same_batch_sym: "same_batch b b' \<Longrightarrow> same_batch b' b"
  by (cases b; cases b') (auto simp: same_batch_def)

lemma same_batch_trans: "same_batch b b' \<Longrightarrow> same_batch b' b'' \<Longrightarrow> same_batch b b''"
  by (cases b; cases b'; cases b'') (auto simp: same_batch_def)

text \<open>
  A mutator writes neither the identity, the status nor the instants of the batch, and does
  not look at the instant of closing.
\<close>

definition mutator_ok :: "(Batch \<Rightarrow> Batch) option \<Rightarrow> bool" where
  "mutator_ok mutator \<longleftrightarrow>
     (\<forall>f. mutator = Some f \<longrightarrow>
        (\<forall>b. b_ID (f b) = b_ID b \<and> b_AssetPair (f b) = b_AssetPair b \<and> b_Status (f b) = b_Status b \<and>
           b_OpenedAt (f b) = b_OpenedAt b) \<and>
        (\<forall>b b'. same_batch b b' \<longrightarrow> same_batch (f b) (f b')))"

definition transitioned :: "time \<Rightarrow> BatchStatus \<Rightarrow> (Batch \<Rightarrow> Batch) option \<Rightarrow> Batch \<Rightarrow> Batch" where
  "transitioned now to mutator b =
     (let b2 = b\<lparr>b_Status := to,
                  b_ClosedAt := (if to = BatchClosed \<and> IsZero (b_ClosedAt b) then now else b_ClosedAt b)\<rparr>
      in case mutator of None \<Rightarrow> b2 | Some f \<Rightarrow> f b2)"

lemma transitioned_fields:
  assumes "mutator_ok mutator"
  shows "b_ID (transitioned now to mutator b) = b_ID b"
    and "b_AssetPair (transitioned now to mutator b) = b_AssetPair b"
    and "b_Status (transitioned now to mutator b) = to"
  using assms by (auto simp: transitioned_def mutator_ok_def Let_def split: option.split)

lemma mb_UpdateBatchStatus_map:
  "mb_UpdateBatchStatus now uid from to mutator rows =
     (case batch_map rows uid of
        None \<Rightarrow> (Inl ErrNotFound, rows)
      | Some b \<Rightarrow>
          if b_Status b \<noteq> from then (Inr None, rows)
          else if \<not> CanTransitionTo from to then (Inl ErrConflict, rows)
          else (Inr (Some (transitioned now to mutator b)),
                rows[the (first_ix (\<lambda>b. b_ID b = uid) rows) := transitioned now to mutator b]))"
  by (auto simp: mb_UpdateBatchStatus_def rowmap_def transitioned_def Let_def split: option.split)

lemma batch_map_transition:
  assumes "batch_map rows uid = Some b" and "mutator_ok mutator"
  shows "batch_map (rows[the (first_ix (\<lambda>b. b_ID b = uid) rows) := transitioned now to mutator b])
           = (batch_map rows)(uid \<mapsto> transitioned now to mutator b)"
proof -
  from assms(1) obtain i where i: "first_ix (\<lambda>b. b_ID b = uid) rows = Some i" and "rows ! i = b"
    using rowmap_Some_ix by metis
  moreover have "b_ID b = uid" using rowmap_SomeD [OF assms(1)] by simp
  ultimately show ?thesis
    using assms(2) by (simp add: rowmap_update transitioned_fields)
qed

lemma mb_SetBatchNotional_map:
  "batch_map (snd (mb_SetBatchNotional uid n rows)) =
     (case batch_map rows uid of
        None \<Rightarrow> batch_map rows
      | Some b \<Rightarrow> (batch_map rows)(uid \<mapsto> b\<lparr>b_NotionalUSD := n\<rparr>))"
  by (auto simp: mb_SetBatchNotional_def rowmap_def [of b_ID rows uid] rowmap_modify
      split: option.split)

text \<open>Opening returns an open batch of the pair and binds its identifier to it.\<close>

lemma mb_OpenBatch_open:
  "isOpenFor p (fst (mb_OpenBatch uid now p rows))"
  by (auto simp: mb_OpenBatch_def isOpenFor_def Let_def split: option.split dest: first_ix_SomeD)

lemma mb_OpenBatch_map:
  assumes "distinct (map b_ID rows)" and "uid \<notin> b_ID ` set rows"
  shows "batch_map (snd (mb_OpenBatch uid now p rows)) =
    (batch_map rows)(b_ID (fst (mb_OpenBatch uid now p rows)) \<mapsto> fst (mb_OpenBatch uid now p rows))"
  using assms rowmap_in_set [OF assms(1)]
  by (auto simp: mb_OpenBatch_def rowmap_append Let_def fun_upd_idem split: option.split
      dest: first_ix_Some_in)

lemma mb_OpenBatch_ids:
  "b_ID ` set (snd (mb_OpenBatch uid now p rows)) \<subseteq> insert uid (b_ID ` set rows)"
  by (auto simp: mb_OpenBatch_def Let_def split: option.split)

lemma mb_OpenBatch_existing:
  assumes "distinct (map b_ID rows)" and "uid \<notin> b_ID ` set rows"
    and "batch_map rows (b_ID (fst (mb_OpenBatch uid now p rows))) = Some b"
  shows "fst (mb_OpenBatch uid now p rows) = b"
proof (cases "first_ix (isOpenFor p) rows")
  case None
  with assms(2,3) show ?thesis
    by (auto simp: mb_OpenBatch_def Let_def dest!: rowmap_SomeD)
next
  case (Some i)
  with assms(1,3) rowmap_in_set [OF assms(1) first_ix_Some_in [OF Some]] show ?thesis
    by (simp add: mb_OpenBatch_def)
qed

text \<open>An open batch of the pair is reused, so opening again returns the same one.\<close>

lemma mb_OpenBatch_reuse:
  "b \<in> set rows \<Longrightarrow> isOpenFor p b \<Longrightarrow> snd (mb_OpenBatch uid now p rows) = rows"
  by (auto simp: mb_OpenBatch_def first_ix_None split: option.split)

lemma mb_SetBatchNotional_ids:
  "map b_ID (snd (mb_SetBatchNotional uid n rows)) = map b_ID rows"
  by (auto simp: mb_SetBatchNotional_def keys_update split: option.split dest: first_ix_SomeD)

section \<open>The table invariant\<close>

text \<open>
  Identifiers are distinct and at most one batch per asset pair is open.
\<close>

definition batch_inv :: "BatchTable \<Rightarrow> bool" where
  "batch_inv rows \<longleftrightarrow>
     distinct (map b_ID rows) \<and>
     distinct (map b_AssetPair (filter (\<lambda>b. b_Status b = BatchOpen) rows))"

lemma batch_inv_Nil [simp]: "batch_inv []"
  by (simp add: batch_inv_def)

lemma batch_inv_open:
  assumes "batch_inv rows" and "uid \<notin> b_ID ` set rows"
  shows "batch_inv (snd (mb_OpenBatch uid now p rows))"
  using assms
  by (auto simp: batch_inv_def mb_OpenBatch_def isOpenFor_def first_ix_None Let_def split: option.split)

lemma filter_update_drop:
  assumes "i < length xs" and "P (xs ! i)" and "\<not> P y"
  shows "\<exists>us vs. filter P xs = us @ xs ! i # vs \<and> filter P (xs[i := y]) = us @ vs"
proof -
  have "filter P xs = filter P (take i xs @ xs ! i # drop (Suc i) xs)"
    using assms(1) by (simp add: id_take_nth_drop [symmetric])
  moreover have "filter P (xs[i := y]) = filter P (take i xs @ y # drop (Suc i) xs)"
    using assms(1) by (simp add: upd_conv_take_nth_drop)
  ultimately show ?thesis using assms(2,3) by auto
qed

lemma filter_map_update_same:
  "i < length xs \<Longrightarrow> P y = P (xs ! i) \<Longrightarrow> f y = f (xs ! i) \<Longrightarrow>
   map f (filter P (xs[i := y])) = map f (filter P xs)"
  by (induction xs arbitrary: i) (auto split: nat.splits)

lemma batch_inv_update:
  assumes "batch_inv rows" and "mutator_ok mutator"
  shows "batch_inv (snd (mb_UpdateBatchStatus now uid from to mutator rows))"
proof (cases "batch_map rows uid")
  case None
  with assms(1) show ?thesis by (simp add: mb_UpdateBatchStatus_map)
next
  case (Some b)
  then obtain i where i: "first_ix (\<lambda>b. b_ID b = uid) rows = Some i" "rows ! i = b" "i < length rows"
    using rowmap_Some_ix first_ix_SomeD by metis
  show ?thesis
  proof (cases "b_Status b = from \<and> CanTransitionTo from to")
    case False
    with assms(1) Some show ?thesis by (auto simp: mb_UpdateBatchStatus_map)
  next
    case True
    let ?b = "transitioned now to mutator b"
    have to: "to \<noteq> BatchOpen" using True by (cases "from") auto
    have ids: "map b_ID (rows[i := ?b]) = map b_ID rows"
      using i assms(2) by (simp add: keys_update transitioned_fields)
    have "distinct (map b_AssetPair (filter (\<lambda>b. b_Status b = BatchOpen) (rows[i := ?b])))"
    proof (cases "b_Status b = BatchOpen")
      case True
      obtain us vs where
        "filter (\<lambda>b. b_Status b = BatchOpen) rows = us @ rows ! i # vs"
        "filter (\<lambda>b. b_Status b = BatchOpen) (rows[i := ?b]) = us @ vs"
        using filter_update_drop [of i rows "\<lambda>b. b_Status b = BatchOpen" ?b] i to True assms(2)
        by (auto simp: transitioned_fields)
      with assms(1) show ?thesis by (simp add: batch_inv_def)
    next
      case False
      with i to assms show ?thesis
        by (simp add: batch_inv_def filter_update_same transitioned_fields)
    qed
    with ids assms(1) i Some True show ?thesis
      by (simp add: mb_UpdateBatchStatus_map batch_inv_def)
  qed
qed

lemma batch_inv_notional:
  "batch_inv rows \<Longrightarrow> batch_inv (snd (mb_SetBatchNotional uid n rows))"
  by (auto simp: batch_inv_def mb_SetBatchNotional_def keys_update filter_map_update_same
      split: option.split dest: first_ix_SomeD)

lemma batch_inv_unique_open:
  assumes "batch_inv rows" and "b \<in> set rows" and "b' \<in> set rows"
    and "b_Status b = BatchOpen" and "b_Status b' = BatchOpen" and "b_AssetPair b = b_AssetPair b'"
  shows "b = b'"
  using assms inj_onD [of b_AssetPair "set (filter (\<lambda>b. b_Status b = BatchOpen) rows)" b b']
  by (auto simp: batch_inv_def distinct_map)

text \<open>Every operation keeps the statuses of the other batches and never moves one back.\<close>

lemma status_monotone:
  assumes "batch_map rows uid' = Some b" and "mutator_ok mutator"
  shows "\<exists>b'. batch_map (snd (mb_UpdateBatchStatus now uid from to mutator rows)) uid' = Some b'
            \<and> b_Status b \<le> b_Status b' \<and> b_AssetPair b' = b_AssetPair b"
  using assms CanTransitionTo_less [THEN less_imp_le]
  by (cases "batch_map rows uid")
     (auto simp: mb_UpdateBatchStatus_map batch_map_transition transitioned_fields)

lemma mb_ListOpenBatches_set:
  "set (mb_ListOpenBatches rows) = {b \<in> set rows. b_Status b = BatchOpen}"
  by (auto simp: mb_ListOpenBatches_def)

lemma mb_ListOpenBatches_sorted: "sorted (map b_ID (mb_ListOpenBatches rows))"
  by (simp add: mb_ListOpenBatches_def)

lemma mb_ListBatches_set:
  "set (mb_ListBatches from to rows) =
     {b \<in> set rows. (from \<noteq> 0 \<longrightarrow> from \<le> b_OpenedAt b) \<and> (to \<noteq> 0 \<longrightarrow> b_OpenedAt b \<le> to)}"
  by (auto simp: mb_ListBatches_def IsZero_def)

section \<open>The contract of the interface\<close>

text \<open>
  \<open>batches s\<close> is the map a store holds in state \<open>s\<close>, \<open>wf\<close> the states in which the store is
  consistent. The instant a closed batch carries is left open: implementations may stamp it
  with their own clock.
\<close>

locale batch_store =
  fixes B :: "'s BatchStore" and batches :: "'s \<Rightarrow> uuid \<Rightarrow> Batch option"
  assumes get_missing: "batches s uid = None \<Longrightarrow> fst (GetBatch B uid s) = Inl ErrNotFound"
    and get_known: "batches s uid = Some b \<Longrightarrow> \<exists>b'. fst (GetBatch B uid s) = Inr b' \<and> same_batch b b'"
    and get_frame: "batches (snd (GetBatch B uid s)) = batches s"
    and upd_missing: "batches s uid = None \<Longrightarrow>
      fst (UpdateBatchStatus B uid from to mu s) = Inl ErrNotFound"
    and upd_other: "batches s uid = Some b \<Longrightarrow> b_Status b \<noteq> from \<Longrightarrow>
      fst (UpdateBatchStatus B uid from to mu s) = Inr None"
    and upd_forbidden: "batches s uid = Some b \<Longrightarrow> b_Status b = from \<Longrightarrow> \<not> CanTransitionTo from to \<Longrightarrow>
      fst (UpdateBatchStatus B uid from to mu s) = Inl ErrConflict"
    and upd_frame: "fst (UpdateBatchStatus B uid from to mu s) \<notin> Inr ` range Some \<Longrightarrow>
      batches (snd (UpdateBatchStatus B uid from to mu s)) = batches s"
    and upd_ok: "batches s uid = Some b \<Longrightarrow> b_Status b = from \<Longrightarrow> CanTransitionTo from to \<Longrightarrow>
      mutator_ok mu \<Longrightarrow>
      \<exists>b' b''. fst (UpdateBatchStatus B uid from to mu s) = Inr (Some b') \<and>
        (\<exists>t. same_batch (transitioned t to mu b) b') \<and> same_batch b' b'' \<and>
        batches (snd (UpdateBatchStatus B uid from to mu s)) = (batches s)(uid \<mapsto> b'')"
begin

text \<open>Only one of any number of attempts to leave a status succeeds.\<close>

lemma upd_once:
  assumes "fst (UpdateBatchStatus B uid from to mu s) = Inr (Some b')" and "mutator_ok mu"
    and "batches t uid = batches (snd (UpdateBatchStatus B uid from to mu s)) uid"
  shows "fst (UpdateBatchStatus B uid from to mu' t) = Inr None"
proof -
  from assms(1) obtain b where b: "batches s uid = Some b" "b_Status b = from" "CanTransitionTo from to"
    using upd_missing upd_other upd_forbidden
    by (metis Inl_Inr_False not_None_eq option.distinct(1) sum.inject(2))
  from upd_ok [OF b assms(2)] assms(1,3) obtain b'' where
    "batches t uid = Some b''" "\<exists>c. same_batch (transitioned c to mu b) b''" by auto (metis same_batch_trans)
  moreover from this(2) have "b_Status b'' = to"
    using assms(2) by (auto dest: same_batchD simp: transitioned_fields)
  moreover have "to \<noteq> from" using b(3) by (cases "from") auto
  ultimately show ?thesis using upd_other by blast
qed

end

locale batch_slot = slot rt get put for rt :: "'s Rt" and get :: "'s \<Rightarrow> BatchTable" and put
begin

sublocale mem: batch_store "memBatch rt get put" "\<lambda>s. batch_map (get s)"
proof
  fix s uid b "from" to and mu :: "(Batch \<Rightarrow> Batch) option"
  assume b: "batch_map (get s) uid = Some b" "b_Status b = from" "CanTransitionTo from to" "mutator_ok mu"
  let ?b = "transitioned (fst (Now rt s)) to mu b"
  show "\<exists>b' b''. fst (UpdateBatchStatus (memBatch rt get put) uid from to mu s) = Inr (Some b') \<and>
      (\<exists>t. same_batch (transitioned t to mu b) b') \<and> same_batch b' b'' \<and>
      batch_map (get (snd (UpdateBatchStatus (memBatch rt get put) uid from to mu s)))
        = (batch_map (get s))(uid \<mapsto> b'')"
    by (rule exI [of _ ?b], rule exI [of _ ?b])
       (use b in \<open>auto simp: memBatch_def case_prod_beta mb_UpdateBatchStatus_map batch_map_transition
          intro: exI [of _ "fst (Now rt s)"]\<close>)
qed (auto simp: memBatch_def Let_def case_prod_beta mb_GetBatch_map mb_UpdateBatchStatus_map
      split: option.splits if_splits)

end

end
