(* ===== verification/Mem_Member.thy ===== *)
theory Mem_Member
  imports Idempotency
begin

text \<open>
  \<^verbatim>\<open>memstore.MembershipStore\<close>: the memberships in insertion order and the set
  \<open>byTx\<close> of the transactions that have one. The contract \<open>membership_store\<close> is what the
  consumer and the scheduler rely on: a transaction joins at most once, and the notional of
  a batch is the sum over its members.
\<close>

section \<open>Operations\<close>

record MemberTable =
  mt_rows :: "Membership list"
  mt_byTx :: "string \<Rightarrow> bool"

definition NewMembershipStore :: MemberTable where
  "NewMembershipStore = \<lparr>mt_rows = [], mt_byTx = (\<lambda>_. False)\<rparr>"

definition mm_AddMembership :: "uuid \<Rightarrow> time \<Rightarrow> Membership \<Rightarrow> MemberTable \<Rightarrow> bool \<times> MemberTable" where
  "mm_AddMembership uid now m s =
     (if mt_byTx s (m_TxID m) then (False, s)
      else
        let s1 = s\<lparr>mt_byTx := (mt_byTx s)(m_TxID m := True)\<rparr>;
            c = m\<lparr>m_ID := uid\<rparr>;
            c2 = (if IsZero (m_CreatedAt c) then c\<lparr>m_CreatedAt := now\<rparr> else c)
        in (True, s1\<lparr>mt_rows := mt_rows s1 @ [c2]\<rparr>))"

definition mm_ListMemberships :: "uuid \<Rightarrow> MemberTable \<Rightarrow> Membership list" where
  "mm_ListMemberships batchID s = sort_key m_ID (filter (\<lambda>m. m_BatchID m = batchID) (mt_rows s))"

fun mm_sum_loop :: "uuid \<Rightarrow> Membership list \<Rightarrow> decimal \<Rightarrow> decimal" where
  "mm_sum_loop batchID [] acc = acc"
| "mm_sum_loop batchID (m # ms) acc =
     mm_sum_loop batchID ms (if m_BatchID m = batchID then acc + m_NotionalUSD m else acc)"

definition mm_SumNotional :: "uuid \<Rightarrow> MemberTable \<Rightarrow> decimal" where
  "mm_SumNotional batchID s = mm_sum_loop batchID (mt_rows s) 0"

definition mm_ExistsByTxID :: "string \<Rightarrow> MemberTable \<Rightarrow> bool" where
  "mm_ExistsByTxID txID s = mt_byTx s txID"

definition memMember ::
  "'s Rt \<Rightarrow> ('s \<Rightarrow> MemberTable) \<Rightarrow> (MemberTable \<Rightarrow> 's \<Rightarrow> 's) \<Rightarrow> 's MembershipStore" where
  "memMember rt get put = \<lparr>
     AddMembership = (\<lambda>m s.
       let (uid, s1) = NewV7 rt s; (now, s2) = Now rt s1; (ok, t) = mm_AddMembership uid now m (get s2)
       in (Inr ok, put t s2)),
     ListMemberships = (\<lambda>b s. (Inr (mm_ListMemberships b (get s)), s)),
     SumNotional = (\<lambda>b s. (Inr (mm_SumNotional b (get s)), s)),
     ExistsByTxID = (\<lambda>tx s. (Inr (mm_ExistsByTxID tx (get s)), s))\<rparr>"

section \<open>The notional of a batch\<close>

definition notional_of :: "uuid \<Rightarrow> Membership list \<Rightarrow> decimal" where
  "notional_of batchID ms = sum_list (map m_NotionalUSD (filter (\<lambda>m. m_BatchID m = batchID) ms))"

lemma notional_of_Nil [simp]: "notional_of b [] = 0"
  by (simp add: notional_of_def)

lemma notional_of_append [simp]: "notional_of b (ms @ ns) = notional_of b ms + notional_of b ns"
  by (simp add: notional_of_def)

lemma notional_of_Cons [simp]:
  "notional_of b (m # ms) = (if m_BatchID m = b then m_NotionalUSD m else 0) + notional_of b ms"
  by (simp add: notional_of_def)

lemma mm_sum_loop_eq: "mm_sum_loop b ms acc = acc + notional_of b ms"
  by (induction b ms acc rule: mm_sum_loop.induct) auto

lemma mm_SumNotional_eq: "mm_SumNotional b s = notional_of b (mt_rows s)"
  by (simp add: mm_SumNotional_def mm_sum_loop_eq)

section \<open>The table invariant\<close>

definition member_inv :: "MemberTable \<Rightarrow> bool" where
  "member_inv s \<longleftrightarrow>
     distinct (map m_TxID (mt_rows s)) \<and> (\<forall>tx. mt_byTx s tx \<longleftrightarrow> tx \<in> m_TxID ` set (mt_rows s))"

lemma member_inv_new [simp]: "member_inv NewMembershipStore"
  by (simp add: member_inv_def NewMembershipStore_def)

lemma member_inv_add: "member_inv s \<Longrightarrow> member_inv (snd (mm_AddMembership uid now m s))"
  by (auto simp: member_inv_def mm_AddMembership_def Let_def)

definition stamped :: "uuid \<Rightarrow> time \<Rightarrow> Membership \<Rightarrow> Membership" where
  "stamped uid now m = m\<lparr>m_ID := uid, m_CreatedAt := (if IsZero (m_CreatedAt m) then now else m_CreatedAt m)\<rparr>"

lemma stamped_fields [simp]:
  "m_BatchID (stamped uid now m) = m_BatchID m" "m_TxID (stamped uid now m) = m_TxID m"
  "m_NotionalUSD (stamped uid now m) = m_NotionalUSD m" "m_Amount (stamped uid now m) = m_Amount m"
  "m_ID (stamped uid now m) = uid"
  by (simp_all add: stamped_def)

lemma mm_AddMembership_cases:
  "mm_AddMembership uid now m s =
     (if mt_byTx s (m_TxID m) then (False, s)
      else (True, \<lparr>mt_rows = mt_rows s @ [stamped uid now m], mt_byTx = (mt_byTx s)(m_TxID m := True)\<rparr>))"
  by (cases s) (simp add: mm_AddMembership_def stamped_def Let_def)

lemma mm_ListMemberships_set:
  "set (mm_ListMemberships b s) = {m \<in> set (mt_rows s). m_BatchID m = b}"
  by (auto simp: mm_ListMemberships_def)

lemma mm_ListMemberships_empty:
  "mm_ListMemberships b s = [] \<longleftrightarrow> (\<forall>m \<in> set (mt_rows s). m_BatchID m \<noteq> b)"
  by (simp flip: set_empty) (auto simp: mm_ListMemberships_set)

section \<open>The contract of the interface\<close>

text \<open>What a component that only reads the memberships relies on.\<close>

locale membership_reader =
  fixes M :: "'s MembershipStore" and members :: "'s \<Rightarrow> Membership list" and mwf :: "'s \<Rightarrow> bool"
  assumes sum_result: "mwf s \<Longrightarrow> fst (SumNotional M b s) = Inr (notional_of b (members s))"
    and exists_result: "mwf s \<Longrightarrow> fst (ExistsByTxID M tx s) = Inr (tx \<in> m_TxID ` set (members s))"
    and list_result: "mwf s \<Longrightarrow>
      \<exists>ms. fst (ListMemberships M b s) = Inr ms \<and> set ms = {m \<in> set (members s). m_BatchID m = b}"
    and read_frame:
      "members (snd (SumNotional M b s)) = members s" "mwf (snd (SumNotional M b s)) = mwf s"
      "members (snd (ExistsByTxID M tx s)) = members s" "mwf (snd (ExistsByTxID M tx s)) = mwf s"
      "members (snd (ListMemberships M b s)) = members s" "mwf (snd (ListMemberships M b s)) = mwf s"

locale membership_store = membership_reader M members mwf
  for M :: "'s MembershipStore" and members :: "'s \<Rightarrow> Membership list" and mwf :: "'s \<Rightarrow> bool" +
  assumes add_dup: "mwf s \<Longrightarrow> m_TxID m \<in> m_TxID ` set (members s) \<Longrightarrow>
      fst (AddMembership M m s) = Inr False \<and> members (snd (AddMembership M m s)) = members s"
    and add_new: "mwf s \<Longrightarrow> m_TxID m \<notin> m_TxID ` set (members s) \<Longrightarrow>
      fst (AddMembership M m s) = Inr True \<and>
      (\<exists>uid t. members (snd (AddMembership M m s)) = members s @ [stamped uid t m])"
    and add_wf: "mwf s \<Longrightarrow> mwf (snd (AddMembership M m s))"
begin

lemma add_txs:
  "mwf s \<Longrightarrow> m_TxID ` set (members (snd (AddMembership M m s))) = insert (m_TxID m) (m_TxID ` set (members s))"
  using add_dup [of s m] add_new [of s m] by (cases "m_TxID m \<in> m_TxID ` set (members s)") auto

text \<open>Adding a transaction twice is the same as adding it once.\<close>

lemma add_replay:
  assumes "mwf s" and "m_TxID m' = m_TxID m"
  shows "fst (AddMembership M m' (snd (AddMembership M m s))) = Inr False \<and>
    members (snd (AddMembership M m' (snd (AddMembership M m s)))) = members (snd (AddMembership M m s))"
  using add_dup [OF add_wf [OF assms(1)], of m' m] add_txs [OF assms(1), of m] assms(2) by simp

lemma add_notional:
  assumes "mwf s"
  shows "notional_of b (members (snd (AddMembership M m s))) = notional_of b (members s) +
    (if m_BatchID m = b \<and> m_TxID m \<notin> m_TxID ` set (members s) then m_NotionalUSD m else 0)"
proof (cases "m_TxID m \<in> m_TxID ` set (members s)")
  case True
  then show ?thesis using add_dup [OF assms True] by simp
next
  case False
  then show ?thesis using add_new [OF assms False] by auto
qed

end

locale member_slot = slot rt get put for rt :: "'s Rt" and get :: "'s \<Rightarrow> MemberTable" and put
begin

sublocale mem: membership_store "memMember rt get put" "\<lambda>s. mt_rows (get s)" "\<lambda>s. member_inv (get s)"
proof
  fix s and m :: Membership
  assume inv: "member_inv (get s)"
  then show "member_inv (get (snd (AddMembership (memMember rt get put) m s)))"
    by (simp add: memMember_def case_prod_beta member_inv_add)
  show "m_TxID m \<notin> m_TxID ` set (mt_rows (get s)) \<Longrightarrow>
      fst (AddMembership (memMember rt get put) m s) = Inr True \<and>
      (\<exists>uid t. mt_rows (get (snd (AddMembership (memMember rt get put) m s)))
         = mt_rows (get s) @ [stamped uid t m])"
    using inv by (auto simp: memMember_def case_prod_beta mm_AddMembership_cases member_inv_def)
qed (auto simp: memMember_def case_prod_beta mm_AddMembership_cases member_inv_def
      mm_SumNotional_eq mm_ListMemberships_set mm_ExistsByTxID_def)

end

end
