(* ===== verification/Mem_Order.thy ===== *)
theory Mem_Order
  imports Idempotency
begin

text \<open>
  \<^verbatim>\<open>memstore.AggregateOrderStore\<close>: the parent orders, at most one per batch.
  \<open>CreateOrder\<close> returns a copy when the order exists and a pointer into the table when it
  is new; \<open>UpdateOrderFill\<close> and \<open>SettleOrder\<close> return pointers into the table
  (\<open>&*r\<close> is \<open>r\<close> in Go), so a caller that keeps one sees later updates.
\<close>

section \<open>Operations\<close>

type_synonym OrderTable = "AggregateOrder list"

text \<open>What an operation returns: a copy of a row, or an alias of the row at an index.\<close>

datatype 'r rowptr = Copy 'r | Alias nat

primrec deref :: "'r list \<Rightarrow> 'r rowptr \<Rightarrow> 'r" where
  "deref rows (Copy r) = r"
| "deref rows (Alias i) = rows ! i"

definition defaulted_order :: "uuid \<Rightarrow> time \<Rightarrow> AggregateOrder \<Rightarrow> AggregateOrder" where
  "defaulted_order uid now ord =
     (let c = ord\<lparr>o_ID := uid\<rparr>;
          c = (if o_Side c = [] then c\<lparr>o_Side := ''BUY''\<rparr> else c);
          c = (if o_Status c = AggregateUnset then c\<lparr>o_Status := AggregateExecuting\<rparr> else c);
          c = (if IsZero (o_CreatedAt c) then c\<lparr>o_CreatedAt := now\<rparr> else c)
      in c)"

definition mo_CreateOrder ::
  "uuid \<Rightarrow> time \<Rightarrow> AggregateOrder \<Rightarrow> OrderTable \<Rightarrow> AggregateOrder rowptr \<times> OrderTable" where
  "mo_CreateOrder uid now ord rows =
     (case first_ix (\<lambda>r. o_BatchID r = o_BatchID ord) rows of
        Some i \<Rightarrow> (Copy (rows ! i), rows)
      | None \<Rightarrow> (Alias (length rows), rows @ [defaulted_order uid now ord]))"

definition mo_GetOrderByBatch :: "uuid \<Rightarrow> OrderTable \<Rightarrow> error + AggregateOrder rowptr" where
  "mo_GetOrderByBatch batchID rows =
     (case first_ix (\<lambda>r. o_BatchID r = batchID) rows of
        Some i \<Rightarrow> Inr (Copy (rows ! i))
      | None \<Rightarrow> Inl ErrNotFound)"

definition mo_ListOrders :: "string \<Rightarrow> OrderTable \<Rightarrow> AggregateOrder list" where
  "mo_ListOrders status rows =
     sort_key o_ID (filter (\<lambda>r. \<not> (status \<noteq> [] \<and> AggregateStatus_str (o_Status r) \<noteq> status)) rows)"

definition filled_order :: "decimal \<Rightarrow> decimal \<Rightarrow> VenueRoute list \<Rightarrow> AggregateOrder \<Rightarrow> AggregateOrder" where
  "filled_order fillPrice totalFilled routes r =
     r\<lparr>o_FillPrice := fillPrice, o_TotalFilled := totalFilled, o_VenueRoutes := routes\<rparr>"

definition mo_UpdateOrderFill ::
  "uuid \<Rightarrow> decimal \<Rightarrow> decimal \<Rightarrow> VenueRoute list \<Rightarrow> OrderTable
   \<Rightarrow> (error + AggregateOrder rowptr) \<times> OrderTable" where
  "mo_UpdateOrderFill batchID fillPrice totalFilled routes rows =
     (case first_ix (\<lambda>r. o_BatchID r = batchID) rows of
        Some i \<Rightarrow> (Inr (Alias i), rows[i := filled_order fillPrice totalFilled routes (rows ! i)])
      | None \<Rightarrow> (Inl ErrNotFound, rows))"

definition settled_order :: "time \<Rightarrow> decimal \<Rightarrow> AggregateOrder \<Rightarrow> AggregateOrder" where
  "settled_order now hedged r =
     r\<lparr>o_Status := AggregateSettled, o_HedgedNotional := hedged, o_SettledAt := now\<rparr>"

definition mo_SettleOrder ::
  "time \<Rightarrow> uuid \<Rightarrow> decimal \<Rightarrow> OrderTable \<Rightarrow> (error + AggregateOrder rowptr) \<times> OrderTable" where
  "mo_SettleOrder now batchID hedged rows =
     (case first_ix (\<lambda>r. o_BatchID r = batchID) rows of
        Some i \<Rightarrow> (Inr (Alias i), rows[i := settled_order now hedged (rows ! i)])
      | None \<Rightarrow> (Inl ErrNotFound, rows))"

definition memOrder ::
  "'s Rt \<Rightarrow> ('s \<Rightarrow> OrderTable) \<Rightarrow> (OrderTable \<Rightarrow> 's \<Rightarrow> 's) \<Rightarrow> 's AggregateOrderStore" where
  "memOrder rt get put = \<lparr>
     CreateOrder = (\<lambda>ord s.
       let (uid, s1) = NewV7 rt s; (now, s2) = Now rt s1; (p, rows) = mo_CreateOrder uid now ord (get s2)
       in (Inr (\<lambda>s'. deref (get s') p), put rows s2)),
     GetOrderByBatch = (\<lambda>b s.
       (map_sum (\<lambda>e. e) (\<lambda>p s'. deref (get s') p) (mo_GetOrderByBatch b (get s)), s)),
     ListOrders = (\<lambda>st s. (Inr (mo_ListOrders st (get s)), s)),
     UpdateOrderFill = (\<lambda>b fp tf vr s.
       let (r, rows) = mo_UpdateOrderFill b fp tf vr (get s)
       in (map_sum (\<lambda>e. e) (\<lambda>p s'. deref (get s') p) r, put rows s)),
     SettleOrder = (\<lambda>b h s.
       let (now, s1) = Now rt s; (r, rows) = mo_SettleOrder now b h (get s1)
       in (map_sum (\<lambda>e. e) (\<lambda>p s'. deref (get s') p) r, put rows s1))\<rparr>"

section \<open>The table as a finite map\<close>

abbreviation order_map :: "OrderTable \<Rightarrow> uuid \<Rightarrow> AggregateOrder option" where
  "order_map rows \<equiv> rowmap o_BatchID rows"

lemma order_fields [simp]:
  "o_BatchID (defaulted_order uid now ord) = o_BatchID ord"
  "o_NotionalUSD (defaulted_order uid now ord) = o_NotionalUSD ord"
  "o_AssetPair (defaulted_order uid now ord) = o_AssetPair ord"
  "o_TotalFilled (defaulted_order uid now ord) = o_TotalFilled ord"
  "o_Status (defaulted_order uid now ord) =
     (if o_Status ord = AggregateUnset then AggregateExecuting else o_Status ord)"
  "o_BatchID (filled_order fp tf vr r) = o_BatchID r"
  "o_NotionalUSD (filled_order fp tf vr r) = o_NotionalUSD r"
  "o_AssetPair (filled_order fp tf vr r) = o_AssetPair r"
  "o_Status (filled_order fp tf vr r) = o_Status r"
  "o_TotalFilled (filled_order fp tf vr r) = tf"
  "o_FillPrice (filled_order fp tf vr r) = fp"
  "o_VenueRoutes (filled_order fp tf vr r) = vr"
  "o_BatchID (settled_order now h r) = o_BatchID r"
  "o_NotionalUSD (settled_order now h r) = o_NotionalUSD r"
  "o_AssetPair (settled_order now h r) = o_AssetPair r"
  "o_TotalFilled (settled_order now h r) = o_TotalFilled r"
  "o_Status (settled_order now h r) = AggregateSettled"
  "o_HedgedNotional (settled_order now h r) = h"
  by (simp_all add: defaulted_order_def filled_order_def settled_order_def Let_def)

lemma mo_CreateOrder_new:
  assumes "order_map rows (o_BatchID ord) = None"
  shows "mo_CreateOrder uid now ord rows = (Alias (length rows), rows @ [defaulted_order uid now ord])"
    and "order_map (rows @ [defaulted_order uid now ord]) =
      (order_map rows)(o_BatchID ord \<mapsto> defaulted_order uid now ord)"
  using assms by (auto simp: mo_CreateOrder_def rowmap_append rowmap_None first_ix_None image_iff
      split: option.split dest: first_ix_SomeD)

lemma mo_CreateOrder_existing:
  "order_map rows (o_BatchID ord) = Some r \<Longrightarrow> mo_CreateOrder uid now ord rows = (Copy r, rows)"
  by (auto simp: mo_CreateOrder_def dest: rowmap_Some_ix)

lemma mo_CreateOrder_map:
  "order_map (snd (mo_CreateOrder uid now ord rows)) =
     (case order_map rows (o_BatchID ord) of
        Some r \<Rightarrow> order_map rows
      | None \<Rightarrow> (order_map rows)(o_BatchID ord \<mapsto> defaulted_order uid now ord))"
  by (simp add: mo_CreateOrder_new mo_CreateOrder_existing split: option.split)

lemma mo_UpdateOrderFill_map:
  "order_map (snd (mo_UpdateOrderFill b fp tf vr rows)) =
     (case order_map rows b of
        None \<Rightarrow> order_map rows
      | Some r \<Rightarrow> (order_map rows)(b \<mapsto> filled_order fp tf vr r))"
  by (auto simp: mo_UpdateOrderFill_def rowmap_def [of o_BatchID rows b] rowmap_modify split: option.split)

lemma mo_SettleOrder_map:
  "order_map (snd (mo_SettleOrder now b h rows)) =
     (case order_map rows b of
        None \<Rightarrow> order_map rows
      | Some r \<Rightarrow> (order_map rows)(b \<mapsto> settled_order now h r))"
  by (auto simp: mo_SettleOrder_def rowmap_def [of o_BatchID rows b] rowmap_modify split: option.split)

text \<open>One order per batch, whatever the order of creations, fills and settlements.\<close>

definition order_inv :: "OrderTable \<Rightarrow> bool" where
  "order_inv rows \<longleftrightarrow> distinct (map o_BatchID rows)"

lemma order_inv_Nil [simp]: "order_inv []"
  by (simp add: order_inv_def)

lemma order_inv_create: "order_inv rows \<Longrightarrow> order_inv (snd (mo_CreateOrder uid now ord rows))"
  by (auto simp: order_inv_def mo_CreateOrder_def first_ix_None split: option.split)

lemma order_inv_fill: "order_inv rows \<Longrightarrow> order_inv (snd (mo_UpdateOrderFill b fp tf vr rows))"
  by (auto simp: order_inv_def mo_UpdateOrderFill_def keys_update split: option.split dest: first_ix_SomeD)

lemma order_inv_settle: "order_inv rows \<Longrightarrow> order_inv (snd (mo_SettleOrder now b h rows))"
  by (auto simp: order_inv_def mo_SettleOrder_def keys_update split: option.split dest: first_ix_SomeD)

section \<open>The contract of the interface\<close>

text \<open>
  \<open>orders s\<close> is the map from batches to their parent order. A returned pointer, read right
  after the operation, is the row of the batch.
\<close>

locale order_store =
  fixes Os :: "'s AggregateOrderStore" and orders :: "'s \<Rightarrow> uuid \<Rightarrow> AggregateOrder option"
  assumes create_existing: "orders s (o_BatchID ord) = Some r \<Longrightarrow>
      \<exists>p. fst (CreateOrder Os ord s) = Inr p \<and> p (snd (CreateOrder Os ord s)) = r \<and>
          orders (snd (CreateOrder Os ord s)) = orders s"
    and create_new: "orders s (o_BatchID ord) = None \<Longrightarrow>
      \<exists>p uid t. fst (CreateOrder Os ord s) = Inr p \<and>
          p (snd (CreateOrder Os ord s)) = defaulted_order uid t ord \<and>
          orders (snd (CreateOrder Os ord s)) = (orders s)(o_BatchID ord \<mapsto> defaulted_order uid t ord)"
    and get_known: "orders s b = Some r \<Longrightarrow>
      \<exists>p. fst (GetOrderByBatch Os b s) = Inr p \<and> p (snd (GetOrderByBatch Os b s)) = r"
    and get_missing: "orders s b = None \<Longrightarrow> fst (GetOrderByBatch Os b s) = Inl ErrNotFound"
    and get_frame: "orders (snd (GetOrderByBatch Os b s)) = orders s"
    and fill_known: "orders s b = Some r \<Longrightarrow>
      \<exists>p. fst (UpdateOrderFill Os b fp tf vr s) = Inr p \<and>
          p (snd (UpdateOrderFill Os b fp tf vr s)) = filled_order fp tf vr r \<and>
          orders (snd (UpdateOrderFill Os b fp tf vr s)) = (orders s)(b \<mapsto> filled_order fp tf vr r)"
    and settle_known: "orders s b = Some r \<Longrightarrow>
      \<exists>p t. fst (SettleOrder Os b h s) = Inr p \<and>
          p (snd (SettleOrder Os b h s)) = settled_order t h r \<and>
          orders (snd (SettleOrder Os b h s)) = (orders s)(b \<mapsto> settled_order t h r)"
begin

text \<open>Creating the order of a batch again returns the one that exists, unchanged.\<close>

lemma create_idempotent:
  assumes "o_BatchID ord' = o_BatchID ord" and "CreateOrder Os ord s = (q, s1)"
  shows "\<exists>p r. fst (CreateOrder Os ord' s1) = Inr p \<and> orders s1 (o_BatchID ord) = Some r \<and>
     p (snd (CreateOrder Os ord' s1)) = r \<and> orders (snd (CreateOrder Os ord' s1)) = orders s1"
proof -
  obtain r where "orders s1 (o_BatchID ord) = Some r"
    using create_existing [of s ord] create_new [of s ord] assms(2)
    by (cases "orders s (o_BatchID ord)") auto
  with create_existing [of s1 ord' r] assms(1) show ?thesis by auto
qed

end

locale order_slot = slot rt get put for rt :: "'s Rt" and get :: "'s \<Rightarrow> OrderTable" and put
begin

sublocale mem: order_store "memOrder rt get put" "\<lambda>s. order_map (get s)"
proof
  fix s and ord :: AggregateOrder and b h fp tf vr and r :: AggregateOrder
  show "order_map (get s) (o_BatchID ord) = None \<Longrightarrow>
      \<exists>p uid t. fst (CreateOrder (memOrder rt get put) ord s) = Inr p \<and>
        p (snd (CreateOrder (memOrder rt get put) ord s)) = defaulted_order uid t ord \<and>
        order_map (get (snd (CreateOrder (memOrder rt get put) ord s)))
          = (order_map (get s))(o_BatchID ord \<mapsto> defaulted_order uid t ord)"
    by (auto simp: memOrder_def case_prod_beta mo_CreateOrder_new)
  show "order_map (get s) b = Some r \<Longrightarrow>
      \<exists>p. fst (UpdateOrderFill (memOrder rt get put) b fp tf vr s) = Inr p \<and>
        p (snd (UpdateOrderFill (memOrder rt get put) b fp tf vr s)) = filled_order fp tf vr r \<and>
        order_map (get (snd (UpdateOrderFill (memOrder rt get put) b fp tf vr s)))
          = (order_map (get s))(b \<mapsto> filled_order fp tf vr r)"
    by (auto simp: memOrder_def case_prod_beta mo_UpdateOrderFill_def rowmap_modify
        dest!: rowmap_Some_row)
  show "order_map (get s) b = Some r \<Longrightarrow>
      \<exists>p t. fst (SettleOrder (memOrder rt get put) b h s) = Inr p \<and>
        p (snd (SettleOrder (memOrder rt get put) b h s)) = settled_order t h r \<and>
        order_map (get (snd (SettleOrder (memOrder rt get put) b h s)))
          = (order_map (get s))(b \<mapsto> settled_order t h r)"
    by (auto simp: memOrder_def case_prod_beta mo_SettleOrder_def rowmap_modify
        dest!: rowmap_Some_row)
qed (auto simp: memOrder_def case_prod_beta mo_CreateOrder_def mo_GetOrderByBatch_def rowmap_def
      split: option.splits)

end

end
