(* ===== verification/Mem_Funding.thy ===== *)
theory Mem_Funding
  imports Mem_Order
begin

text \<open>
  \<^verbatim>\<open>memstore.FundingStore\<close> and \<^verbatim>\<open>memstore.RebalancingStore\<close>: funding requests
  and rebalancing jobs, each with a status that an update overwrites and a completion instant
  that a final status stamps. \<open>CreateFunding\<close>, \<open>GetFunding\<close> and \<open>CreateJob\<close> return pointers
  into the table.
\<close>

section \<open>Funding requests\<close>

type_synonym FundingTable = "FundingRequest list"

definition new_funding :: "uuid \<Rightarrow> time \<Rightarrow> FundingRequest \<Rightarrow> FundingRequest" where
  "new_funding uid now f =
     (let c = f\<lparr>fr_ID := uid\<rparr>;
          c = (if fr_Status c = FundingUnset then c\<lparr>fr_Status := FundingPending\<rparr> else c);
          c = (if IsZero (fr_CreatedAt c) then c\<lparr>fr_CreatedAt := now\<rparr> else c)
      in c)"

definition mfu_CreateFunding ::
  "uuid \<Rightarrow> time \<Rightarrow> FundingRequest \<Rightarrow> FundingTable \<Rightarrow> FundingRequest rowptr \<times> FundingTable" where
  "mfu_CreateFunding uid now f rows = (Alias (length rows), rows @ [new_funding uid now f])"

definition mfu_GetFunding :: "uuid \<Rightarrow> FundingTable \<Rightarrow> error + FundingRequest rowptr" where
  "mfu_GetFunding uid rows =
     (case first_ix (\<lambda>r. fr_ID r = uid) rows of
        Some i \<Rightarrow> Inr (Alias i)
      | None \<Rightarrow> Inl ErrNotFound)"

definition funding_status :: "time \<Rightarrow> FundingStatus \<Rightarrow> FundingRequest \<Rightarrow> FundingRequest" where
  "funding_status now status r =
     (let r = r\<lparr>fr_Status := status\<rparr>
      in if status = FundingCompleted \<or> status = FundingRejected then r\<lparr>fr_CompletedAt := now\<rparr> else r)"

definition mfu_UpdateFundingStatus ::
  "time \<Rightarrow> uuid \<Rightarrow> FundingStatus \<Rightarrow> FundingTable \<Rightarrow> (error + unit) \<times> FundingTable" where
  "mfu_UpdateFundingStatus now uid status rows =
     (case first_ix (\<lambda>r. fr_ID r = uid) rows of
        Some i \<Rightarrow> (Inr (), rows[i := funding_status now status (rows ! i)])
      | None \<Rightarrow> (Inl ErrNotFound, rows))"

definition mfu_ListFunding :: "string \<Rightarrow> FundingTable \<Rightarrow> FundingRequest list" where
  "mfu_ListFunding status rows =
     sort_key fr_ID (filter (\<lambda>r. status = [] \<or> FundingStatus_str (fr_Status r) = status) rows)"

definition memFunding ::
  "'s Rt \<Rightarrow> ('s \<Rightarrow> FundingTable) \<Rightarrow> (FundingTable \<Rightarrow> 's \<Rightarrow> 's) \<Rightarrow> 's FundingStore" where
  "memFunding rt get put = \<lparr>
     CreateFunding = (\<lambda>f s.
       let (uid, s1) = NewV7 rt s; (now, s2) = Now rt s1; (p, rows) = mfu_CreateFunding uid now f (get s2)
       in (Inr (\<lambda>s'. deref (get s') p), put rows s2)),
     GetFunding = (\<lambda>uid s.
       (map_sum (\<lambda>e. e) (\<lambda>p s'. deref (get s') p) (mfu_GetFunding uid (get s)), s)),
     UpdateFundingStatus = (\<lambda>uid st s.
       let (now, s1) = Now rt s; (r, rows) = mfu_UpdateFundingStatus now uid st (get s1)
       in (r, put rows s1)),
     ListFunding = (\<lambda>st s. (Inr (mfu_ListFunding st (get s)), s))\<rparr>"

section \<open>Rebalancing jobs\<close>

type_synonym JobTable = "RebalancingJob list"

definition new_job :: "uuid \<Rightarrow> time \<Rightarrow> RebalancingJob \<Rightarrow> RebalancingJob" where
  "new_job uid now j =
     (let c = j\<lparr>rj_ID := uid\<rparr>;
          c = (if rj_Status c = RebalanceUnset then c\<lparr>rj_Status := RebalancePending\<rparr> else c);
          c = (if IsZero (rj_CreatedAt c) then c\<lparr>rj_CreatedAt := now\<rparr> else c)
      in c)"

definition mrj_CreateJob ::
  "uuid \<Rightarrow> time \<Rightarrow> RebalancingJob \<Rightarrow> JobTable \<Rightarrow> RebalancingJob rowptr \<times> JobTable" where
  "mrj_CreateJob uid now j rows = (Alias (length rows), rows @ [new_job uid now j])"

definition mrj_ListJobs :: "string \<Rightarrow> JobTable \<Rightarrow> RebalancingJob list" where
  "mrj_ListJobs status rows =
     sort_key rj_ID (filter (\<lambda>r. status = [] \<or> RebalanceStatus_str (rj_Status r) = status) rows)"

definition job_status :: "time \<Rightarrow> RebalanceStatus \<Rightarrow> RebalancingJob \<Rightarrow> RebalancingJob" where
  "job_status now status r =
     (let r = r\<lparr>rj_Status := status\<rparr>
      in if status = RebalanceCompleted \<or> status = RebalanceRejected then r\<lparr>rj_CompletedAt := now\<rparr> else r)"

definition mrj_UpdateJobStatus ::
  "time \<Rightarrow> uuid \<Rightarrow> RebalanceStatus \<Rightarrow> JobTable \<Rightarrow> (error + unit) \<times> JobTable" where
  "mrj_UpdateJobStatus now uid status rows =
     (case first_ix (\<lambda>r. rj_ID r = uid) rows of
        Some i \<Rightarrow> (Inr (), rows[i := job_status now status (rows ! i)])
      | None \<Rightarrow> (Inl ErrNotFound, rows))"

definition memRebalance ::
  "'s Rt \<Rightarrow> ('s \<Rightarrow> JobTable) \<Rightarrow> (JobTable \<Rightarrow> 's \<Rightarrow> 's) \<Rightarrow> 's RebalancingStore" where
  "memRebalance rt get put = \<lparr>
     CreateJob = (\<lambda>j s.
       let (uid, s1) = NewV7 rt s; (now, s2) = Now rt s1; (p, rows) = mrj_CreateJob uid now j (get s2)
       in (Inr (\<lambda>s'. deref (get s') p), put rows s2)),
     ListJobs = (\<lambda>st s. (Inr (mrj_ListJobs st (get s)), s)),
     UpdateJobStatus = (\<lambda>uid st s.
       let (now, s1) = Now rt s; (r, rows) = mrj_UpdateJobStatus now uid st (get s1)
       in (r, put rows s1))\<rparr>"

section \<open>Lemmas\<close>

lemma new_funding_fields [simp]:
  "fr_ID (new_funding uid now f) = uid" "fr_WalletID (new_funding uid now f) = fr_WalletID f"
  "fr_Asset (new_funding uid now f) = fr_Asset f" "fr_Amount (new_funding uid now f) = fr_Amount f"
  "fr_SourceVenue (new_funding uid now f) = fr_SourceVenue f"
  "fr_Status (new_funding uid now f) = (if fr_Status f = FundingUnset then FundingPending else fr_Status f)"
  by (simp_all add: new_funding_def Let_def)

lemma funding_status_fields [simp]:
  "fr_ID (funding_status now st r) = fr_ID r" "fr_Status (funding_status now st r) = st"
  "fr_Amount (funding_status now st r) = fr_Amount r" "fr_Asset (funding_status now st r) = fr_Asset r"
  "fr_WalletID (funding_status now st r) = fr_WalletID r"
  by (simp_all add: funding_status_def Let_def)

lemma new_job_fields [simp]:
  "rj_ID (new_job uid now j) = uid" "rj_Amount (new_job uid now j) = rj_Amount j"
  "rj_Asset (new_job uid now j) = rj_Asset j" "rj_ToRef (new_job uid now j) = rj_ToRef j"
  "rj_Status (new_job uid now j) = (if rj_Status j = RebalanceUnset then RebalancePending else rj_Status j)"
  by (simp_all add: new_job_def Let_def)

lemma job_status_fields [simp]:
  "rj_ID (job_status now st r) = rj_ID r" "rj_Status (job_status now st r) = st"
  "rj_Amount (job_status now st r) = rj_Amount r" "rj_Asset (job_status now st r) = rj_Asset r"
  by (simp_all add: job_status_def Let_def)

abbreviation funding_map :: "FundingTable \<Rightarrow> uuid \<Rightarrow> FundingRequest option" where
  "funding_map rows \<equiv> rowmap fr_ID rows"

abbreviation job_map :: "JobTable \<Rightarrow> uuid \<Rightarrow> RebalancingJob option" where
  "job_map rows \<equiv> rowmap rj_ID rows"

lemma mfu_CreateFunding_map:
  "uid \<notin> fr_ID ` set rows \<Longrightarrow>
   funding_map (snd (mfu_CreateFunding uid now f rows)) = (funding_map rows)(uid \<mapsto> new_funding uid now f)"
  by (simp add: mfu_CreateFunding_def rowmap_append)

lemma mfu_UpdateFundingStatus_map:
  "funding_map (snd (mfu_UpdateFundingStatus now uid st rows)) =
     (case funding_map rows uid of
        None \<Rightarrow> funding_map rows
      | Some r \<Rightarrow> (funding_map rows)(uid \<mapsto> funding_status now st r))"
  by (auto simp: mfu_UpdateFundingStatus_def rowmap_def [of fr_ID rows uid] rowmap_modify
      split: option.split)

lemma mfu_UpdateFundingStatus_result:
  "fst (mfu_UpdateFundingStatus now uid st rows) =
     (case funding_map rows uid of None \<Rightarrow> Inl ErrNotFound | Some r \<Rightarrow> Inr ())"
  by (auto simp: mfu_UpdateFundingStatus_def rowmap_def split: option.split)

lemma mrj_UpdateJobStatus_map:
  "job_map (snd (mrj_UpdateJobStatus now uid st rows)) =
     (case job_map rows uid of
        None \<Rightarrow> job_map rows
      | Some r \<Rightarrow> (job_map rows)(uid \<mapsto> job_status now st r))"
  by (auto simp: mrj_UpdateJobStatus_def rowmap_def [of rj_ID rows uid] rowmap_modify
      split: option.split)

lemma mfu_ListFunding_set:
  "set (mfu_ListFunding st rows) = {r \<in> set rows. st = [] \<or> FundingStatus_str (fr_Status r) = st}"
  by (auto simp: mfu_ListFunding_def)

section \<open>The contract of the funding interface\<close>

text \<open>
  \<open>fresh\<close> is the set of states in which the generator of identifiers has not run into one
  already used. \<open>later s t\<close> says that the requests of \<open>s\<close> are still there in \<open>t\<close>, with
  their identity: the identifier read through a returned pointer does not change.
\<close>

locale funding_store =
  fixes F :: "'s FundingStore" and fundings :: "'s \<Rightarrow> uuid \<Rightarrow> FundingRequest option"
    and fresh :: "'s \<Rightarrow> bool" and later :: "'s \<Rightarrow> 's \<Rightarrow> bool"
  assumes create_funding: "fresh s \<Longrightarrow>
      \<exists>p uid t. fst (CreateFunding F f s) = Inr p \<and> fundings s uid = None \<and>
        p (snd (CreateFunding F f s)) = new_funding uid t f \<and>
        (\<forall>s'. later (snd (CreateFunding F f s)) s' \<longrightarrow> fr_ID (p s') = uid) \<and>
        fundings (snd (CreateFunding F f s)) = (fundings s)(uid \<mapsto> new_funding uid t f)"
    and update_funding: "fundings s uid = Some r \<Longrightarrow>
      \<exists>t. fst (UpdateFundingStatus F uid st s) = Inr () \<and>
        fundings (snd (UpdateFundingStatus F uid st s)) = (fundings s)(uid \<mapsto> funding_status t st r)"
    and later_refl: "later s s"
    and later_trans: "later s t \<Longrightarrow> later t u \<Longrightarrow> later s u"

locale funding_slot = slot rt get put for rt :: "'s Rt" and get :: "'s \<Rightarrow> FundingTable" and put
begin

abbreviation keeps_ids :: "'s \<Rightarrow> 's \<Rightarrow> bool" where
  "keeps_ids s t \<equiv> prefix (map fr_ID (get s)) (map fr_ID (get t))"

lemma prefix_last_id:
  "prefix (map fr_ID (rows @ [r])) (map fr_ID rows') \<Longrightarrow> fr_ID (rows' ! length rows) = fr_ID r"
proof -
  assume "prefix (map fr_ID (rows @ [r])) (map fr_ID rows')"
  then obtain zs where "map fr_ID rows' = map fr_ID rows @ fr_ID r # zs"
    by (auto simp: prefix_def)
  then have "map fr_ID rows' ! length rows = fr_ID r" and "length (map fr_ID rows') = length rows + Suc (length zs)"
    by (simp_all add: nth_append)
  then show ?thesis by simp
qed

sublocale mem: funding_store "memFunding rt get put" "\<lambda>s. funding_map (get s)"
  "\<lambda>s. fst (NewV7 rt s) \<notin> fr_ID ` set (get s)" keeps_ids
proof
  fix s and f :: FundingRequest
  assume fresh: "fst (NewV7 rt s) \<notin> fr_ID ` set (get s)"
  then have "rowmap fr_ID (get s) (fst (NewV7 rt s)) = None" by (simp add: rowmap_None)
  moreover have "\<And>s' t. prefix (map fr_ID (get s) @ [fst (NewV7 rt s)]) (map fr_ID (get s')) \<Longrightarrow>
      fr_ID (get s' ! length (get s)) = fst (NewV7 rt s)"
    using prefix_last_id [of "get s" "new_funding (fst (NewV7 rt s)) 0 f"] by simp
  ultimately show "\<exists>p uid t. fst (CreateFunding (memFunding rt get put) f s) = Inr p \<and>
      funding_map (get s) uid = None \<and>
      p (snd (CreateFunding (memFunding rt get put) f s)) = new_funding uid t f \<and>
      (\<forall>s'. keeps_ids (snd (CreateFunding (memFunding rt get put) f s)) s' \<longrightarrow> fr_ID (p s') = uid) \<and>
      funding_map (get (snd (CreateFunding (memFunding rt get put) f s)))
        = (funding_map (get s))(uid \<mapsto> new_funding uid t f)"
    using fresh by (auto simp: memFunding_def case_prod_beta mfu_CreateFunding_def rowmap_append)
qed (auto simp: memFunding_def case_prod_beta mfu_UpdateFundingStatus_map mfu_UpdateFundingStatus_result)

end

end
