(* ===== verification/Mem_Float.thy ===== *)
theory Mem_Float
  imports Mem_Order
begin

text \<open>
  \<^verbatim>\<open>memstore.FloatStore\<close>: the float positions. A fill accumulates into the first
  unsettled row of its currency; settling a row marks it and leaves its amounts; the
  aggregate of a currency sums over all its rows, settled or not. \<open>AddFloat\<close> and
  \<open>SettleFloat\<close> return pointers into the table.
\<close>

section \<open>Operations\<close>

type_synonym FloatTable = "FloatPosition list"

definition isUnsettledIn :: "string \<Rightarrow> FloatPosition \<Rightarrow> bool" where
  "isUnsettledIn fiat r \<longleftrightarrow> fp_FiatCurrency r = fiat \<and> \<not> fp_Settled r"

definition accumulated :: "time \<Rightarrow> FloatPosition \<Rightarrow> FloatPosition \<Rightarrow> FloatPosition" where
  "accumulated now p r =
     (let r = r\<lparr>fp_ShortFiatAmount := fp_ShortFiatAmount r + fp_ShortFiatAmount p\<rparr>;
          r = r\<lparr>fp_LongCryptoAmount := fp_LongCryptoAmount r + fp_LongCryptoAmount p\<rparr>;
          r = (if fp_LongCryptoAsset p \<noteq> [] then r\<lparr>fp_LongCryptoAsset := fp_LongCryptoAsset p\<rparr> else r);
          r = (if \<not> IsZero (fp_SettlementDueAt p)
               then r\<lparr>fp_SettlementDueAt := fp_SettlementDueAt p\<rparr> else r)
      in r\<lparr>fp_UpdatedAt := now\<rparr>)"

definition mf_AddFloat ::
  "uuid \<Rightarrow> time \<Rightarrow> time \<Rightarrow> FloatPosition \<Rightarrow> FloatTable \<Rightarrow> FloatPosition rowptr \<times> FloatTable" where
  "mf_AddFloat uid now1 now2 p rows =
     (case first_ix (isUnsettledIn (fp_FiatCurrency p)) rows of
        Some i \<Rightarrow> (Alias i, rows[i := accumulated now1 p (rows ! i)])
      | None \<Rightarrow>
          let c = p\<lparr>fp_ID := uid\<rparr>;
              c = (if IsZero (fp_CreatedAt c) then c\<lparr>fp_CreatedAt := now1\<rparr> else c);
              c = c\<lparr>fp_UpdatedAt := now2\<rparr>
          in (Alias (length rows), rows @ [c]))"

definition blank_float :: "string \<Rightarrow> string \<Rightarrow> FloatPosition" where
  "blank_float fiat asset =
     \<lparr>fp_ID = [], fp_FiatCurrency = fiat, fp_ShortFiatAmount = 0, fp_LongCryptoAmount = 0,
      fp_LongCryptoAsset = asset, fp_SettlementDueAt = zero_time, fp_Settled = False,
      fp_BatchID = [], fp_CreatedAt = zero_time, fp_UpdatedAt = zero_time\<rparr>"

text \<open>The part of the two aggregation loops that adds the amounts and takes the later date.\<close>

definition added_to :: "FloatPosition \<Rightarrow> FloatPosition \<Rightarrow> FloatPosition" where
  "added_to agg r =
     (let agg = agg\<lparr>fp_ShortFiatAmount := fp_ShortFiatAmount agg + fp_ShortFiatAmount r\<rparr>;
          agg = agg\<lparr>fp_LongCryptoAmount := fp_LongCryptoAmount agg + fp_LongCryptoAmount r\<rparr>
      in if fp_SettlementDueAt r > fp_SettlementDueAt agg
         then agg\<lparr>fp_SettlementDueAt := fp_SettlementDueAt r\<rparr> else agg)"

fun getfloat_loop :: "string \<Rightarrow> FloatTable \<Rightarrow> FloatPosition option \<Rightarrow> FloatPosition option" where
  "getfloat_loop fiat [] agg = agg"
| "getfloat_loop fiat (r # rows) agg =
     (if fp_FiatCurrency r \<noteq> fiat then getfloat_loop fiat rows agg
      else
        let a = (case agg of None \<Rightarrow> blank_float fiat (fp_LongCryptoAsset r) | Some a \<Rightarrow> a)
        in getfloat_loop fiat rows (Some (added_to a r)))"

definition mf_GetFloat :: "string \<Rightarrow> FloatTable \<Rightarrow> FloatPosition" where
  "mf_GetFloat fiat rows =
     (case getfloat_loop fiat rows None of
        None \<Rightarrow> blank_float fiat []
      | Some agg \<Rightarrow> agg)"

fun listfloat_loop ::
  "FloatTable \<Rightarrow> (string \<rightharpoonup> FloatPosition) \<Rightarrow> string list
   \<Rightarrow> (string \<rightharpoonup> FloatPosition) \<times> string list" where
  "listfloat_loop [] byCcy order = (byCcy, order)"
| "listfloat_loop (r # rows) byCcy order =
     (let (agg, order1) = (case byCcy (fp_FiatCurrency r) of
             Some a \<Rightarrow> (a, order)
           | None \<Rightarrow> (blank_float (fp_FiatCurrency r) (fp_LongCryptoAsset r), order @ [fp_FiatCurrency r]));
          agg1 = added_to agg r;
          agg2 = (if fp_LongCryptoAsset r \<noteq> [] then agg1\<lparr>fp_LongCryptoAsset := fp_LongCryptoAsset r\<rparr> else agg1)
      in listfloat_loop rows (byCcy(fp_FiatCurrency r \<mapsto> agg2)) order1)"

definition mf_ListFloat :: "FloatTable \<Rightarrow> FloatPosition list" where
  "mf_ListFloat rows =
     (let (byCcy, order) = listfloat_loop rows Map.empty []
      in map (\<lambda>c. the (byCcy c)) (sort order))"

definition isMatured :: "time \<Rightarrow> FloatPosition \<Rightarrow> bool" where
  "isMatured before r \<longleftrightarrow>
     \<not> fp_Settled r \<and> \<not> IsZero (fp_SettlementDueAt r) \<and> \<not> fp_SettlementDueAt r > before"

definition mf_ListMaturedFloat :: "time \<Rightarrow> FloatTable \<Rightarrow> FloatPosition list" where
  "mf_ListMaturedFloat before rows = sort_key fp_ID (filter (isMatured before) rows)"

definition mf_SettleFloat ::
  "time \<Rightarrow> uuid \<Rightarrow> FloatTable \<Rightarrow> (error + FloatPosition rowptr) \<times> FloatTable" where
  "mf_SettleFloat now uid rows =
     (case first_ix (\<lambda>r. fp_ID r = uid) rows of
        Some i \<Rightarrow> (Inr (Alias i), rows[i := (rows ! i)\<lparr>fp_Settled := True, fp_UpdatedAt := now\<rparr>])
      | None \<Rightarrow> (Inl ErrNotFound, rows))"

definition memFloat :: "'s Rt \<Rightarrow> ('s \<Rightarrow> FloatTable) \<Rightarrow> (FloatTable \<Rightarrow> 's \<Rightarrow> 's) \<Rightarrow> 's FloatStore" where
  "memFloat rt get put = \<lparr>
     AddFloat = (\<lambda>p s.
       let (uid, s1) = NewV7 rt s; (now1, s2) = Now rt s1; (now2, s3) = Now rt s2;
           (q, rows) = mf_AddFloat uid now1 now2 p (get s3)
       in (Inr (\<lambda>s'. deref (get s') q), put rows s3)),
     GetFloat = (\<lambda>fiat s. (Inr (mf_GetFloat fiat (get s)), s)),
     ListFloat = (\<lambda>s. (Inr (mf_ListFloat (get s)), s)),
     ListMaturedFloat = (\<lambda>before s. (Inr (mf_ListMaturedFloat before (get s)), s)),
     SettleFloat = (\<lambda>uid s.
       let (now, s1) = Now rt s; (r, rows) = mf_SettleFloat now uid (get s1)
       in (map_sum (\<lambda>e. e) (\<lambda>q s'. deref (get s') q) r, put rows s1))\<rparr>"

section \<open>Aggregates as sums\<close>

definition in_ccy :: "string \<Rightarrow> FloatTable \<Rightarrow> FloatTable" where
  "in_ccy fiat rows = filter (\<lambda>r. fp_FiatCurrency r = fiat) rows"

definition short_of :: "string \<Rightarrow> FloatTable \<Rightarrow> decimal" where
  "short_of fiat rows = sum_list (map fp_ShortFiatAmount (in_ccy fiat rows))"

definition long_of :: "string \<Rightarrow> FloatTable \<Rightarrow> decimal" where
  "long_of fiat rows = sum_list (map fp_LongCryptoAmount (in_ccy fiat rows))"

definition due_of :: "string \<Rightarrow> FloatTable \<Rightarrow> time" where
  "due_of fiat rows = fold max (map fp_SettlementDueAt (in_ccy fiat rows)) 0"

lemma added_to_fields [simp]:
  "fp_ShortFiatAmount (added_to a r) = fp_ShortFiatAmount a + fp_ShortFiatAmount r"
  "fp_LongCryptoAmount (added_to a r) = fp_LongCryptoAmount a + fp_LongCryptoAmount r"
  "fp_SettlementDueAt (added_to a r) = max (fp_SettlementDueAt r) (fp_SettlementDueAt a)"
  "fp_FiatCurrency (added_to a r) = fp_FiatCurrency a"
  "fp_LongCryptoAsset (added_to a r) = fp_LongCryptoAsset a"
  by (simp_all add: added_to_def Let_def)

lemma blank_float_fields [simp]:
  "fp_ShortFiatAmount (blank_float f a) = 0" "fp_LongCryptoAmount (blank_float f a) = 0"
  "fp_SettlementDueAt (blank_float f a) = 0" "fp_FiatCurrency (blank_float f a) = f"
  "fp_LongCryptoAsset (blank_float f a) = a"
  by (simp_all add: blank_float_def)

lemma in_ccy_Nil [simp]: "in_ccy f [] = []"
  by (simp add: in_ccy_def)

lemma in_ccy_Cons [simp]: "in_ccy f (r # rows) = (if fp_FiatCurrency r = f then r # in_ccy f rows else in_ccy f rows)"
  by (simp add: in_ccy_def)

lemma in_ccy_append [simp]: "in_ccy f (xs @ ys) = in_ccy f xs @ in_ccy f ys"
  by (simp add: in_ccy_def)

text \<open>The amounts and the date that the rows of a currency accumulate to.\<close>

definition agg_rows :: "FloatPosition \<Rightarrow> FloatTable \<Rightarrow> FloatPosition" where
  "agg_rows a rs = fold (\<lambda>r b. added_to b r) rs a"

lemma agg_rows_fields:
  "fp_ShortFiatAmount (agg_rows a rs) = fp_ShortFiatAmount a + sum_list (map fp_ShortFiatAmount rs)"
  "fp_LongCryptoAmount (agg_rows a rs) = fp_LongCryptoAmount a + sum_list (map fp_LongCryptoAmount rs)"
  "fp_SettlementDueAt (agg_rows a rs) = fold max (map fp_SettlementDueAt rs) (fp_SettlementDueAt a)"
  "fp_FiatCurrency (agg_rows a rs) = fp_FiatCurrency a"
  by (induction rs arbitrary: a) (simp_all add: agg_rows_def)

lemma getfloat_loop_Some: "getfloat_loop fiat rows (Some a) = Some (agg_rows a (in_ccy fiat rows))"
  by (induction rows arbitrary: a) (simp_all add: agg_rows_def)

lemma getfloat_loop_None:
  "getfloat_loop fiat rows None =
     (case in_ccy fiat rows of [] \<Rightarrow> None
      | r # rs \<Rightarrow> Some (agg_rows (blank_float fiat (fp_LongCryptoAsset r)) (r # rs)))"
  by (induction rows) (simp_all add: getfloat_loop_Some agg_rows_def)

lemma mf_GetFloat_sums:
  "fp_ShortFiatAmount (mf_GetFloat fiat rows) = short_of fiat rows"
  "fp_LongCryptoAmount (mf_GetFloat fiat rows) = long_of fiat rows"
  "fp_SettlementDueAt (mf_GetFloat fiat rows) = due_of fiat rows"
  "fp_FiatCurrency (mf_GetFloat fiat rows) = fiat"
  by (simp_all add: mf_GetFloat_def getfloat_loop_None agg_rows_fields short_of_def long_of_def
      due_of_def split: list.split)

section \<open>Effect of the operations on the sums\<close>

lemma sum_list_in_ccy_update:
  fixes g :: "FloatPosition \<Rightarrow> decimal"
  shows "i < length rows \<Longrightarrow> fp_FiatCurrency r = fp_FiatCurrency (rows ! i) \<Longrightarrow>
    sum_list (map g (in_ccy f (rows[i := r]))) =
    sum_list (map g (in_ccy f rows)) + (if fp_FiatCurrency r = f then g r - g (rows ! i) else 0)"
  by (induction rows arbitrary: i) (auto split: nat.splits)

lemma accumulated_fields [simp]:
  "fp_ShortFiatAmount (accumulated now p r) = fp_ShortFiatAmount r + fp_ShortFiatAmount p"
  "fp_LongCryptoAmount (accumulated now p r) = fp_LongCryptoAmount r + fp_LongCryptoAmount p"
  "fp_FiatCurrency (accumulated now p r) = fp_FiatCurrency r"
  "fp_Settled (accumulated now p r) = fp_Settled r"
  "fp_ID (accumulated now p r) = fp_ID r"
  by (simp_all add: accumulated_def Let_def)

text \<open>A fill adds exactly its amounts to its currency and nothing to any other.\<close>

lemma mf_AddFloat_short:
  "short_of f (snd (mf_AddFloat uid n1 n2 p rows)) =
     short_of f rows + (if fp_FiatCurrency p = f then fp_ShortFiatAmount p else 0)"
  by (auto simp: mf_AddFloat_def short_of_def isUnsettledIn_def sum_list_in_ccy_update Let_def
      split: option.split dest!: first_ix_SomeD)

lemma mf_AddFloat_long:
  "long_of f (snd (mf_AddFloat uid n1 n2 p rows)) =
     long_of f rows + (if fp_FiatCurrency p = f then fp_LongCryptoAmount p else 0)"
  by (auto simp: mf_AddFloat_def long_of_def isUnsettledIn_def sum_list_in_ccy_update Let_def
      split: option.split dest!: first_ix_SomeD)

text \<open>Settling a position leaves every aggregate amount as it was.\<close>

lemma mf_SettleFloat_short: "short_of f (snd (mf_SettleFloat now uid rows)) = short_of f rows"
  by (auto simp: mf_SettleFloat_def short_of_def sum_list_in_ccy_update
      split: option.split dest!: first_ix_SomeD)

lemma mf_SettleFloat_long: "long_of f (snd (mf_SettleFloat now uid rows)) = long_of f rows"
  by (auto simp: mf_SettleFloat_def long_of_def sum_list_in_ccy_update
      split: option.split dest!: first_ix_SomeD)

section \<open>The table invariant\<close>

text \<open>Identifiers are distinct and a currency has at most one unsettled position.\<close>

definition float_inv :: "FloatTable \<Rightarrow> bool" where
  "float_inv rows \<longleftrightarrow>
     distinct (map fp_ID rows) \<and> distinct (map fp_FiatCurrency (filter (\<lambda>r. \<not> fp_Settled r) rows))"

lemma float_inv_Nil [simp]: "float_inv []"
  by (simp add: float_inv_def)

lemma map_filter_update_same:
  "i < length xs \<Longrightarrow> P y = P (xs ! i) \<Longrightarrow> f y = f (xs ! i) \<Longrightarrow>
   map f (filter P (xs[i := y])) = map f (filter P xs)"
  by (induction xs arbitrary: i) (auto split: nat.splits)

lemma distinct_filter_shrink:
  assumes "i < length xs" and "\<not> P y" and "distinct (map f (filter P xs))"
  shows "distinct (map f (filter P (xs[i := y])))"
proof -
  have "filter P xs = filter P (take i xs @ xs ! i # drop (Suc i) xs)"
    using assms(1) by (simp add: id_take_nth_drop [symmetric])
  with assms(3) have "distinct (map f (filter P (take i xs @ drop (Suc i) xs)))"
    by (auto split: if_splits)
  with assms(1,2) show ?thesis by (simp add: upd_conv_take_nth_drop)
qed

lemma float_inv_add:
  assumes "float_inv rows" and "uid \<notin> fp_ID ` set rows"
  shows "float_inv (snd (mf_AddFloat uid n1 n2 p rows))"
  using assms
  by (auto simp: float_inv_def mf_AddFloat_def isUnsettledIn_def first_ix_None Let_def
      keys_update map_filter_update_same split: option.split dest!: first_ix_SomeD)

lemma float_inv_settle: "float_inv rows \<Longrightarrow> float_inv (snd (mf_SettleFloat now uid rows))"
  by (auto simp: float_inv_def mf_SettleFloat_def keys_update distinct_filter_shrink
      split: option.split dest!: first_ix_SomeD)

lemma mf_ListMaturedFloat_set:
  "set (mf_ListMaturedFloat before rows) = {r \<in> set rows. isMatured before r}"
  by (auto simp: mf_ListMaturedFloat_def)

section \<open>The contract of the interface\<close>

text \<open>
  \<open>short s c\<close> and \<open>long s c\<close> are the amounts of a currency \<open>c\<close>. A fill adds to both; reading
  a currency returns both.
\<close>

locale float_store =
  fixes F :: "'s FloatStore" and short :: "'s \<Rightarrow> string \<Rightarrow> decimal" and long :: "'s \<Rightarrow> string \<Rightarrow> decimal"
  assumes add_ok: "\<exists>q. fst (AddFloat F p s) = Inr q"
    and add_short: "short (snd (AddFloat F p s)) c =
      short s c + (if fp_FiatCurrency p = c then fp_ShortFiatAmount p else 0)"
    and add_long: "long (snd (AddFloat F p s)) c =
      long s c + (if fp_FiatCurrency p = c then fp_LongCryptoAmount p else 0)"
    and get_amounts: "\<exists>q. fst (GetFloat F c s) = Inr q \<and> fp_ShortFiatAmount q = short s c \<and>
      fp_LongCryptoAmount q = long s c \<and> fp_FiatCurrency q = c"
    and get_float_frame: "short (snd (GetFloat F c s)) = short s" "long (snd (GetFloat F c s)) = long s"

locale float_slot = slot rt get put for rt :: "'s Rt" and get :: "'s \<Rightarrow> FloatTable" and put
begin

sublocale mem: float_store "memFloat rt get put" "\<lambda>s c. short_of c (get s)" "\<lambda>s c. long_of c (get s)"
  by unfold_locales
     (simp_all add: memFloat_def case_prod_beta mf_AddFloat_short mf_AddFloat_long mf_GetFloat_sums)

end

section \<open>Sweeping\<close>

text \<open>Settling a row leaves every other row, and no settled row is matured.\<close>

lemma mf_SettleFloat_matured:
  assumes "distinct (map fp_ID rows)"
  shows "filter (isMatured t) (snd (mf_SettleFloat now uid rows)) =
    filter (\<lambda>r. isMatured t r \<and> fp_ID r \<noteq> uid) rows"
  using assms
proof (induction rows)
  case Nil
  then show ?case by (simp add: mf_SettleFloat_def)
next
  case (Cons r rows)
  show ?case
  proof (cases "fp_ID r = uid")
    case True
    with Cons.prems have "\<forall>x \<in> set rows. fp_ID x \<noteq> uid" by (auto simp: image_iff)
    then have "filter (\<lambda>r. isMatured t r \<and> fp_ID r \<noteq> uid) rows = filter (isMatured t) rows"
      by (auto intro: filter_cong)
    moreover have "\<not> isMatured t (r\<lparr>fp_Settled := True, fp_UpdatedAt := now\<rparr>)" by (simp add: isMatured_def)
    ultimately show ?thesis using True by (simp add: mf_SettleFloat_def)
  next
    case False
    with Cons show ?thesis by (auto simp: mf_SettleFloat_def split: option.splits)
  qed
qed

lemma mf_SettleFloat_ids: "map fp_ID (snd (mf_SettleFloat now uid rows)) = map fp_ID rows"
  by (auto simp: mf_SettleFloat_def keys_update split: option.split dest!: first_ix_SomeD)

lemma mf_SettleFloat_known: "uid \<in> fp_ID ` set rows \<Longrightarrow> \<exists>p. fst (mf_SettleFloat now uid rows) = Inr p"
  by (auto simp: mf_SettleFloat_def first_ix_None split: option.split)

end
