(* ===== verification/Mem_Outbox.thy ===== *)
theory Mem_Outbox
  imports Idempotency
begin

text \<open>
  \<^verbatim>\<open>memstore.OutboxStore\<close>: the outbox, deduplicated by key, in append order. An entry is
  pending while its emission instant is zero. The contract \<open>outbox_store\<close> is what the emitter
  relies on.
\<close>

section \<open>Operations\<close>

record OutboxTable =
  ot_rows :: "OutboxEntry list"
  ot_seen :: "string \<Rightarrow> bool"

definition NewOutboxStore :: OutboxTable where
  "NewOutboxStore = \<lparr>ot_rows = [], ot_seen = (\<lambda>_. False)\<rparr>"

definition stamped_entry :: "uuid \<Rightarrow> time \<Rightarrow> OutboxEntry \<Rightarrow> OutboxEntry" where
  "stamped_entry uid now e =
     (let c = e\<lparr>oe_ID := uid\<rparr>
      in if IsZero (oe_CreatedAt c) then c\<lparr>oe_CreatedAt := now\<rparr> else c)"

definition ob_Append :: "uuid \<Rightarrow> time \<Rightarrow> OutboxEntry \<Rightarrow> OutboxTable \<Rightarrow> bool \<times> OutboxTable" where
  "ob_Append uid now e s =
     (if ot_seen s (oe_DedupKey e) then (False, s)
      else
        let s1 = s\<lparr>ot_seen := (ot_seen s)(oe_DedupKey e := True)\<rparr>
        in (True, s1\<lparr>ot_rows := ot_rows s1 @ [stamped_entry uid now e]\<rparr>))"

fun ob_pending_loop :: "OutboxEntry list \<Rightarrow> int \<Rightarrow> OutboxEntry list \<Rightarrow> OutboxEntry list" where
  "ob_pending_loop [] limit out = out"
| "ob_pending_loop (r # rows) limit out =
     (if IsZero (oe_EmittedAt r)
      then (let out = out @ [r]
            in if int (length out) \<ge> limit then out else ob_pending_loop rows limit out)
      else ob_pending_loop rows limit out)"

definition ob_ListPending :: "int \<Rightarrow> OutboxTable \<Rightarrow> OutboxEntry list" where
  "ob_ListPending limit s = ob_pending_loop (ot_rows s) limit []"

definition ob_MarkEmitted :: "time \<Rightarrow> uuid \<Rightarrow> OutboxTable \<Rightarrow> (error + unit) \<times> OutboxTable" where
  "ob_MarkEmitted now uid s =
     (case first_ix (\<lambda>r. oe_ID r = uid) (ot_rows s) of
        Some i \<Rightarrow> (Inr (), s\<lparr>ot_rows := (ot_rows s)[i := (ot_rows s ! i)\<lparr>oe_EmittedAt := now\<rparr>]\<rparr>)
      | None \<Rightarrow> (Inl ErrNotFound, s))"

definition ob_Snapshot :: "OutboxTable \<Rightarrow> OutboxEntry list" where
  "ob_Snapshot s = ot_rows s"

definition memOutbox ::
  "'s Rt \<Rightarrow> ('s \<Rightarrow> OutboxTable) \<Rightarrow> (OutboxTable \<Rightarrow> 's \<Rightarrow> 's) \<Rightarrow> 's OutboxStore" where
  "memOutbox rt get put = \<lparr>
     Append = (\<lambda>e s.
       let (uid, s1) = NewV7 rt s; (now, s2) = Now rt s1; (ok, t) = ob_Append uid now e (get s2)
       in (Inr ok, put t s2)),
     ListPending = (\<lambda>limit s. (Inr (ob_ListPending limit (get s)), s)),
     MarkEmitted = (\<lambda>uid s.
       let (now, s1) = Now rt s; (r, t) = ob_MarkEmitted now uid (get s1) in (r, put t s1))\<rparr>"

section \<open>Pending entries\<close>

abbreviation is_pending :: "OutboxEntry \<Rightarrow> bool" where
  "is_pending e \<equiv> IsZero (oe_EmittedAt e)"

lemma ob_pending_loop_eq:
  "int (length out) < limit \<Longrightarrow>
   ob_pending_loop rows limit out = out @ take (nat limit - length out) (filter is_pending rows)"
proof (induction rows limit out rule: ob_pending_loop.induct)
  case (1 limit out)
  then show ?case by simp
next
  case (2 r rows limit out)
  show ?case
  proof (cases "is_pending r")
    case False
    with 2 show ?thesis by simp
  next
    case True
    then have split: "nat limit - length out = Suc (nat limit - Suc (length out))"
      using "2.prems" by linarith
    show ?thesis
    proof (cases "int (length (out @ [r])) \<ge> limit")
      case True
      with "2.prems" have "nat limit - length out = 1" by simp
      with True \<open>is_pending r\<close> show ?thesis by simp
    next
      case False
      with "2.IH"(1) [OF \<open>is_pending r\<close> refl] \<open>is_pending r\<close> split show ?thesis by simp
    qed
  qed
qed

lemma ob_ListPending_eq:
  "0 < limit \<Longrightarrow> ob_ListPending limit s = take (nat limit) (filter is_pending (ot_rows s))"
  by (simp add: ob_ListPending_def ob_pending_loop_eq)

text \<open>With a limit below one the loop still returns the first pending entry.\<close>

lemma ob_ListPending_nonpos:
  "limit \<le> 0 \<Longrightarrow> ob_ListPending limit s = take 1 (filter is_pending (ot_rows s))"
proof -
  assume "limit \<le> 0"
  then have "ob_pending_loop rows limit [] = take 1 (filter is_pending rows)" for rows
    by (induction rows) simp_all
  then show ?thesis by (simp add: ob_ListPending_def)
qed

section \<open>The table invariant\<close>

definition outbox_inv :: "OutboxTable \<Rightarrow> bool" where
  "outbox_inv s \<longleftrightarrow>
     distinct (map oe_ID (ot_rows s)) \<and> distinct (map oe_DedupKey (ot_rows s)) \<and>
     (\<forall>k. ot_seen s k \<longleftrightarrow> k \<in> oe_DedupKey ` set (ot_rows s))"

lemma outbox_inv_new [simp]: "outbox_inv NewOutboxStore"
  by (simp add: outbox_inv_def NewOutboxStore_def)

lemma stamped_entry_fields [simp]:
  "oe_ID (stamped_entry uid now e) = uid" "oe_DedupKey (stamped_entry uid now e) = oe_DedupKey e"
  "oe_Payload (stamped_entry uid now e) = oe_Payload e"
  "oe_Aggregate (stamped_entry uid now e) = oe_Aggregate e"
  "oe_EventType (stamped_entry uid now e) = oe_EventType e"
  "oe_EmittedAt (stamped_entry uid now e) = oe_EmittedAt e"
  by (simp_all add: stamped_entry_def Let_def)

lemma outbox_inv_append:
  "outbox_inv s \<Longrightarrow> uid \<notin> oe_ID ` set (ot_rows s) \<Longrightarrow> outbox_inv (snd (ob_Append uid now e s))"
  by (auto simp: outbox_inv_def ob_Append_def Let_def)

lemma dedup_keys_mark: "map oe_DedupKey (ot_rows (snd (ob_MarkEmitted now uid s))) = map oe_DedupKey (ot_rows s)"
  by (auto simp: ob_MarkEmitted_def keys_update split: option.split dest: first_ix_SomeD)

lemma outbox_inv_mark: "outbox_inv s \<Longrightarrow> outbox_inv (snd (ob_MarkEmitted now uid s))"
  using dedup_keys_mark [of now uid s]
  by (auto simp: outbox_inv_def ob_MarkEmitted_def keys_update simp flip: set_map
      split: option.splits dest!: first_ix_SomeD)

lemma mark_removes_pending:
  assumes "distinct (map oe_ID (ot_rows s))" and "now \<noteq> 0"
  shows "filter is_pending (ot_rows (snd (ob_MarkEmitted now uid s))) =
           filter (\<lambda>e. is_pending e \<and> oe_ID e \<noteq> uid) (ot_rows s)"
proof -
  have "distinct (map oe_ID rows) \<Longrightarrow>
      (case first_ix (\<lambda>r. oe_ID r = uid) rows of
         Some i \<Rightarrow> filter is_pending (rows[i := (rows ! i)\<lparr>oe_EmittedAt := now\<rparr>])
       | None \<Rightarrow> filter is_pending rows) = filter (\<lambda>e. is_pending e \<and> oe_ID e \<noteq> uid) rows" for rows
  proof (induction rows)
    case Nil
    then show ?case by simp
  next
    case (Cons r rows)
    show ?case
    proof (cases "oe_ID r = uid")
      case True
      with Cons.prems have "\<forall>e \<in> set rows. oe_ID e \<noteq> uid" by (auto simp: image_iff)
      then have "filter (\<lambda>e. is_pending e \<and> oe_ID e \<noteq> uid) rows = filter is_pending rows"
        by (auto intro: filter_cong)
      with True assms(2) show ?thesis by (simp add: IsZero_def)
    next
      case False
      with Cons show ?thesis by (auto split: option.splits)
    qed
  qed
  from this [of "ot_rows s"] assms(1) show ?thesis
    by (auto simp: ob_MarkEmitted_def split: option.splits)
qed

section \<open>The contract of the interface\<close>

text \<open>
  \<open>entries s\<close> are the entries in append order, \<open>owf\<close> the consistent states (the next
  identifier is unused and the clock is past the zero instant).
\<close>

locale outbox_store =
  fixes Ob :: "'s OutboxStore" and entries :: "'s \<Rightarrow> OutboxEntry list" and owf :: "'s \<Rightarrow> bool"
  assumes append_dup: "owf s \<Longrightarrow> oe_DedupKey e \<in> oe_DedupKey ` set (entries s) \<Longrightarrow>
      fst (Append Ob e s) = Inr False \<and> entries (snd (Append Ob e s)) = entries s"
    and append_new: "owf s \<Longrightarrow> oe_DedupKey e \<notin> oe_DedupKey ` set (entries s) \<Longrightarrow>
      fst (Append Ob e s) = Inr True \<and>
      (\<exists>uid t. entries (snd (Append Ob e s)) = entries s @ [stamped_entry uid t e])"
    and pending_result: "owf s \<Longrightarrow> 0 < limit \<Longrightarrow>
      fst (ListPending Ob limit s) = Inr (take (nat limit) (filter is_pending (entries s)))"
    and pending_frame: "entries (snd (ListPending Ob limit s)) = entries s" "owf (snd (ListPending Ob limit s)) = owf s"
    and mark_known: "owf s \<Longrightarrow> e \<in> set (entries s) \<Longrightarrow> fst (MarkEmitted Ob (oe_ID e) s) = Inr ()"
    and mark_pending: "owf s \<Longrightarrow> filter is_pending (entries (snd (MarkEmitted Ob uid s))) =
      filter (\<lambda>e. is_pending e \<and> oe_ID e \<noteq> uid) (entries s)"
    and mark_keys: "map oe_DedupKey (entries (snd (MarkEmitted Ob uid s))) = map oe_DedupKey (entries s)"
    and entry_ids: "owf s \<Longrightarrow> distinct (map oe_ID (entries s))"
begin

text \<open>Appending the same logical event again changes nothing.\<close>

lemma append_replay:
  assumes "owf s" and "owf (snd (Append Ob e s))" and "oe_DedupKey e' = oe_DedupKey e"
  shows "fst (Append Ob e' (snd (Append Ob e s))) = Inr False \<and>
    entries (snd (Append Ob e' (snd (Append Ob e s)))) = entries (snd (Append Ob e s))"
proof -
  have "oe_DedupKey e \<in> oe_DedupKey ` set (entries (snd (Append Ob e s)))"
    using append_dup [OF assms(1), of e] append_new [OF assms(1), of e]
    by (cases "oe_DedupKey e \<in> oe_DedupKey ` set (entries s)") auto
  with append_dup [OF assms(2), of e'] assms(3) show ?thesis by simp
qed

end

locale outbox_slot = slot rt get put for rt :: "'s Rt" and get :: "'s \<Rightarrow> OutboxTable" and put
begin

abbreviation outbox_ready :: "'s \<Rightarrow> bool" where
  "outbox_ready s \<equiv> outbox_inv (get s) \<and> fst (NewV7 rt s) \<notin> oe_ID ` set (ot_rows (get s)) \<and> fst (Now rt s) \<noteq> 0"

sublocale mem: outbox_store "memOutbox rt get put" "\<lambda>s. ot_rows (get s)" outbox_ready
proof
  fix s and e :: OutboxEntry and uid
  show "outbox_ready s \<Longrightarrow> oe_DedupKey e \<notin> oe_DedupKey ` set (ot_rows (get s)) \<Longrightarrow>
      fst (Append (memOutbox rt get put) e s) = Inr True \<and>
      (\<exists>uid t. ot_rows (get (snd (Append (memOutbox rt get put) e s)))
         = ot_rows (get s) @ [stamped_entry uid t e])"
    by (auto simp: memOutbox_def case_prod_beta ob_Append_def outbox_inv_def)
  show "outbox_ready s \<Longrightarrow> e \<in> set (ot_rows (get s)) \<Longrightarrow>
      fst (MarkEmitted (memOutbox rt get put) (oe_ID e) s) = Inr ()"
    by (auto simp: memOutbox_def case_prod_beta ob_MarkEmitted_def first_ix_None split: option.split)
  show "outbox_ready s \<Longrightarrow>
      filter is_pending (ot_rows (get (snd (MarkEmitted (memOutbox rt get put) uid s)))) =
      filter (\<lambda>e. is_pending e \<and> oe_ID e \<noteq> uid) (ot_rows (get s))"
    by (simp add: memOutbox_def case_prod_beta mark_removes_pending outbox_inv_def)
  show "map oe_DedupKey (ot_rows (get (snd (MarkEmitted (memOutbox rt get put) uid s)))) =
      map oe_DedupKey (ot_rows (get s))"
    by (simp add: memOutbox_def case_prod_beta dedup_keys_mark)
qed (auto simp: memOutbox_def case_prod_beta ob_Append_def ob_ListPending_eq outbox_inv_def)

end

end
