(* ===== verification/Projection.thy ===== *)
theory Projection
  imports Store
begin

text \<open>
  \<^verbatim>\<open>internal/projection/projection.go\<close>: the rolling demand projection. A sample is kept
  while it is younger than the window; the projected demand of an asset is the sum of the
  samples kept. \<open>Decimal.Div\<close> and \<open>Duration.Seconds\<close> are parameters of the velocity.

  The specification is the whole history of observations: with observations in time order,
  eviction never loses a sample that a later query counts (\<open>demand_of_history\<close>).
\<close>

section \<open>State and operations\<close>

record sample =
  sm_at :: time
  sm_notional :: decimal

text \<open>A key absent from the Go map reads as the empty slice, which is what the map holds here.\<close>

record Model =
  md_window :: duration
  md_samples :: "string \<Rightarrow> sample list"

definition NewModel :: "duration \<Rightarrow> Model" where
  "NewModel window = \<lparr>md_window = window, md_samples = (\<lambda>_. [])\<rparr>"

definition evictLocked :: "string \<Rightarrow> time \<Rightarrow> Model \<Rightarrow> Model" where
  "evictLocked asset now m =
     (let cutoff = now - md_window m;
          kept = filter (\<lambda>s. sm_at s > cutoff) (md_samples m asset)
      in m\<lparr>md_samples := (md_samples m)(asset := kept)\<rparr>)"

definition ObserveSample :: "time \<Rightarrow> string \<Rightarrow> decimal \<Rightarrow> time \<Rightarrow> Model \<Rightarrow> Model" where
  "ObserveSample now asset notional t_at m =
     (let t = (if IsZero t_at then now else t_at);
          m1 = m\<lparr>md_samples := (md_samples m)(asset :=
                  md_samples m asset @ [\<lparr>sm_at = t, sm_notional = notional\<rparr>])\<rparr>
      in evictLocked asset t m1)"

fun sum_samples :: "sample list \<Rightarrow> decimal \<Rightarrow> decimal" where
  "sum_samples [] acc = acc"
| "sum_samples (s # ss) acc = sum_samples ss (acc + sm_notional s)"

definition ProjectedDemand :: "time \<Rightarrow> string \<Rightarrow> Model \<Rightarrow> decimal \<times> Model" where
  "ProjectedDemand now asset m =
     (let m1 = evictLocked asset now m in (sum_samples (md_samples m1 asset) 0, m1))"

definition VelocityPerSecond ::
  "(decimal \<Rightarrow> decimal \<Rightarrow> decimal) \<Rightarrow> (float64 \<Rightarrow> decimal) \<Rightarrow> (duration \<Rightarrow> float64)
   \<Rightarrow> time \<Rightarrow> string \<Rightarrow> Model \<Rightarrow> decimal \<times> Model" where
  "VelocityPerSecond div_dec dec seconds now asset m =
     (let m1 = evictLocked asset now m; sum = sum_samples (md_samples m1 asset) 0
      in if md_window m1 \<le> 0 then (0, m1)
         else (div_dec sum (dec (seconds (md_window m1))), m1))"

section \<open>Lemmas\<close>

lemma sum_samples_eq: "sum_samples ss acc = acc + sum_list (map sm_notional ss)"
  by (induction ss acc rule: sum_samples.induct) simp_all

lemma evict_window [simp]: "md_window (evictLocked a now m) = md_window m"
  by (simp add: evictLocked_def Let_def)

lemma evict_other: "a' \<noteq> a \<Longrightarrow> md_samples (evictLocked a now m) a' = md_samples m a'"
  by (simp add: evictLocked_def Let_def)

lemma evict_samples:
  "md_samples (evictLocked a now m) a = filter (\<lambda>s. sm_at s > now - md_window m) (md_samples m a)"
  by (simp add: evictLocked_def Let_def)

lemma filter_cutoff:
  "t \<le> now \<Longrightarrow> filter (\<lambda>x. t - w < sm_at x \<and> now - w < sm_at x) ss = filter (\<lambda>x. now - w < sm_at x) ss"
  by (rule filter_cong) auto

text \<open>Evicting later subsumes evicting earlier.\<close>

lemma evict_evict:
  "t \<le> now \<Longrightarrow> evictLocked a now (evictLocked a t m) = evictLocked a now m"
  by (simp add: evictLocked_def Let_def filter_cutoff)

lemma evict_idem [simp]: "evictLocked a now (evictLocked a now m) = evictLocked a now m"
  by (simp add: evict_evict)

lemma ProjectedDemand_fst:
  "fst (ProjectedDemand now a m) =
     sum_list (map sm_notional (filter (\<lambda>s. sm_at s > now - md_window m) (md_samples m a)))"
  by (simp add: ProjectedDemand_def sum_samples_eq evict_samples Let_def)

text \<open>Querying twice at the same instant gives the same answer and changes nothing more.\<close>

lemma ProjectedDemand_repeat:
  "ProjectedDemand now a (snd (ProjectedDemand now a m)) = ProjectedDemand now a m"
  by (simp add: ProjectedDemand_def Let_def)

section \<open>The specification: the history of observations\<close>

type_synonym observation = "string \<times> decimal \<times> time"

definition observe_all :: "observation list \<Rightarrow> Model \<Rightarrow> Model" where
  "observe_all obs m = fold (\<lambda>(a, n, t). ObserveSample t a n t) obs m"

definition demand_of_history :: "duration \<Rightarrow> observation list \<Rightarrow> string \<Rightarrow> time \<Rightarrow> decimal" where
  "demand_of_history window obs asset now =
     sum_list (map (\<lambda>(a, n, t). n) (filter (\<lambda>(a, n, t). a = asset \<and> t > now - window) obs))"

lemma observe_window [simp]: "md_window (ObserveSample now a n t m) = md_window m"
  by (simp add: ObserveSample_def Let_def)

lemma observe_all_window [simp]: "md_window (observe_all obs m) = md_window m"
  by (induction obs arbitrary: m) (auto simp: observe_all_def)

lemma observe_evict:
  assumes "t \<le> now" and "t \<noteq> 0"
  shows "filter (\<lambda>s. sm_at s > now - md_window m) (md_samples (ObserveSample t a n t m) b) =
    filter (\<lambda>s. sm_at s > now - md_window m) (md_samples m b) @
      (if a = b \<and> t > now - md_window m then [\<lparr>sm_at = t, sm_notional = n\<rparr>] else [])"
  using assms by (auto simp: ObserveSample_def IsZero_def evictLocked_def Let_def filter_cutoff)

lemma observe_all_samples:
  assumes "\<forall>(a, n, t) \<in> set obs. t \<le> now \<and> t \<noteq> 0"
  shows "filter (\<lambda>s. sm_at s > now - md_window m) (md_samples (observe_all obs m) b) =
    filter (\<lambda>s. sm_at s > now - md_window m) (md_samples m b) @
    map (\<lambda>(a, n, t). \<lparr>sm_at = t, sm_notional = n\<rparr>)
      (filter (\<lambda>(a, n, t). a = b \<and> t > now - md_window m) obs)"
  using assms
proof (induction obs arbitrary: m)
  case Nil
  then show ?case by (simp add: observe_all_def)
next
  case (Cons ob obs)
  obtain a n t where ob: "ob = (a, n, t)" by (cases ob) auto
  have step: "observe_all ((a, n, t) # obs) m = observe_all obs (ObserveSample t a n t m)"
    by (simp add: observe_all_def)
  from Cons.IH [of "ObserveSample t a n t m"] Cons.prems
  show ?case
    by (simp add: ob step observe_evict)
qed

lemma sum_list_history:
  "sum_list (map (sm_notional \<circ> (\<lambda>(a, n, t). \<lparr>sm_at = t, sm_notional = n\<rparr>)) xs) =
   sum_list (map (\<lambda>(a, n, t). n) xs)"
  by (induction xs) auto

lemma projected_demand_history:
  assumes "\<forall>(a, n, t) \<in> set obs. t \<le> now \<and> t \<noteq> 0"
  shows "fst (ProjectedDemand now a (observe_all obs (NewModel window))) = demand_of_history window obs a now"
  using observe_all_samples [OF assms, of "NewModel window" a]
  by (simp add: ProjectedDemand_fst demand_of_history_def NewModel_def sum_list_history)

end
