(* ===== verification/World.thy ===== *)
theory World
  imports Mem_Batch Mem_Member Mem_Order Mem_Funding Mem_Float Mem_Outbox Projection
begin

text \<open>
  The state of the service in its in-memory mode (\<^verbatim>\<open>memstore.NewAll\<close> with the
  in-memory key store): one field per store, the demand model, the metric updates made so
  far, the clock and the generator of identifiers, and \<open>w_ext\<close>, the state of everything
  outside the service (the downstream services, with their clients and circuit breakers).

  The clock and the generator are sequences: the \<open>n\<close>-th reading of \<open>time.Now\<close> is
  \<open>w_clock w n\<close>, the \<open>n\<close>-th identifier is \<open>w_ids w n\<close>. Each store is a slot of the
  state, so each interpretation below gives the store's contract on the state.
\<close>

section \<open>The state\<close>

record 'x world =
  w_clock :: "nat \<Rightarrow> time"
  w_reads :: nat
  w_ids :: "nat \<Rightarrow> uuid"
  w_idn :: nat
  w_metrics :: "metric list"
  w_idem :: MemStore
  w_batch :: BatchTable
  w_member :: MemberTable
  w_order :: OrderTable
  w_funding :: FundingTable
  w_float :: FloatTable
  w_rebalance :: JobTable
  w_outbox :: OutboxTable
  w_proj :: Model
  w_ext :: 'x

definition world_rt :: "(float64 \<Rightarrow> decimal) \<Rightarrow> 'x world Rt" where
  "world_rt dec = \<lparr>
     Now = (\<lambda>w. (w_clock w (w_reads w), w\<lparr>w_reads := Suc (w_reads w)\<rparr>)),
     NewV7 = (\<lambda>w. (w_ids w (w_idn w), w\<lparr>w_idn := Suc (w_idn w)\<rparr>)),
     NewFromFloat = dec,
     Metric = (\<lambda>x w. w\<lparr>w_metrics := w_metrics w @ [x]\<rparr>)\<rparr>"

definition NewAll :: "(nat \<Rightarrow> time) \<Rightarrow> (nat \<Rightarrow> uuid) \<Rightarrow> 'x \<Rightarrow> 'x world" where
  "NewAll clock ids ext = \<lparr>
     w_clock = clock, w_reads = 0, w_ids = ids, w_idn = 0, w_metrics = [],
     w_idem = NewMem, w_batch = [], w_member = NewMembershipStore, w_order = [], w_funding = [],
     w_float = [], w_rebalance = [], w_outbox = NewOutboxStore, w_proj = NewModel (5 * minute),
     w_ext = ext\<rparr>"

abbreviation put_idem where "put_idem t \<equiv> w_idem_update (\<lambda>_. t)"
abbreviation put_batch where "put_batch t \<equiv> w_batch_update (\<lambda>_. t)"
abbreviation put_member where "put_member t \<equiv> w_member_update (\<lambda>_. t)"
abbreviation put_order where "put_order t \<equiv> w_order_update (\<lambda>_. t)"
abbreviation put_funding where "put_funding t \<equiv> w_funding_update (\<lambda>_. t)"
abbreviation put_float where "put_float t \<equiv> w_float_update (\<lambda>_. t)"
abbreviation put_rebalance where "put_rebalance t \<equiv> w_rebalance_update (\<lambda>_. t)"
abbreviation put_outbox where "put_outbox t \<equiv> w_outbox_update (\<lambda>_. t)"

abbreviation W_idem :: "(float64 \<Rightarrow> decimal) \<Rightarrow> 'x world IdemStore" where
  "W_idem dec \<equiv> memIdem (world_rt dec) w_idem put_idem"
abbreviation W_batch :: "(float64 \<Rightarrow> decimal) \<Rightarrow> 'x world BatchStore" where
  "W_batch dec \<equiv> memBatch (world_rt dec) w_batch put_batch"
abbreviation W_member :: "(float64 \<Rightarrow> decimal) \<Rightarrow> 'x world MembershipStore" where
  "W_member dec \<equiv> memMember (world_rt dec) w_member put_member"
abbreviation W_order :: "(float64 \<Rightarrow> decimal) \<Rightarrow> 'x world AggregateOrderStore" where
  "W_order dec \<equiv> memOrder (world_rt dec) w_order put_order"
abbreviation W_funding :: "(float64 \<Rightarrow> decimal) \<Rightarrow> 'x world FundingStore" where
  "W_funding dec \<equiv> memFunding (world_rt dec) w_funding put_funding"
abbreviation W_float :: "(float64 \<Rightarrow> decimal) \<Rightarrow> 'x world FloatStore" where
  "W_float dec \<equiv> memFloat (world_rt dec) w_float put_float"
abbreviation W_rebalance :: "(float64 \<Rightarrow> decimal) \<Rightarrow> 'x world RebalancingStore" where
  "W_rebalance dec \<equiv> memRebalance (world_rt dec) w_rebalance put_rebalance"
abbreviation W_outbox :: "(float64 \<Rightarrow> decimal) \<Rightarrow> 'x world OutboxStore" where
  "W_outbox dec \<equiv> memOutbox (world_rt dec) w_outbox put_outbox"

lemma world_rt_simps [simp]:
  "Now (world_rt dec) w = (w_clock w (w_reads w), w\<lparr>w_reads := Suc (w_reads w)\<rparr>)"
  "NewV7 (world_rt dec) w = (w_ids w (w_idn w), w\<lparr>w_idn := Suc (w_idn w)\<rparr>)"
  "NewFromFloat (world_rt dec) = dec"
  "Metric (world_rt dec) x w = w\<lparr>w_metrics := w_metrics w @ [x]\<rparr>"
  by (simp_all add: world_rt_def)

section \<open>Every store is a slot of the state\<close>

interpretation wi: idem_slot "world_rt dec" w_idem put_idem for dec
  by unfold_locales simp_all

interpretation wb: batch_slot "world_rt dec" w_batch put_batch for dec
  by unfold_locales simp_all

interpretation wm: member_slot "world_rt dec" w_member put_member for dec
  by unfold_locales simp_all

interpretation wo: order_slot "world_rt dec" w_order put_order for dec
  by unfold_locales simp_all

interpretation wf: funding_slot "world_rt dec" w_funding put_funding for dec
  by unfold_locales simp_all

interpretation wl: float_slot "world_rt dec" w_float put_float for dec
  by unfold_locales simp_all

interpretation wx: outbox_slot "world_rt dec" w_outbox put_outbox for dec
  by unfold_locales simp_all

section \<open>The operations on the state\<close>

text \<open>
  The equations by which proofs run the stores on the state: each operation applied to the
  part of the state it owns.
\<close>

lemma W_idem_simps:
  "CheckAndMark (W_idem dec) k ttl w =
     (let m = ms_CheckAndMark (w_clock w (w_reads w)) k ttl (w_idem w)
      in (Inr (fst m), w\<lparr>w_reads := Suc (w_reads w), w_idem := snd m\<rparr>))"
  by (simp add: memIdem_def Let_def case_prod_beta)

lemma W_batch_simps:
  "OpenBatch (W_batch dec) p w =
     (let m = mb_OpenBatch (w_ids w (w_idn w)) (w_clock w (w_reads w)) p (w_batch w)
      in (Inr (fst m), w\<lparr>w_reads := Suc (w_reads w), w_idn := Suc (w_idn w), w_batch := snd m\<rparr>))"
  "GetBatch (W_batch dec) uid w = (mb_GetBatch uid (w_batch w), w)"
  "ListBatches (W_batch dec) t1 t2 w = (Inr (mb_ListBatches t1 t2 (w_batch w)), w)"
  "ListOpenBatches (W_batch dec) w = (Inr (mb_ListOpenBatches (w_batch w)), w)"
  "UpdateBatchStatus (W_batch dec) uid s1 s2 mu w =
     (let m = mb_UpdateBatchStatus (w_clock w (w_reads w)) uid s1 s2 mu (w_batch w)
      in (fst m, w\<lparr>w_reads := Suc (w_reads w), w_batch := snd m\<rparr>))"
  "SetBatchNotional (W_batch dec) uid n w =
     (let m = mb_SetBatchNotional uid n (w_batch w) in (fst m, w\<lparr>w_batch := snd m\<rparr>))"
  by (simp_all add: memBatch_def Let_def case_prod_beta)

lemma W_member_simps:
  "AddMembership (W_member dec) m w =
     (let r = mm_AddMembership (w_ids w (w_idn w)) (w_clock w (w_reads w)) m (w_member w)
      in (Inr (fst r), w\<lparr>w_reads := Suc (w_reads w), w_idn := Suc (w_idn w), w_member := snd r\<rparr>))"
  "ListMemberships (W_member dec) b w = (Inr (mm_ListMemberships b (w_member w)), w)"
  "SumNotional (W_member dec) b w = (Inr (mm_SumNotional b (w_member w)), w)"
  "ExistsByTxID (W_member dec) tx w = (Inr (mm_ExistsByTxID tx (w_member w)), w)"
  by (simp_all add: memMember_def Let_def case_prod_beta)

lemma W_order_simps:
  "CreateOrder (W_order dec) ord w =
     (let r = mo_CreateOrder (w_ids w (w_idn w)) (w_clock w (w_reads w)) ord (w_order w)
      in (Inr (\<lambda>w'. deref (w_order w') (fst r)),
          w\<lparr>w_reads := Suc (w_reads w), w_idn := Suc (w_idn w), w_order := snd r\<rparr>))"
  "GetOrderByBatch (W_order dec) b w =
     (map_sum (\<lambda>e. e) (\<lambda>p w'. deref (w_order w') p) (mo_GetOrderByBatch b (w_order w)), w)"
  "ListOrders (W_order dec) st w = (Inr (mo_ListOrders st (w_order w)), w)"
  "UpdateOrderFill (W_order dec) b fp tf vr w =
     (let r = mo_UpdateOrderFill b fp tf vr (w_order w)
      in (map_sum (\<lambda>e. e) (\<lambda>p w'. deref (w_order w') p) (fst r), w\<lparr>w_order := snd r\<rparr>))"
  "SettleOrder (W_order dec) b h w =
     (let r = mo_SettleOrder (w_clock w (w_reads w)) b h (w_order w)
      in (map_sum (\<lambda>e. e) (\<lambda>p w'. deref (w_order w') p) (fst r),
          w\<lparr>w_reads := Suc (w_reads w), w_order := snd r\<rparr>))"
  by (simp_all add: memOrder_def Let_def case_prod_beta)

lemma W_funding_simps:
  "CreateFunding (W_funding dec) f w =
     (let r = mfu_CreateFunding (w_ids w (w_idn w)) (w_clock w (w_reads w)) f (w_funding w)
      in (Inr (\<lambda>w'. deref (w_funding w') (fst r)),
          w\<lparr>w_reads := Suc (w_reads w), w_idn := Suc (w_idn w), w_funding := snd r\<rparr>))"
  "GetFunding (W_funding dec) uid w =
     (map_sum (\<lambda>e. e) (\<lambda>p w'. deref (w_funding w') p) (mfu_GetFunding uid (w_funding w)), w)"
  "UpdateFundingStatus (W_funding dec) uid st w =
     (let r = mfu_UpdateFundingStatus (w_clock w (w_reads w)) uid st (w_funding w)
      in (fst r, w\<lparr>w_reads := Suc (w_reads w), w_funding := snd r\<rparr>))"
  "ListFunding (W_funding dec) s w = (Inr (mfu_ListFunding s (w_funding w)), w)"
  by (simp_all add: memFunding_def Let_def case_prod_beta)

lemma W_float_simps:
  "AddFloat (W_float dec) p w =
     (let r = mf_AddFloat (w_ids w (w_idn w)) (w_clock w (w_reads w)) (w_clock w (Suc (w_reads w)))
                p (w_float w)
      in (Inr (\<lambda>w'. deref (w_float w') (fst r)),
          w\<lparr>w_reads := Suc (Suc (w_reads w)), w_idn := Suc (w_idn w), w_float := snd r\<rparr>))"
  "GetFloat (W_float dec) fiat w = (Inr (mf_GetFloat fiat (w_float w)), w)"
  "ListFloat (W_float dec) w = (Inr (mf_ListFloat (w_float w)), w)"
  "ListMaturedFloat (W_float dec) t w = (Inr (mf_ListMaturedFloat t (w_float w)), w)"
  "SettleFloat (W_float dec) uid w =
     (let r = mf_SettleFloat (w_clock w (w_reads w)) uid (w_float w)
      in (map_sum (\<lambda>e. e) (\<lambda>p w'. deref (w_float w') p) (fst r),
          w\<lparr>w_reads := Suc (w_reads w), w_float := snd r\<rparr>))"
  by (simp_all add: memFloat_def Let_def case_prod_beta)

lemma W_rebalance_simps:
  "CreateJob (W_rebalance dec) j w =
     (let r = mrj_CreateJob (w_ids w (w_idn w)) (w_clock w (w_reads w)) j (w_rebalance w)
      in (Inr (\<lambda>w'. deref (w_rebalance w') (fst r)),
          w\<lparr>w_reads := Suc (w_reads w), w_idn := Suc (w_idn w), w_rebalance := snd r\<rparr>))"
  "ListJobs (W_rebalance dec) st w = (Inr (mrj_ListJobs st (w_rebalance w)), w)"
  "UpdateJobStatus (W_rebalance dec) uid js w =
     (let r = mrj_UpdateJobStatus (w_clock w (w_reads w)) uid js (w_rebalance w)
      in (fst r, w\<lparr>w_reads := Suc (w_reads w), w_rebalance := snd r\<rparr>))"
  by (simp_all add: memRebalance_def Let_def case_prod_beta)

lemma W_outbox_simps:
  "Append (W_outbox dec) e w =
     (let r = ob_Append (w_ids w (w_idn w)) (w_clock w (w_reads w)) e (w_outbox w)
      in (Inr (fst r), w\<lparr>w_reads := Suc (w_reads w), w_idn := Suc (w_idn w), w_outbox := snd r\<rparr>))"
  "ListPending (W_outbox dec) n w = (Inr (ob_ListPending n (w_outbox w)), w)"
  "MarkEmitted (W_outbox dec) uid w =
     (let r = ob_MarkEmitted (w_clock w (w_reads w)) uid (w_outbox w)
      in (fst r, w\<lparr>w_reads := Suc (w_reads w), w_outbox := snd r\<rparr>))"
  by (simp_all add: memOutbox_def Let_def case_prod_beta)

lemmas W_simps =
  W_idem_simps W_batch_simps W_member_simps W_order_simps W_funding_simps W_float_simps
  W_rebalance_simps W_outbox_simps

section \<open>Identifiers in use\<close>

definition ids_used :: "'x world \<Rightarrow> uuid set" where
  "ids_used w = w_ids w ` {..< w_idn w}"

lemma next_id_fresh: "inj (w_ids w) \<Longrightarrow> w_ids w (w_idn w) \<notin> ids_used w"
  by (auto simp: ids_used_def inj_eq)

lemma ids_used_Suc: "ids_used w \<subseteq> ids_used (w\<lparr>w_idn := Suc n\<rparr>)" if "n = w_idn w" for n
  using that by (auto simp: ids_used_def)

text \<open>
  The outbox in the state: consistent, its identifiers generated before the next one, and the
  clock past the zero instant (which stands for \<open>not emitted\<close>).
\<close>

definition outbox_ok :: "'x world \<Rightarrow> bool" where
  "outbox_ok w \<longleftrightarrow> outbox_inv (w_outbox w) \<and> inj (w_ids w) \<and> oe_ID ` set (ot_rows (w_outbox w)) \<subseteq> ids_used w \<and>
     (\<forall>n. w_clock w n \<noteq> 0)"

lemma outbox_ok_ready:
  "outbox_ok w \<Longrightarrow> outbox_inv (w_outbox w) \<and>
     fst (NewV7 (world_rt dec) w) \<notin> oe_ID ` set (ot_rows (w_outbox w)) \<and> fst (Now (world_rt dec) w) \<noteq> 0"
  using next_id_fresh [of w] by (auto simp: outbox_ok_def)

interpretation wob: outbox_store "W_outbox dec" "\<lambda>w. ot_rows (w_outbox w)" outbox_ok for dec
proof
  fix w :: "'a world" and e limit uid
  assume "outbox_ok w"
  note r = outbox_ok_ready [OF this]
  show "oe_DedupKey e \<in> oe_DedupKey ` set (ot_rows (w_outbox w)) \<Longrightarrow>
      fst (Append (W_outbox dec) e w) = Inr False \<and>
      ot_rows (w_outbox (snd (Append (W_outbox dec) e w))) = ot_rows (w_outbox w)"
    by (rule wx.mem.append_dup [OF r])
  show "oe_DedupKey e \<notin> oe_DedupKey ` set (ot_rows (w_outbox w)) \<Longrightarrow>
      fst (Append (W_outbox dec) e w) = Inr True \<and>
      (\<exists>uid t. ot_rows (w_outbox (snd (Append (W_outbox dec) e w))) = ot_rows (w_outbox w) @ [stamped_entry uid t e])"
    by (rule wx.mem.append_new [OF r])
  show "0 < limit \<Longrightarrow> fst (ListPending (W_outbox dec) limit w) =
      Inr (take (nat limit) (filter is_pending (ot_rows (w_outbox w))))"
    by (rule wx.mem.pending_result [OF r])
  show "e \<in> set (ot_rows (w_outbox w)) \<Longrightarrow> fst (MarkEmitted (W_outbox dec) (oe_ID e) w) = Inr ()"
    by (rule wx.mem.mark_known [OF r])
  show "filter is_pending (ot_rows (w_outbox (snd (MarkEmitted (W_outbox dec) uid w)))) =
      filter (\<lambda>e. is_pending e \<and> oe_ID e \<noteq> uid) (ot_rows (w_outbox w))"
    by (rule wx.mem.mark_pending [OF r])
  show "distinct (map oe_ID (ot_rows (w_outbox w)))" by (rule wx.mem.entry_ids [OF r])
qed (simp_all add: W_outbox_simps Let_def dedup_keys_mark)

lemma outbox_ok_append: "outbox_ok w \<Longrightarrow> outbox_ok (snd (Append (W_outbox dec) e w))"
proof -
  assume ok: "outbox_ok w"
  let ?i = "w_ids w (w_idn w)"
  have "?i \<notin> oe_ID ` set (ot_rows (w_outbox w))" using outbox_ok_ready [OF ok] by simp
  then have "outbox_inv (snd (ob_Append ?i (w_clock w (w_reads w)) e (w_outbox w)))"
    using ok by (simp add: outbox_ok_def outbox_inv_append)
  moreover have "oe_ID ` set (ot_rows (snd (ob_Append ?i (w_clock w (w_reads w)) e (w_outbox w)))) \<subseteq>
      insert ?i (oe_ID ` set (ot_rows (w_outbox w)))"
    by (auto simp: ob_Append_def Let_def)
  moreover have "insert ?i (ids_used w) \<subseteq> ids_used (snd (Append (W_outbox dec) e w))"
    by (auto simp: ids_used_def W_outbox_simps Let_def)
  moreover have "oe_ID ` set (ot_rows (w_outbox w)) \<subseteq> ids_used w" using ok by (simp add: outbox_ok_def)
  ultimately have "oe_ID ` set (ot_rows (snd (ob_Append ?i (w_clock w (w_reads w)) e (w_outbox w)))) \<subseteq>
      ids_used (snd (Append (W_outbox dec) e w))"
    and "outbox_inv (snd (ob_Append ?i (w_clock w (w_reads w)) e (w_outbox w)))" by blast+
  then show ?thesis using ok by (simp add: outbox_ok_def W_outbox_simps Let_def)
qed

lemma outbox_ok_mark: "outbox_ok w \<Longrightarrow> outbox_ok (snd (MarkEmitted (W_outbox dec) uid w))"
proof -
  assume ok: "outbox_ok w"
  have "map oe_ID (ot_rows (snd (ob_MarkEmitted t uid x))) = map oe_ID (ot_rows x)" for t x
    by (auto simp: ob_MarkEmitted_def keys_update split: option.split dest: first_ix_SomeD)
  then have "oe_ID ` set (ot_rows (snd (ob_MarkEmitted t uid x))) = oe_ID ` set (ot_rows x)" for t x
    by (metis set_map)
  with ok show ?thesis
    by (auto simp: outbox_ok_def W_outbox_simps Let_def outbox_inv_mark ids_used_def)
qed

lemma outbox_ok_frame:
  "outbox_ok w \<Longrightarrow> w_outbox w' = w_outbox w \<Longrightarrow> w_ids w' = w_ids w \<Longrightarrow> w_clock w' = w_clock w \<Longrightarrow>
   w_idn w \<le> w_idn w' \<Longrightarrow> outbox_ok w'"
  by (force simp: outbox_ok_def ids_used_def)

end
