(* ===== verification/Eventbus.thy ===== *)
theory Eventbus
  imports Prelude
begin

text \<open>
  \<^verbatim>\<open>internal/eventbus/eventbus.go\<close>: the event type, the in-memory fan-out subscriber, the
  HTTP-push handler, and the parsing and forwarding of the Kafka subscriber.

  A Go channel is a buffer with a closed flag at an address; sending on a closed channel
  panics, which is the value \<open>None\<close>. \<open>Push\<close> copies the subscriber list under the mutex and
  sends after releasing it, so it is modelled as the snapshot and the sends.
  The JSON decoder and the Kafka reader are parameters.
\<close>

record TxCompletedEvent =
  ev_TxID :: string
  ev_Amount :: decimal
  ev_Asset :: string
  ev_FiatCurrency :: string
  ev_NotionalUSD :: decimal
  ev_UserID :: string
  ev_CompletedAt :: string

section \<open>The in-memory subscriber\<close>

record Chan =
  ch_buf :: "TxCompletedEvent list"
  ch_closed :: bool

record Bus =
  bus_next :: nat
  bus_chan :: "nat \<Rightarrow> Chan"
  bus_channels :: "string \<Rightarrow> nat list"

definition NewInMemory :: Bus where
  "NewInMemory = \<lparr>bus_next = 0, bus_chan = (\<lambda>_. \<lparr>ch_buf = [], ch_closed = False\<rparr>), bus_channels = (\<lambda>_. [])\<rparr>"

definition chan_cap :: nat where
  "chan_cap = 1024"

definition Subscribe :: "string \<Rightarrow> Bus \<Rightarrow> nat \<times> Bus" where
  "Subscribe topic s =
     (let ch = bus_next s
      in (ch, s\<lparr>bus_next := Suc ch,
                bus_chan := (bus_chan s)(ch := \<lparr>ch_buf = [], ch_closed = False\<rparr>),
                bus_channels := (bus_channels s)(topic := bus_channels s topic @ [ch])\<rparr>))"

text \<open>The stop function of a subscription: remove the first occurrence and close the channel.\<close>

definition stop_sub :: "string \<Rightarrow> nat \<Rightarrow> Bus \<Rightarrow> Bus" where
  "stop_sub topic ch s =
     (let chs = bus_channels s topic
      in case first_ix (\<lambda>c. c = ch) chs of
           None \<Rightarrow> s
         | Some i \<Rightarrow> s\<lparr>bus_channels := (bus_channels s)(topic := take i chs @ drop (Suc i) chs),
                       bus_chan := (bus_chan s)(ch := (bus_chan s ch)\<lparr>ch_closed := True\<rparr>)\<rparr>)"

definition push_snapshot :: "string \<Rightarrow> Bus \<Rightarrow> nat list" where
  "push_snapshot topic s = bus_channels s topic"

definition try_send :: "TxCompletedEvent \<Rightarrow> nat \<Rightarrow> Bus \<Rightarrow> Bus option" where
  "try_send ev ch s =
     (let c = bus_chan s ch
      in if ch_closed c then None
         else if length (ch_buf c) < chan_cap
           then Some (s\<lparr>bus_chan := (bus_chan s)(ch := c\<lparr>ch_buf := ch_buf c @ [ev]\<rparr>)\<rparr>)
         else Some s)"

fun push_sends :: "TxCompletedEvent \<Rightarrow> nat list \<Rightarrow> Bus \<Rightarrow> Bus option" where
  "push_sends ev [] s = Some s"
| "push_sends ev (ch # chs) s =
     (case try_send ev ch s of None \<Rightarrow> None | Some s1 \<Rightarrow> push_sends ev chs s1)"

definition Push :: "string \<Rightarrow> TxCompletedEvent \<Rightarrow> Bus \<Rightarrow> Bus option" where
  "Push topic ev s = push_sends ev (push_snapshot topic s) s"

text \<open>A receive: an event, a wait (nothing buffered), or the end of a closed channel.\<close>

datatype received = Event TxCompletedEvent | Wait | Ended

definition recv :: "nat \<Rightarrow> Bus \<Rightarrow> received \<times> Bus" where
  "recv ch s =
     (let c = bus_chan s ch
      in case ch_buf c of
           ev # rest \<Rightarrow> (Event ev, s\<lparr>bus_chan := (bus_chan s)(ch := c\<lparr>ch_buf := rest\<rparr>)\<rparr>)
         | [] \<Rightarrow> (if ch_closed c then Ended else Wait, s))"

section \<open>The HTTP-push handler\<close>

text \<open>The status code written, and the bus after the request; a panic of \<open>Push\<close> is \<open>None\<close>.\<close>

definition http_push ::
  "(string \<Rightarrow> string + TxCompletedEvent) \<Rightarrow> string \<Rightarrow> string \<Rightarrow> string \<Rightarrow> Bus \<Rightarrow> (nat \<times> Bus) option"
where
  "http_push decode meth path body s =
     (if meth \<noteq> ''POST'' then Some (405, s)
      else
        let topic = drop (length ''/v1/events/'') path
        in if topic = [] then Some (400, s)
           else case decode body of
                  Inl e \<Rightarrow> Some (400, s)
                | Inr ev \<Rightarrow> map_option (\<lambda>s1. (202, s1)) (Push topic ev s))"

section \<open>The Kafka subscriber\<close>

record KafkaReader =
  kr_Brokers :: "string list"
  kr_Topic :: string
  kr_GroupID :: string

definition NewKafkaSubscriber :: "string list \<Rightarrow> string \<Rightarrow> string \<Rightarrow> string + KafkaReader" where
  "NewKafkaSubscriber brokers topic groupID =
     (if brokers = [] then Inl ''eventbus kafka: no brokers provided''
      else
        let topic = (if topic = [] then ''tx.completed'' else topic);
            groupID = (if groupID = [] then ''treasury-orchestration'' else groupID)
        in Inr \<lparr>kr_Brokers = brokers, kr_Topic = topic, kr_GroupID = groupID\<rparr>)"

fun query_topic :: "string list \<Rightarrow> string \<Rightarrow> string" where
  "query_topic [] topic = topic"
| "query_topic (kv # kvs) topic =
     query_topic kvs (if prefix ''topic='' kv then drop (length ''topic='') kv else topic)"

definition clean_brokers :: "string list \<Rightarrow> string list" where
  "clean_brokers brokers = filter (\<lambda>b. b \<noteq> []) (map trim_space brokers)"

definition NewKafkaSubscriberFromURL :: "string \<Rightarrow> string \<Rightarrow> string + KafkaReader" where
  "NewKafkaSubscriberFromURL url groupID =
     (if \<not> prefix ''kafka://'' url
      then Inl (''eventbus: url must start with kafka://, got '' @ url)
      else
        let rest = drop (length ''kafka://'') url;
            (rest, topic) = (case cut_at (CHR ''?'') rest of
                               None \<Rightarrow> (rest, [])
                             | Some (r, q) \<Rightarrow> (r, query_topic (split_on (CHR ''&'') q) []))
        in NewKafkaSubscriber (clean_brokers (split_on (CHR '','') rest)) topic groupID)"

text \<open>
  The reader goroutine: messages until the first read error, the undecodable ones skipped.
  \<open>msgs\<close> are the results of \<open>ReadMessage\<close> in order, an \<open>Inl\<close> being an error.
\<close>

fun kafka_forward :: "(string \<Rightarrow> string + TxCompletedEvent) \<Rightarrow> (string + string) list \<Rightarrow> TxCompletedEvent list"
where
  "kafka_forward decode [] = []"
| "kafka_forward decode (Inl e # msgs) = []"
| "kafka_forward decode (Inr m # msgs) =
     (case decode m of
        Inl e \<Rightarrow> kafka_forward decode msgs
      | Inr ev \<Rightarrow> ev # kafka_forward decode msgs)"

section \<open>The fan-out\<close>

text \<open>
  Subscribed channels are allocated, open and subscribed once; a closed channel is in no list.
\<close>

definition bus_inv :: "Bus \<Rightarrow> bool" where
  "bus_inv s \<longleftrightarrow>
     (\<forall>t. distinct (bus_channels s t)) \<and>
     (\<forall>t c. c \<in> set (bus_channels s t) \<longrightarrow> c < bus_next s \<and> \<not> ch_closed (bus_chan s c)) \<and>
     (\<forall>t t' c. c \<in> set (bus_channels s t) \<longrightarrow> c \<in> set (bus_channels s t') \<longrightarrow> t = t') \<and>
     (\<forall>c. length (ch_buf (bus_chan s c)) \<le> chan_cap)"

lemma bus_inv_new [simp]: "bus_inv NewInMemory"
  by (simp add: bus_inv_def NewInMemory_def)

lemma bus_invD:
  assumes "bus_inv s"
  shows "distinct (bus_channels s t)"
    and "c \<in> set (bus_channels s t) \<Longrightarrow> c < bus_next s"
    and "c \<in> set (bus_channels s t) \<Longrightarrow> \<not> ch_closed (bus_chan s c)"
    and "c \<in> set (bus_channels s t) \<Longrightarrow> c \<in> set (bus_channels s t') \<Longrightarrow> t = t'"
    and "length (ch_buf (bus_chan s c)) \<le> chan_cap"
  using assms unfolding bus_inv_def by blast+

lemma bus_invI:
  assumes "\<And>t. distinct (bus_channels s t)"
    and "\<And>t c. c \<in> set (bus_channels s t) \<Longrightarrow> c < bus_next s"
    and "\<And>t c. c \<in> set (bus_channels s t) \<Longrightarrow> \<not> ch_closed (bus_chan s c)"
    and "\<And>t t' c. c \<in> set (bus_channels s t) \<Longrightarrow> c \<in> set (bus_channels s t') \<Longrightarrow> t = t'"
    and "\<And>c. length (ch_buf (bus_chan s c)) \<le> chan_cap"
  shows "bus_inv s"
  using assms unfolding bus_inv_def by blast

lemma bus_inv_subscribe: "bus_inv s \<Longrightarrow> bus_inv (snd (Subscribe t s))"
proof -
  assume inv: "bus_inv s"
  have new: "bus_next s \<notin> set (bus_channels s t')" for t'
    using bus_invD(2) [OF inv] by blast
  show ?thesis
  proof (rule bus_invI)
    fix t1 t2 c
    assume "c \<in> set (bus_channels (snd (Subscribe t s)) t1)" "c \<in> set (bus_channels (snd (Subscribe t s)) t2)"
    then show "t1 = t2"
      using bus_invD(4) [OF inv, of c] new by (auto simp: Subscribe_def Let_def split: if_splits)
  next
    fix t' c
    assume "c \<in> set (bus_channels (snd (Subscribe t s)) t')"
    then show "c < bus_next (snd (Subscribe t s))" "\<not> ch_closed (bus_chan (snd (Subscribe t s)) c)"
      using bus_invD(2,3) [OF inv, of c t'] by (auto simp: Subscribe_def Let_def split: if_splits)
  qed (use bus_invD [OF inv] new in \<open>simp_all add: Subscribe_def Let_def\<close>)
qed

lemma remove_ix_set:
  "distinct xs \<Longrightarrow> first_ix (\<lambda>c. c = x) xs = Some i \<Longrightarrow>
   distinct (take i xs @ drop (Suc i) xs) \<and> set (take i xs @ drop (Suc i) xs) = set xs - {x}"
  by (induction xs arbitrary: i) (auto split: if_splits)

lemma bus_inv_stop:
  assumes inv: "bus_inv s"
  shows "bus_inv (stop_sub t c s)"
proof (cases "first_ix (\<lambda>x. x = c) (bus_channels s t)")
  case None
  with inv show ?thesis by (simp add: stop_sub_def)
next
  case (Some i)
  have c: "c \<in> set (bus_channels s t)"
    using first_ix_SomeD [OF Some] first_ix_Some_in [OF Some] by simp
  note rem = remove_ix_set [OF bus_invD(1) [OF inv] Some]
  have chs: "bus_channels (stop_sub t c s) t' =
      (if t' = t then take i (bus_channels s t) @ drop (Suc i) (bus_channels s t) else bus_channels s t')" for t'
    using Some by (simp add: stop_sub_def Let_def)
  then have sub: "x \<in> set (bus_channels (stop_sub t c s) t') \<Longrightarrow> x \<in> set (bus_channels s t') \<and> x \<noteq> c" for x t'
    using rem bus_invD(4) [OF inv c] by (cases "t' = t") auto
  have chan: "bus_chan (stop_sub t c s) x =
      (if x = c then (bus_chan s c)\<lparr>ch_closed := True\<rparr> else bus_chan s x)"
    "bus_next (stop_sub t c s) = bus_next s" for x
    using Some by (simp_all add: stop_sub_def Let_def)
  show ?thesis
  proof (rule bus_invI)
    show "distinct (bus_channels (stop_sub t c s) t')" for t'
      using rem bus_invD(1) [OF inv] by (simp add: chs)
    show "length (ch_buf (bus_chan (stop_sub t c s) x)) \<le> chan_cap" for x
      using bus_invD(5) [OF inv] by (simp add: chan)
  next
    fix t1 t2 x
    assume x: "x \<in> set (bus_channels (stop_sub t c s) t1)"
    show "x < bus_next (stop_sub t c s)" "\<not> ch_closed (bus_chan (stop_sub t c s) x)"
      using sub [OF x] bus_invD(2,3) [OF inv, of x t1] by (simp_all add: chan)
    show "x \<in> set (bus_channels (stop_sub t c s) t2) \<Longrightarrow> t1 = t2"
      using sub [OF x] sub [of x t2] bus_invD(4) [OF inv, of x t1 t2] by blast
  qed
qed

lemma try_send_open:
  "\<not> ch_closed (bus_chan s c) \<Longrightarrow>
   \<exists>s1. try_send ev c s = Some s1 \<and> bus_channels s1 = bus_channels s \<and> bus_next s1 = bus_next s \<and>
     (\<forall>x. ch_closed (bus_chan s1 x) = ch_closed (bus_chan s x)) \<and>
     (\<forall>x. ch_buf (bus_chan s1 x) = ch_buf (bus_chan s x) @
        (if x = c \<and> length (ch_buf (bus_chan s c)) < chan_cap then [ev] else []))"
  by (auto simp: try_send_def Let_def)

lemma push_sends_open:
  assumes "distinct chs" and "\<forall>c \<in> set chs. \<not> ch_closed (bus_chan s c)"
  shows "\<exists>s1. push_sends ev chs s = Some s1 \<and> bus_channels s1 = bus_channels s \<and> bus_next s1 = bus_next s \<and>
     (\<forall>x. ch_closed (bus_chan s1 x) = ch_closed (bus_chan s x)) \<and>
     (\<forall>x. ch_buf (bus_chan s1 x) = ch_buf (bus_chan s x) @
        (if x \<in> set chs \<and> length (ch_buf (bus_chan s x)) < chan_cap then [ev] else []))"
  using assms
proof (induction chs arbitrary: s)
  case Nil
  then show ?case by simp
next
  case (Cons c chs)
  from Cons.prems try_send_open [of s c ev] obtain s1 where
    s1: "try_send ev c s = Some s1" "bus_channels s1 = bus_channels s" "bus_next s1 = bus_next s"
      "\<forall>x. ch_closed (bus_chan s1 x) = ch_closed (bus_chan s x)"
      "\<forall>x. ch_buf (bus_chan s1 x) = ch_buf (bus_chan s x) @
        (if x = c \<and> length (ch_buf (bus_chan s c)) < chan_cap then [ev] else [])" by auto
  with Cons.IH [of s1] Cons.prems obtain s2 where
    "push_sends ev chs s1 = Some s2" "bus_channels s2 = bus_channels s1" "bus_next s2 = bus_next s1"
      "\<forall>x. ch_closed (bus_chan s2 x) = ch_closed (bus_chan s1 x)"
      "\<forall>x. ch_buf (bus_chan s2 x) = ch_buf (bus_chan s1 x) @
        (if x \<in> set chs \<and> length (ch_buf (bus_chan s1 x)) < chan_cap then [ev] else [])" by auto
  with s1 Cons.prems(1) show ?case by (auto intro!: exI [of _ s2])
qed

text \<open>
  An event pushed to a topic reaches the buffer of every subscriber of the topic that has
  room, once, and no other; a full subscriber loses it. The push does not fail.
\<close>

lemma push_reaches_subscribers:
  assumes "bus_inv s"
  shows "\<exists>s'. Push topic ev s = Some s' \<and> bus_inv s' \<and>
    (\<forall>ch. ch_buf (bus_chan s' ch) = ch_buf (bus_chan s ch) @
       (if ch \<in> set (bus_channels s topic) \<and> length (ch_buf (bus_chan s ch)) < 1024 then [ev] else []))"
proof -
  have "distinct (bus_channels s topic)" "\<forall>c \<in> set (bus_channels s topic). \<not> ch_closed (bus_chan s c)"
    using bus_invD [OF assms] by blast+
  from push_sends_open [OF this, of ev] obtain s' where
    s': "push_sends ev (bus_channels s topic) s = Some s'" "bus_channels s' = bus_channels s" "bus_next s' = bus_next s"
      "\<forall>x. ch_closed (bus_chan s' x) = ch_closed (bus_chan s x)"
      "\<forall>x. ch_buf (bus_chan s' x) = ch_buf (bus_chan s x) @
        (if x \<in> set (bus_channels s topic) \<and> length (ch_buf (bus_chan s x)) < chan_cap then [ev] else [])"
    by blast
  have "bus_inv s'"
  proof (rule bus_invI)
    show "length (ch_buf (bus_chan s' c)) \<le> chan_cap" for c
      using s'(5) bus_invD(5) [OF assms, of c] by simp
  qed (use s'(2-4) bus_invD [OF assms] in simp_all)
  with s' show ?thesis by (simp add: Push_def push_snapshot_def chan_cap_def)
qed

lemma clean_brokers_nonempty: "b \<in> set (clean_brokers bs) \<Longrightarrow> b \<noteq> []"
  by (auto simp: clean_brokers_def)

lemma kafka_forward_decodes:
  "ev \<in> set (kafka_forward decode msgs) \<Longrightarrow> \<exists>m. Inr m \<in> set msgs \<and> decode m = Inr ev"
  by (induction decode msgs rule: kafka_forward.induct) (auto split: sum.splits)

text \<open>
  A subscriber that stops after a push has taken its list of channels, and before the push
  sends to it, makes the push panic: the send meets a closed channel.
\<close>

lemma stop_during_push_panics:
  assumes "ch \<in> set (push_snapshot topic s)"
  shows "push_sends ev (push_snapshot topic s) (stop_sub topic ch s) = None"
proof -
  have "push_sends ev chs t = None" if "ch \<in> set chs" "ch_closed (bus_chan t ch)" for chs t
    using that
  proof (induction chs arbitrary: t)
    case (Cons c chs)
    show ?case
    proof (cases "try_send ev c t")
      case (Some t')
      then have "ch_closed (bus_chan t' ch)" "c \<noteq> ch"
        using Cons.prems by (auto simp: try_send_def Let_def split: if_splits)
      with Cons Some show ?thesis by simp
    qed simp
  qed simp
  moreover obtain i where "first_ix (\<lambda>c. c = ch) (bus_channels s topic) = Some i"
    using assms first_ix_None [of "\<lambda>c. c = ch" "bus_channels s topic"] by (auto simp: push_snapshot_def)
  then have "ch_closed (bus_chan (stop_sub topic ch s) ch)" by (simp add: stop_sub_def Let_def)
  ultimately show ?thesis using assms by blast
qed

end
