(* ===== verification/Config.thy ===== *)
theory Config
  imports Prelude
begin

text \<open>
  \<^verbatim>\<open>internal/config/config.go\<close>: the configuration record, its lookups with their
  defaults and overrides, and \<open>Load\<close> over the process environment. The environment is the
  list of its \<open>NAME=value\<close> entries. \<open>strconv.Atoi\<close> is written out (sign, digits, the
  range of \<open>int\<close>); \<open>strconv.ParseFloat\<close>, whose syntax and rounding the service only
  relies on, is the parameter \<open>pf\<close>.
\<close>

record Config =
  Port :: string
  DBURL :: string
  RedisURL :: string
  BatchIntervalSeconds :: int
  BatchSizeThresholdUSD :: float64
  MinFloatUSD :: float64
  MaxFloatUSD :: float64
  HotWalletTargets :: "string \<rightharpoonup> float64"
  LiquidityRoutingURL :: string
  WalletMgmtURL :: string
  FXHedgingURL :: string
  LedgerURL :: string
  AuditLogURL :: string
  TxOrchEventTopic :: string
  EventBusURL :: string
  EventBusGroupID :: string
  LogLevel :: string
  SettlementDays :: "string \<rightharpoonup> int"
  BatchIntervalOverrides :: "string \<rightharpoonup> int"
  BatchThresholdOverrides :: "string \<rightharpoonup> float64"

section \<open>Lookups\<close>

definition SettlementDaysFor :: "Config \<Rightarrow> string \<Rightarrow> int" where
  "SettlementDaysFor c fiat =
     (case SettlementDays c (to_upper fiat) of
        Some d \<Rightarrow> if d > 0 then d else 2
      | None \<Rightarrow> 2)"

definition cfgBatchIntervalDefault :: "Config \<Rightarrow> int" where
  "cfgBatchIntervalDefault c = BatchIntervalSeconds c"

definition BatchIntervalFor :: "Config \<Rightarrow> string \<Rightarrow> int" where
  "BatchIntervalFor c assetPair =
     (case BatchIntervalOverrides c assetPair of
        Some v \<Rightarrow> if v > 0 then v else cfgBatchIntervalDefault c
      | None \<Rightarrow> cfgBatchIntervalDefault c)"

definition BatchThresholdFor :: "Config \<Rightarrow> string \<Rightarrow> float64" where
  "BatchThresholdFor c assetPair =
     (case BatchThresholdOverrides c assetPair of
        Some v \<Rightarrow> if v > 0 then v else BatchSizeThresholdUSD c
      | None \<Rightarrow> BatchSizeThresholdUSD c)"

definition HotWalletTargetFor :: "Config \<Rightarrow> string \<Rightarrow> float64" where
  "HotWalletTargetFor c asset =
     (case HotWalletTargets c (to_upper asset) of Some v \<Rightarrow> v | None \<Rightarrow> 0)"

definition BatchIntervalDuration :: "Config \<Rightarrow> string \<Rightarrow> duration" where
  "BatchIntervalDuration c assetPair = i64 (BatchIntervalFor c assetPair * second)"

section \<open>The environment\<close>

type_synonym environ = "string list"

text \<open>\<open>os.Getenv\<close>: the value of the first entry of the name, the empty text if none.\<close>

fun Getenv :: "environ \<Rightarrow> string \<Rightarrow> string" where
  "Getenv [] k = []"
| "Getenv (kv # env) k =
     (case cut_at (CHR ''='') kv of
        None \<Rightarrow> Getenv env k
      | Some (k', v) \<Rightarrow> if k' = k then v else Getenv env k)"

definition digit :: "char \<Rightarrow> int option" where
  "digit c = (if CHR ''0'' \<le> c \<and> c \<le> CHR ''9'' then Some (of_char c - 48) else None)"

fun digits :: "int \<Rightarrow> string \<Rightarrow> int option" where
  "digits acc [] = Some acc"
| "digits acc (c # cs) = (case digit c of None \<Rightarrow> None | Some d \<Rightarrow> digits (10 * acc + d) cs)"

definition Atoi :: "string \<Rightarrow> int option" where
  "Atoi s =
     (let (neg, ds) = (case s of [] \<Rightarrow> (False, [])
                       | c # cs \<Rightarrow> if c = CHR ''-'' then (True, cs)
                                   else if c = CHR ''+'' then (False, cs) else (False, c # cs))
      in if ds = [] then None
         else case digits 0 ds of
           None \<Rightarrow> None
         | Some n \<Rightarrow> let v = (if neg then - n else n)
                     in if - (2 ^ 63) \<le> v \<and> v < 2 ^ 63 then Some v else None)"

definition envOr :: "environ \<Rightarrow> string \<Rightarrow> string \<Rightarrow> string" where
  "envOr env k def = (let v = Getenv env k in if v \<noteq> [] then v else def)"

definition osOr :: "environ \<Rightarrow> string \<Rightarrow> string \<Rightarrow> string" where
  "osOr env k def = (let v = Getenv env k in if v \<noteq> [] then v else def)"

definition envInt :: "environ \<Rightarrow> string \<Rightarrow> int \<Rightarrow> int" where
  "envInt env k def =
     (let v = Getenv env k
      in if v \<noteq> [] then (case Atoi v of Some n \<Rightarrow> n | None \<Rightarrow> def) else def)"

definition envFloat :: "(string \<Rightarrow> float64 option) \<Rightarrow> environ \<Rightarrow> string \<Rightarrow> float64 \<Rightarrow> float64" where
  "envFloat pf env k def =
     (let v = Getenv env k
      in if v \<noteq> [] then (case pf v of Some f \<Rightarrow> f | None \<Rightarrow> def) else def)"

text \<open>
  The three loops over \<open>os.Environ()\<close> that collect the entries whose name starts with a
  prefix; an entry that does not parse is skipped, a later entry replaces an earlier one.
\<close>

definition collect_step ::
  "(string \<Rightarrow> 'v option) \<Rightarrow> (string \<Rightarrow> string) \<Rightarrow> string \<Rightarrow> string \<Rightarrow> (string \<rightharpoonup> 'v) \<Rightarrow> (string \<rightharpoonup> 'v)"
where
  "collect_step parse rename pre kv out =
     (case cut_at (CHR ''='') kv of
        None \<Rightarrow> out
      | Some (k, v) \<Rightarrow>
          if \<not> prefix pre k then out
          else (case parse v of
                  None \<Rightarrow> out
                | Some x \<Rightarrow> out(rename (drop (length pre) k) \<mapsto> x)))"

definition loadHotWalletTargets :: "(string \<Rightarrow> float64 option) \<Rightarrow> environ \<Rightarrow> string \<rightharpoonup> float64" where
  "loadHotWalletTargets pf env =
     fold (collect_step pf to_upper ''HOT_WALLET_TARGET_BALANCE_'') env Map.empty"

definition loadIntOverrides :: "environ \<Rightarrow> string \<Rightarrow> string \<rightharpoonup> int" where
  "loadIntOverrides env pre = fold (collect_step Atoi id pre) env Map.empty"

definition loadFloatOverrides ::
  "(string \<Rightarrow> float64 option) \<Rightarrow> environ \<Rightarrow> string \<Rightarrow> string \<rightharpoonup> float64" where
  "loadFloatOverrides pf env pre = fold (collect_step pf id pre) env Map.empty"

definition Load :: "(string \<Rightarrow> float64 option) \<Rightarrow> environ \<Rightarrow> Config" where
  "Load pf env = \<lparr>
     Port = envOr env ''PORT'' ''8080'',
     DBURL = Getenv env ''DB_URL'',
     RedisURL = osOr env ''REDIS_URL'' ''redis://localhost:6379/0'',
     BatchIntervalSeconds = envInt env ''BATCH_INTERVAL_SECONDS'' 30,
     BatchSizeThresholdUSD = envFloat pf env ''BATCH_SIZE_THRESHOLD_USD'' 50000,
     MinFloatUSD = envFloat pf env ''MIN_FLOAT_USD'' 250000,
     MaxFloatUSD = envFloat pf env ''MAX_FLOAT_USD'' 5000000,
     HotWalletTargets = loadHotWalletTargets pf env,
     LiquidityRoutingURL = Getenv env ''LIQUIDITY_ROUTING_URL'',
     WalletMgmtURL = Getenv env ''WALLET_MGMT_URL'',
     FXHedgingURL = Getenv env ''FX_HEDGING_URL'',
     LedgerURL = Getenv env ''LEDGER_URL'',
     AuditLogURL = Getenv env ''AUDIT_LOG_URL'',
     TxOrchEventTopic = envOr env ''TX_ORCH_EVENT_TOPIC'' ''tx.completed'',
     EventBusURL = Getenv env ''EVENT_BUS_URL'',
     EventBusGroupID = envOr env ''EVENT_BUS_GROUP_ID'' ''treasury-orchestration'',
     LogLevel = envOr env ''LOG_LEVEL'' ''info'',
     SettlementDays = [''USD'' \<mapsto> envInt env ''SETTLEMENT_DAYS_USD'' 2,
                       ''EUR'' \<mapsto> envInt env ''SETTLEMENT_DAYS_EUR'' 2,
                       ''GBP'' \<mapsto> envInt env ''SETTLEMENT_DAYS_GBP'' 2,
                       ''CHF'' \<mapsto> envInt env ''SETTLEMENT_DAYS_CHF'' 2,
                       ''JPY'' \<mapsto> envInt env ''SETTLEMENT_DAYS_JPY'' 3],
     BatchIntervalOverrides = loadIntOverrides env ''BATCH_INTERVAL_OVERRIDE_'',
     BatchThresholdOverrides = loadFloatOverrides pf env ''BATCH_THRESHOLD_OVERRIDE_''\<rparr>"

definition ParseBool :: "string \<Rightarrow> bool" where
  "ParseBool s = (to_lower (trim_space s) \<in> set [''1'', ''true'', ''yes'', ''on'', ''y''])"

section \<open>Lemmas\<close>

lemma SettlementDaysFor_pos: "0 < SettlementDaysFor c fiat"
  by (simp add: SettlementDaysFor_def split: option.split)

lemma BatchIntervalDuration_exact:
  "0 \<le> BatchIntervalFor c p \<Longrightarrow> BatchIntervalFor c p \<le> 9223372036 \<Longrightarrow>
   BatchIntervalDuration c p = BatchIntervalFor c p * second"
  unfolding BatchIntervalDuration_def by (rule i64_id) simp_all

text \<open>The conversion to a duration wraps: a positive setting may become a negative interval.\<close>

lemma BatchIntervalDuration_wraps:
  "BatchIntervalFor c p = 9223372037 \<Longrightarrow> BatchIntervalDuration c p < 0"
  by (simp add: BatchIntervalDuration_def i64_def)

lemma BatchIntervalFor_pos: "0 < BatchIntervalSeconds c \<Longrightarrow> 0 < BatchIntervalFor c p"
  by (simp add: BatchIntervalFor_def cfgBatchIntervalDefault_def split: option.split)

lemma BatchThresholdFor_pos: "0 < BatchSizeThresholdUSD c \<Longrightarrow> 0 < BatchThresholdFor c p"
  by (simp add: BatchThresholdFor_def split: option.split)

lemma collect_step_other:
  "cut_at (CHR ''='') kv = Some (k, v) \<Longrightarrow> prefix pre k \<Longrightarrow>
   rename (drop (length pre) k) \<noteq> n \<Longrightarrow> collect_step parse rename pre kv out n = out n"
  by (simp add: collect_step_def split: option.split)

text \<open>The last entry of a name that parses decides the loaded value.\<close>

definition names_key :: "(string \<Rightarrow> string) \<Rightarrow> string \<Rightarrow> string \<Rightarrow> string \<Rightarrow> bool" where
  "names_key rename pre n kv \<longleftrightarrow>
     (\<exists>k v. cut_at (CHR ''='') kv = Some (k, v) \<and> prefix pre k \<and> rename (drop (length pre) k) = n)"

lemma collect_step_unnamed:
  "\<not> names_key rename pre n kv \<Longrightarrow> collect_step parse rename pre kv out n = out n"
  by (auto simp: collect_step_def names_key_def split: option.split)

lemma collect_fold_unnamed:
  "\<forall>kv \<in> set env. \<not> names_key rename pre n kv \<Longrightarrow>
   fold (collect_step parse rename pre) env out n = out n"
  by (induction env arbitrary: out) (auto simp: collect_step_unnamed)

lemma collect_fold_last:
  assumes "CHR ''='' \<notin> set (pre @ name)" and "parse val = Some x"
    and "\<forall>kv \<in> set env2. \<not> names_key rename pre (rename name) kv"
  shows "fold (collect_step parse rename pre) (env1 @ (pre @ name @ ''='' @ val) # env2) out
           (rename name) = Some x"
proof -
  have "cut_at (CHR ''='') (pre @ name @ ''='' @ val) = Some (pre @ name, val)"
    using cut_at_append [of "CHR ''=''" "pre @ name" val] assms(1) by simp
  then show ?thesis
    using assms(2,3) by (simp add: collect_fold_unnamed collect_step_def)
qed

lemma upper_char_idem [simp]: "upper_char (upper_char c) = upper_char c"
proof (cases "CHR ''a'' \<le> c \<and> c \<le> CHR ''z''")
  case True
  then have b: "97 \<le> (of_char c :: nat)" "(of_char c :: nat) \<le> 122"
    by (simp_all add: less_eq_char_def)
  then have "of_char (char_of (of_char c - (32::nat)) :: char) = (of_char c - (32::nat))"
    by (simp add: take_bit_nat_eq_self)
  with b have "\<not> CHR ''a'' \<le> char_of (of_char c - (32::nat))"
    by (simp add: less_eq_char_def)
  with True show ?thesis by (simp add: upper_char_def)
next
  case False
  then show ?thesis by (auto simp: upper_char_def)
qed

text \<open>A lookup ignores the case in which the currency or the asset is written.\<close>

lemma SettlementDaysFor_upper: "SettlementDaysFor c (to_upper fiat) = SettlementDaysFor c fiat"
  by (simp add: SettlementDaysFor_def comp_def)

lemma HotWalletTargetFor_upper: "HotWalletTargetFor c (to_upper asset) = HotWalletTargetFor c asset"
  by (simp add: HotWalletTargetFor_def comp_def)

end
