(* ===== verification/Scheduler.thy ===== *)
theory Scheduler
  imports World Config
begin

text \<open>
  \<^verbatim>\<open>internal/batch/scheduler.go\<close>: the batch formation policy. \<open>shouldClose\<close> decides
  by size and by age, \<open>close_batch\<close> is the close with its compare-and-set on the status, and
  \<open>tick\<close> scans the open batches under the cadence lock. \<open>OnClose\<close> is the hook the
  application installs; it is any function on the state.
\<close>

section \<open>Operations\<close>

text \<open>The empty reason is \<open>ReasonNone\<close>.\<close>

datatype CloseReason = ReasonNone | ReasonTime | ReasonSize | ReasonManual

fun CloseReason_str :: "CloseReason \<Rightarrow> string" where
  "CloseReason_str ReasonNone = []"
| "CloseReason_str ReasonTime = ''time''"
| "CloseReason_str ReasonSize = ''size''"
| "CloseReason_str ReasonManual = ''MANUAL''"

record 's SchedDeps =
  sd_Cfg :: Config
  sd_Batches :: "'s BatchStore"
  sd_Memberships :: "'s MembershipStore"
  sd_Lock :: "'s CadenceLock"
  sd_OnClose :: "(Batch \<Rightarrow> CloseReason \<Rightarrow> 's \<Rightarrow> 's) option"

text \<open>The value of a call whose error is dropped: \<open>sum, _ := ...\<close>.\<close>

definition value_or_zero :: "error + decimal \<Rightarrow> decimal" where
  "value_or_zero r = (case r of Inl _ \<Rightarrow> 0 | Inr d \<Rightarrow> d)"

definition shouldClose :: "'s Rt \<Rightarrow> 's SchedDeps \<Rightarrow> Batch \<Rightarrow> 's \<Rightarrow> CloseReason \<times> 's" where
  "shouldClose rt d b s =
     (let (r, s1) = SumNotional (sd_Memberships d) (b_ID b) s;
          sum = value_or_zero r;
          threshold = BatchThresholdFor (sd_Cfg d) (b_AssetPair b)
      in if threshold > 0 \<and> sum \<ge> NewFromFloat rt threshold then (ReasonSize, s1)
         else
           let interval = BatchIntervalDuration (sd_Cfg d) (b_AssetPair b)
           in if interval > 0
              then (let (now, s2) = Now rt s1
                    in if Since now (b_OpenedAt b) \<ge> interval then (ReasonTime, s2) else (ReasonNone, s2))
              else (ReasonNone, s1))"

definition set_notional :: "decimal \<Rightarrow> Batch \<Rightarrow> Batch" where
  "set_notional n b = b\<lparr>b_NotionalUSD := n\<rparr>"

definition close_batch ::
  "'s Rt \<Rightarrow> 's SchedDeps \<Rightarrow> uuid \<Rightarrow> CloseReason \<Rightarrow> 's \<Rightarrow> (error + Batch) \<times> 's" where
  "close_batch rt d uid reason s =
     (case GetBatch (sd_Batches d) uid s of
        (Inl e, s1) \<Rightarrow> (Inl e, s1)
      | (Inr b, s1) \<Rightarrow>
          if b_Status b \<noteq> BatchOpen then (Inl ErrNotOpen, s1)
          else
            let (r, s2) = SumNotional (sd_Memberships d) uid s1; sum = value_or_zero r
            in case UpdateBatchStatus (sd_Batches d) uid BatchOpen BatchClosed (Some (set_notional sum)) s2 of
                 (Inl e, s3) \<Rightarrow> (Inl e, s3)
               | (Inr None, s3) \<Rightarrow> (Inl ErrNotOpen, s3)
               | (Inr (Some updated), s3) \<Rightarrow>
                   let s4 = Metric rt (BatchesClosed (b_AssetPair b) (CloseReason_str reason)) s3;
                       (now, s5) = Now rt s4;
                       s6 = Metric rt (CloseLatency (b_AssetPair b) (Since now (b_OpenedAt updated))) s5;
                       s7 = (case sd_OnClose d of None \<Rightarrow> s6 | Some h \<Rightarrow> h updated reason s6)
                   in (Inr updated, s7))"

definition CloseBatch :: "'s Rt \<Rightarrow> 's SchedDeps \<Rightarrow> uuid \<Rightarrow> 's \<Rightarrow> (error + Batch) \<times> 's" where
  "CloseBatch rt d uid s = close_batch rt d uid ReasonManual s"

fun tick_loop :: "'s Rt \<Rightarrow> 's SchedDeps \<Rightarrow> Batch list \<Rightarrow> 's \<Rightarrow> 's" where
  "tick_loop rt d [] s = s"
| "tick_loop rt d (b # bs) s =
     (let (reason, s1) = shouldClose rt d b s
      in if reason = ReasonNone then tick_loop rt d bs s1
         else case Acquire (sd_Lock d) (b_AssetPair b) s1 of
                (Inl e, s2) \<Rightarrow> tick_loop rt d bs s2
              | (Inr ok, s2) \<Rightarrow>
                  if \<not> ok then tick_loop rt d bs s2
                  else let (r, s3) = close_batch rt d (b_ID b) reason s2 in tick_loop rt d bs s3)"

definition tick :: "'s Rt \<Rightarrow> 's SchedDeps \<Rightarrow> 's \<Rightarrow> 's" where
  "tick rt d s =
     (case ListOpenBatches (sd_Batches d) s of
        (Inl e, s1) \<Rightarrow> s1
      | (Inr open_, s1) \<Rightarrow> tick_loop rt d open_ s1)"

text \<open>
  \<open>Run\<close> for as many ticks as come before the context is canceled, and the period of the
  ticker (a quarter of the configured interval; Go truncates the division).
\<close>

primrec Run_ticks :: "'s Rt \<Rightarrow> 's SchedDeps \<Rightarrow> nat \<Rightarrow> 's \<Rightarrow> 's" where
  "Run_ticks rt d 0 s = s"
| "Run_ticks rt d (Suc n) s = Run_ticks rt d n (tick rt d s)"

definition quot64 :: "int \<Rightarrow> int \<Rightarrow> int" where
  "quot64 a b = sgn a * sgn b * (\<bar>a\<bar> div \<bar>b\<bar>)"

definition tick_period :: "Config \<Rightarrow> duration" where
  "tick_period c = quot64 (i64 (BatchIntervalSeconds c * second)) 4"

section \<open>The close, over the contracts of the stores\<close>

lemma set_notional_ok [simp]: "mutator_ok (Some (set_notional n))"
proof -
  have "same_batch b b' \<Longrightarrow> same_batch (set_notional n b) (set_notional n b')" for b b'
    by (cases b; cases b') (auto simp: set_notional_def same_batch_def)
  then show ?thesis by (simp add: mutator_ok_def) (simp add: set_notional_def)
qed

lemma tick_period_quarter:
  "0 < BatchIntervalSeconds c \<Longrightarrow> BatchIntervalSeconds c \<le> 9223372036 \<Longrightarrow>
   0 < tick_period c \<and> 4 * tick_period c = BatchIntervalSeconds c * second"
  using i64_id [of "BatchIntervalSeconds c * second"] by (simp add: tick_period_def quot64_def)

locale scheduler_env =
  batch_store "sd_Batches d" batches + membership_reader "sd_Memberships d" members mwf
  for d :: "'s SchedDeps" and batches and members and mwf +
  fixes rt :: "'s Rt"
  assumes sum_batches: "batches (snd (SumNotional (sd_Memberships d) b s)) = batches s"
    and get_members: "members (snd (GetBatch (sd_Batches d) uid s)) = members s"
      "mwf (snd (GetBatch (sd_Batches d) uid s)) = mwf s"
    and now_batches: "batches (snd (Now rt s)) = batches s"
    and metric_batches: "batches (Metric rt x s) = batches s"
begin

lemmas frames = get_frame sum_batches get_members now_batches metric_batches

lemma close_missing:
  assumes "batches s uid = None"
  shows "fst (close_batch rt d uid reason s) = Inl ErrNotFound \<and>
    batches (snd (close_batch rt d uid reason s)) = batches s"
  using get_missing [OF assms] get_frame [of uid s]
  by (cases "GetBatch (sd_Batches d) uid s") (auto simp: close_batch_def)

lemma close_not_open:
  assumes "batches s uid = Some b" and "b_Status b \<noteq> BatchOpen"
  shows "fst (close_batch rt d uid reason s) = Inl ErrNotOpen \<and>
    batches (snd (close_batch rt d uid reason s)) = batches s"
  using get_known [OF assms(1)] get_frame [of uid s] assms(2)
  by (cases "GetBatch (sd_Batches d) uid s") (auto simp: close_batch_def dest!: same_batchD)

text \<open>
  Closing an open batch: it becomes closed with the sum of its members as its notional, the
  hook runs once, on the closed batch, and its state is the final one.
\<close>

lemma close_open:
  assumes b: "batches s uid = Some b" and opn: "b_Status b = BatchOpen" and "mwf s"
  shows "\<exists>b' s'. close_batch rt d uid reason s =
      (Inr b', case sd_OnClose d of None \<Rightarrow> s' | Some h \<Rightarrow> h b' reason s') \<and>
    (\<exists>b''. same_batch b' b'' \<and> batches s' = (batches s)(uid \<mapsto> b'')) \<and> b_Status b' = BatchClosed \<and> b_ID b' = b_ID b \<and>
    b_AssetPair b' = b_AssetPair b \<and> b_OpenedAt b' = b_OpenedAt b \<and>
    b_NotionalUSD b' = notional_of uid (members s)"
proof -
  let ?B = "sd_Batches d"
  obtain b0 s1 where g: "GetBatch ?B uid s = (Inr b0, s1)" "b_Status b0 = BatchOpen"
    using get_known [OF b] opn by (cases "GetBatch ?B uid s") (auto dest: same_batchD)
  obtain r s2 where su: "SumNotional (sd_Memberships d) uid s1 = (r, s2)" by fastforce
  have s1: "batches s1 = batches s" "members s1 = members s" "mwf s1"
    using g get_frame [of uid s] get_members [of uid s] \<open>mwf s\<close> by auto
  then have r: "value_or_zero r = notional_of uid (members s)"
    using su sum_result [of s1 uid] by (simp add: value_or_zero_def)
  have "batches s2 uid = Some b" using su sum_batches [of uid s1] s1 b by simp
  from upd_ok [OF this opn, of BatchClosed "Some (set_notional (value_or_zero r))"]
  obtain b' b'' s3 t where u: "UpdateBatchStatus ?B uid BatchOpen BatchClosed
        (Some (set_notional (value_or_zero r))) s2 = (Inr (Some b'), s3)"
      "same_batch (transitioned t BatchClosed (Some (set_notional (value_or_zero r))) b) b'"
      "batches s3 = (batches s2)(uid \<mapsto> b'')" "same_batch b' b''"
    by (cases "UpdateBatchStatus ?B uid BatchOpen BatchClosed
        (Some (set_notional (value_or_zero r))) s2") auto
  have "batches s2 = batches s" using su sum_batches [of uid s1] s1 by simp
  with u(3) have fin: "batches (Metric rt y (snd (Now rt (Metric rt x s3)))) = (batches s)(uid \<mapsto> b'')" for x y
    by (simp add: metric_batches now_batches)
  have "b_Status b' = BatchClosed \<and> b_ID b' = b_ID b \<and> b_AssetPair b' = b_AssetPair b \<and>
      b_OpenedAt b' = b_OpenedAt b \<and> b_NotionalUSD b' = notional_of uid (members s)"
    using same_batchD [OF u(2)] r by (simp add: transitioned_def set_notional_def Let_def)
  with g su u(1,4) fin show ?thesis
    by (auto simp: close_batch_def Let_def case_prod_beta split: option.split intro!: exI)
qed

end

section \<open>The scheduler on the in-memory stores\<close>

abbreviation W_sched ::
  "Config \<Rightarrow> (float64 \<Rightarrow> decimal) \<Rightarrow> duration \<Rightarrow> (Batch \<Rightarrow> CloseReason \<Rightarrow> 'x world \<Rightarrow> 'x world) option
   \<Rightarrow> 'x world SchedDeps" where
  "W_sched cfg dec ttl hook \<equiv>
     \<lparr>sd_Cfg = cfg, sd_Batches = W_batch dec, sd_Memberships = W_member dec,
      sd_Lock = NewCadenceLock (W_idem dec) ttl, sd_OnClose = hook\<rparr>"

interpretation wsched: scheduler_env "W_sched cfg dec ttl hook" "\<lambda>w. batch_map (w_batch w)"
  "\<lambda>w. mt_rows (w_member w)" "\<lambda>w. member_inv (w_member w)" "world_rt dec" for cfg dec ttl hook
  by (simp add: scheduler_env_def scheduler_env_axioms_def wb.mem.batch_store_axioms
      wm.mem.membership_reader_axioms W_simps Let_def)

lemma shouldClose_world:
  "shouldClose (world_rt dec) (W_sched cfg dec ttl hook) b w =
     (let th = BatchThresholdFor cfg (b_AssetPair b); iv = BatchIntervalDuration cfg (b_AssetPair b)
      in if th > 0 \<and> notional_of (b_ID b) (mt_rows (w_member w)) \<ge> dec th then (ReasonSize, w)
         else if iv > 0
           then (if Since (w_clock w (w_reads w)) (b_OpenedAt b) \<ge> iv then ReasonTime else ReasonNone,
                 w\<lparr>w_reads := Suc (w_reads w)\<rparr>)
         else (ReasonNone, w))"
  by (simp add: shouldClose_def W_simps value_or_zero_def mm_SumNotional_eq Let_def)

end
