(* ===== verification/Consumer.thy ===== *)
theory Consumer
  imports World Eventbus Scheduler
begin

text \<open>
  \<^verbatim>\<open>internal/consumer/consumer.go\<close>: a completed transaction becomes a membership of the
  open batch of its asset pair. \<open>handle\<close> is one event from the validation to the last metric;
  its part after the duplicate checks is \<open>join_batch\<close>. \<open>Run_events\<close> is the consumer loop
  over the events received before the context is canceled or the channel closed.
\<close>

section \<open>Operations\<close>

record DeadLetter =
  dl_Topic :: string
  dl_Payload :: TxCompletedEvent
  dl_Reason :: string
  dl_At :: time

text \<open>A send-only channel: whether a send would block, and the send.\<close>

record 's DLChan =
  dlc_full :: "'s \<Rightarrow> bool"
  dlc_send :: "DeadLetter \<Rightarrow> 's \<Rightarrow> 's"

record 's ConsumerDeps =
  cd_Topic :: string
  cd_Batches :: "'s BatchStore"
  cd_Memberships :: "'s MembershipStore"
  cd_Idem :: "'s IdemStore"
  cd_DeadLetters :: "'s DLChan option"
  cd_OnBatchOpen :: "(Batch \<Rightarrow> 's \<Rightarrow> 's) option"

definition deadLetter :: "'s Rt \<Rightarrow> 's ConsumerDeps \<Rightarrow> string \<Rightarrow> TxCompletedEvent \<Rightarrow> 's \<Rightarrow> 's" where
  "deadLetter rt d reason ev s =
     (case cd_DeadLetters d of
        None \<Rightarrow> s
      | Some ch \<Rightarrow>
          let (now, s1) = Now rt s
          in if dlc_full ch s1 then s1
             else dlc_send ch \<lparr>dl_Topic = cd_Topic d, dl_Payload = ev, dl_Reason = reason, dl_At = now\<rparr> s1)"

definition event_notional :: "TxCompletedEvent \<Rightarrow> decimal" where
  "event_notional ev = (if ev_NotionalUSD ev = 0 then ev_Amount ev else ev_NotionalUSD ev)"

definition event_membership :: "uuid \<Rightarrow> TxCompletedEvent \<Rightarrow> Membership" where
  "event_membership batchID ev =
     \<lparr>m_ID = [], m_BatchID = batchID, m_TxID = ev_TxID ev, m_Amount = ev_Amount ev,
      m_Asset = ev_Asset ev, m_FiatCurrency = ev_FiatCurrency ev,
      m_NotionalUSD = event_notional ev, m_UserID = ev_UserID ev, m_CreatedAt = zero_time\<rparr>"

definition join_batch :: "'s Rt \<Rightarrow> 's ConsumerDeps \<Rightarrow> TxCompletedEvent \<Rightarrow> string \<Rightarrow> 's \<Rightarrow> 's" where
  "join_batch rt d ev assetPair s =
     (case OpenBatch (cd_Batches d) assetPair s of
        (Inl e, s1) \<Rightarrow> Metric rt (EventsConsumed assetPair ''open_error'') s1
      | (Inr batch, s1) \<Rightarrow>
          let (existing, s2) = ListMemberships (cd_Memberships d) (b_ID batch) s1;
              isNew = (case existing of Inl _ \<Rightarrow> True | Inr ms \<Rightarrow> ms = [])
          in case AddMembership (cd_Memberships d) (event_membership (b_ID batch) ev) s2 of
               (Inl e, s3) \<Rightarrow> Metric rt (EventsConsumed assetPair ''store_error'') s3
             | (Inr _, s3) \<Rightarrow>
                 let s4 = (case cd_OnBatchOpen d of
                             None \<Rightarrow> s3
                           | Some h \<Rightarrow> if isNew then h batch s3 else s3);
                     (r, s5) = SumNotional (cd_Memberships d) (b_ID batch) s4;
                     (_, s6) = SetBatchNotional (cd_Batches d) (b_ID batch) (value_or_zero r) s5
                 in Metric rt (EventsConsumed assetPair ''ok'') s6)"

definition handle :: "'s Rt \<Rightarrow> 's ConsumerDeps \<Rightarrow> TxCompletedEvent \<Rightarrow> 's \<Rightarrow> 's" where
  "handle rt d ev s =
     (if ev_TxID ev = [] \<or> ev_Asset ev = []
      then Metric rt (DeadLettered (cd_Topic d)) (deadLetter rt d ''empty tx_id or asset'' ev s)
      else
        let assetPair = ev_Asset ev @ ''/'' @ ev_FiatCurrency ev
        in case CheckAndMark (cd_Idem d) (''tx:'' @ ev_TxID ev) (24 * hour) s of
             (Inl e, s1) \<Rightarrow> Metric rt (EventsConsumed assetPair ''idem_error'') s1
           | (Inr ok, s1) \<Rightarrow>
               if \<not> ok then Metric rt (EventsConsumed assetPair ''dup'') s1
               else (case ExistsByTxID (cd_Memberships d) (ev_TxID ev) s1 of
                       (Inl e, s2) \<Rightarrow> Metric rt (EventsConsumed assetPair ''store_error'') s2
                     | (Inr exists_, s2) \<Rightarrow>
                         if exists_ then Metric rt (EventsConsumed assetPair ''dup'') s2
                         else join_batch rt d ev assetPair s2))"

primrec Run_events :: "'s Rt \<Rightarrow> 's ConsumerDeps \<Rightarrow> TxCompletedEvent list \<Rightarrow> 's \<Rightarrow> 's" where
  "Run_events rt d [] s = s"
| "Run_events rt d (ev # evs) s = Run_events rt d evs (handle rt d ev s)"

section \<open>Batches and members together\<close>

text \<open>
  The tables of batches and members agree: every membership names a batch of the table whose
  pair is its asset and currency, and the notional stored on a batch is the sum over its
  members.
\<close>

definition pair_of_member :: "Membership \<Rightarrow> string" where
  "pair_of_member m = m_Asset m @ ''/'' @ m_FiatCurrency m"

definition members_placed :: "BatchTable \<Rightarrow> Membership list \<Rightarrow> bool" where
  "members_placed rows ms \<longleftrightarrow>
     (\<forall>m \<in> set ms. \<exists>b. batch_map rows (m_BatchID m) = Some b \<and> b_AssetPair b = pair_of_member m)"

definition notionals_agree :: "BatchTable \<Rightarrow> Membership list \<Rightarrow> bool" where
  "notionals_agree rows ms \<longleftrightarrow>
     (\<forall>uid b. batch_map rows uid = Some b \<longrightarrow> b_NotionalUSD b = notional_of uid ms)"

text \<open>
  The invariant of the state: the tables are consistent, agree, and every identifier in use
  was generated before the next one (identifiers do not repeat).
\<close>

definition core_inv :: "'x world \<Rightarrow> bool" where
  "core_inv w \<longleftrightarrow>
     inj (w_ids w) \<and> batch_inv (w_batch w) \<and> member_inv (w_member w) \<and>
     b_ID ` set (w_batch w) \<subseteq> ids_used w \<and>
     members_placed (w_batch w) (mt_rows (w_member w)) \<and>
     notionals_agree (w_batch w) (mt_rows (w_member w))"

lemma core_inv_new: "inj ids \<Longrightarrow> core_inv (NewAll clock ids ext)"
  by (simp add: core_inv_def NewAll_def member_inv_def NewMembershipStore_def members_placed_def
      notionals_agree_def)

lemma core_invD:
  assumes "core_inv w"
  shows "inj (w_ids w)" "batch_inv (w_batch w)" "member_inv (w_member w)"
    and "b_ID ` set (w_batch w) \<subseteq> ids_used w"
    and "members_placed (w_batch w) (mt_rows (w_member w))"
    and "notionals_agree (w_batch w) (mt_rows (w_member w))"
  using assms by (simp_all add: core_inv_def)

section \<open>The consumer on the in-memory stores\<close>

abbreviation W_cons ::
  "(float64 \<Rightarrow> decimal) \<Rightarrow> string \<Rightarrow> 'x world DLChan option \<Rightarrow> (Batch \<Rightarrow> 'x world \<Rightarrow> 'x world) option
   \<Rightarrow> 'x world ConsumerDeps" where
  "W_cons dec topic dl hook \<equiv>
     \<lparr>cd_Topic = topic, cd_Batches = W_batch dec, cd_Memberships = W_member dec,
      cd_Idem = W_idem dec, cd_DeadLetters = dl, cd_OnBatchOpen = hook\<rparr>"

text \<open>
  A hook is benign when it leaves alone the batches, the members, the orders, the float, the
  key store, and the generator's past; the audit hook of the application is.
\<close>

definition benign :: "('x world \<Rightarrow> 'x world) \<Rightarrow> bool" where
  "benign h \<longleftrightarrow>
     (\<forall>w. w_batch (h w) = w_batch w \<and> w_member (h w) = w_member w \<and> w_idem (h w) = w_idem w \<and>
          w_ids (h w) = w_ids w \<and> w_idn w \<le> w_idn (h w) \<and> w_clock (h w) = w_clock w \<and>
          w_reads w \<le> w_reads (h w) \<and> w_order (h w) = w_order w \<and> w_float (h w) = w_float w)"

lemma benignD:
  assumes "benign h"
  shows "w_batch (h w) = w_batch w" "w_member (h w) = w_member w" "w_idem (h w) = w_idem w"
    "w_ids (h w) = w_ids w" "w_idn w \<le> w_idn (h w)" "w_clock (h w) = w_clock w"
    "w_reads w \<le> w_reads (h w)" "w_order (h w) = w_order w" "w_float (h w) = w_float w"
  using assms by (simp_all add: benign_def)

definition run_hook :: "(Batch \<Rightarrow> 's \<Rightarrow> 's) option \<Rightarrow> bool \<Rightarrow> Batch \<Rightarrow> 's \<Rightarrow> 's" where
  "run_hook hook fire b s = (case hook of None \<Rightarrow> s | Some h \<Rightarrow> if fire then h b s else s)"

definition benign_hook :: "(Batch \<Rightarrow> 'x world \<Rightarrow> 'x world) option \<Rightarrow> bool" where
  "benign_hook hook \<longleftrightarrow> (case hook of None \<Rightarrow> True | Some h \<Rightarrow> \<forall>b. benign (h b))"

lemma run_hook_benign: "benign_hook hook \<Longrightarrow> benign (run_hook hook fire b)"
  by (auto simp: benign_hook_def run_hook_def benign_def split: option.splits)

lemma run_hookD:
  assumes "benign_hook hook"
  shows "w_batch (run_hook hook fire b w) = w_batch w" "w_member (run_hook hook fire b w) = w_member w"
    "w_idem (run_hook hook fire b w) = w_idem w" "w_ids (run_hook hook fire b w) = w_ids w"
    "w_idn w \<le> w_idn (run_hook hook fire b w)" "w_order (run_hook hook fire b w) = w_order w"
    "w_float (run_hook hook fire b w) = w_float w" "w_clock (run_hook hook fire b w) = w_clock w"
  using benignD [OF run_hook_benign [OF assms, of fire b], of w] by simp_all

text \<open>The effect of joining: the batch found or opened, the member added, the total stored.\<close>

definition opened :: "string \<Rightarrow> 'x world \<Rightarrow> Batch \<times> BatchTable" where
  "opened pair w = mb_OpenBatch (w_ids w (w_idn w)) (w_clock w (w_reads w)) pair (w_batch w)"

definition joined :: "TxCompletedEvent \<Rightarrow> string \<Rightarrow> 'x world \<Rightarrow> Membership" where
  "joined ev pair w = stamped (w_ids w (Suc (w_idn w))) (w_clock w (Suc (w_reads w)))
     (event_membership (b_ID (fst (opened pair w))) ev)"

lemma joined_fields [simp]:
  "m_BatchID (joined ev pair w) = b_ID (fst (opened pair w))"
  "m_TxID (joined ev pair w) = ev_TxID ev"
  "m_NotionalUSD (joined ev pair w) = event_notional ev"
  "pair_of_member (joined ev pair w) = ev_Asset ev @ ''/'' @ ev_FiatCurrency ev"
  by (simp_all add: joined_def event_membership_def pair_of_member_def stamped_def)

lemma join_batch_tables:
  assumes "benign_hook hook" and "\<not> mt_byTx (w_member w) (ev_TxID ev)"
    and "w' = join_batch (world_rt dec) (W_cons dec topic dl hook) ev pair w"
  shows "w_member w' = \<lparr>mt_rows = mt_rows (w_member w) @ [joined ev pair w],
                         mt_byTx = (mt_byTx (w_member w))(ev_TxID ev := True)\<rparr>"
    and "w_batch w' = snd (mb_SetBatchNotional (b_ID (fst (opened pair w)))
      (notional_of (b_ID (fst (opened pair w))) (mt_rows (w_member w'))) (snd (opened pair w)))"
    and "w_ids w' = w_ids w" and "Suc (w_idn w) \<le> w_idn w'" and "w_idem w' = w_idem w"
    and "w_order w' = w_order w" and "w_float w' = w_float w" and "w_clock w' = w_clock w"
proof -
  have [simp]: "m_TxID (event_membership b ev) = ev_TxID ev" for b
    by (simp add: event_membership_def)
  let ?fire = "mm_ListMemberships (b_ID (fst (opened pair w))) (w_member w) = []"
  obtain v where v: "v = run_hook hook ?fire (fst (opened pair w))
      (w\<lparr>w_batch := snd (opened pair w), w_reads := Suc (Suc (w_reads w)), w_idn := Suc (Suc (w_idn w)),
         w_member := \<lparr>mt_rows = mt_rows (w_member w) @ [joined ev pair w],
                         mt_byTx = (mt_byTx (w_member w))(ev_TxID ev := True)\<rparr>\<rparr>)" by simp
  have w': "w' = v\<lparr>w_batch := snd (mb_SetBatchNotional (b_ID (fst (opened pair w)))
      (mm_SumNotional (b_ID (fst (opened pair w))) (w_member v)) (w_batch v)),
      w_metrics := w_metrics v @ [EventsConsumed pair ''ok'']\<rparr>"
    using assms(2) unfolding assms(3) v
    by (simp add: join_batch_def W_simps Let_def opened_def joined_def mm_AddMembership_cases
        value_or_zero_def run_hook_def split: option.split)
  have "w_batch v = snd (opened pair w)" and ids: "w_ids v = w_ids w" and idem: "w_idem v = w_idem w"
    and mem: "w_member v = \<lparr>mt_rows = mt_rows (w_member w) @ [joined ev pair w],
                         mt_byTx = (mt_byTx (w_member w))(ev_TxID ev := True)\<rparr>"
    by (simp_all add: v run_hookD(1-4) [OF assms(1)])
  moreover have "w_order v = w_order w" "w_float v = w_float w" "w_clock v = w_clock w"
    by (simp_all add: v run_hookD(6-8) [OF assms(1)])
  moreover have "Suc (Suc (w_idn w)) \<le> w_idn v"
    unfolding v by (rule order_trans [OF _ run_hookD(5) [OF assms(1)]]) simp
  ultimately show "w_member w' = \<lparr>mt_rows = mt_rows (w_member w) @ [joined ev pair w],
                         mt_byTx = (mt_byTx (w_member w))(ev_TxID ev := True)\<rparr>"
    and "w_batch w' = snd (mb_SetBatchNotional (b_ID (fst (opened pair w)))
      (notional_of (b_ID (fst (opened pair w))) (mt_rows (w_member w'))) (snd (opened pair w)))"
    and "w_ids w' = w_ids w" and "Suc (w_idn w) \<le> w_idn w'" and "w_idem w' = w_idem w"
    and "w_order w' = w_order w" and "w_float w' = w_float w" and "w_clock w' = w_clock w"
    by (simp_all add: w' mm_SumNotional_eq)
qed

section \<open>The consumer keeps the tables in agreement\<close>

text \<open>
  Joining on the tables alone: with a fresh identifier for a batch that may have to be opened,
  the tables stay consistent and in agreement.
\<close>

lemma join_tables_inv:
  assumes inv: "batch_inv rows" and fresh: "uid \<notin> b_ID ` set rows"
    and placed: "members_placed rows ms" and agree: "notionals_agree rows ms"
    and ob: "(b, rows1) = mb_OpenBatch uid now p rows"
    and m: "m_BatchID m = b_ID b" "pair_of_member m = p"
    and rows2: "rows2 = snd (mb_SetBatchNotional (b_ID b) (notional_of (b_ID b) (ms @ [m])) rows1)"
  shows "batch_inv rows2" and "b_ID ` set rows2 \<subseteq> insert uid (b_ID ` set rows)"
    and "members_placed rows2 (ms @ [m])" and "notionals_agree rows2 (ms @ [m])"
proof -
  have b: "b = fst (mb_OpenBatch uid now p rows)" and rows1: "rows1 = snd (mb_OpenBatch uid now p rows)"
    using ob by (metis fst_conv, metis snd_conv)
  have dist: "distinct (map b_ID rows)" using inv by (simp add: batch_inv_def)
  have map1: "batch_map rows1 = (batch_map rows)(b_ID b \<mapsto> b)"
    unfolding b rows1 by (rule mb_OpenBatch_map [OF dist fresh])
  have map2: "batch_map rows2 =
      (batch_map rows)(b_ID b \<mapsto> b\<lparr>b_NotionalUSD := notional_of (b_ID b) (ms @ [m])\<rparr>)"
    by (simp add: rows2 mb_SetBatchNotional_map map1)
  have pair: "b_AssetPair b = p" using mb_OpenBatch_open [of p uid now rows] by (simp add: b isOpenFor_def)
  have "batch_inv rows1" unfolding rows1 by (rule batch_inv_open [OF inv fresh])
  then show "batch_inv rows2" by (simp add: rows2 batch_inv_notional)
  show "b_ID ` set rows2 \<subseteq> insert uid (b_ID ` set rows)"
    using mb_OpenBatch_ids [of uid now p rows] mb_SetBatchNotional_ids [of "b_ID b" _ rows1]
    unfolding rows1 [symmetric] rows2 by (metis image_set)
  show "members_placed rows2 (ms @ [m])"
  proof (unfold members_placed_def, intro ballI)
    fix x
    assume "x \<in> set (ms @ [m])"
    then consider "x = m" | "x \<in> set ms" by auto
    then show "\<exists>b'. batch_map rows2 (m_BatchID x) = Some b' \<and> b_AssetPair b' = pair_of_member x"
    proof cases
      case 1
      with m pair show ?thesis by (simp add: map2)
    next
      case 2
      then obtain b' where b': "batch_map rows (m_BatchID x) = Some b'" "b_AssetPair b' = pair_of_member x"
        using placed by (auto simp: members_placed_def)
      moreover have "m_BatchID x = b_ID b \<Longrightarrow> b_AssetPair b = b_AssetPair b'"
        using b'(1) mb_OpenBatch_existing [OF dist fresh, of now p] b by simp
      ultimately show ?thesis by (auto simp: map2)
    qed
  qed
  show "notionals_agree rows2 (ms @ [m])"
    using agree m(1) by (auto simp: notionals_agree_def map2)
qed

lemma join_batch_core_inv:
  assumes inv: "core_inv w" and hook: "benign_hook hook" and new: "\<not> mt_byTx (w_member w) (ev_TxID ev)"
    and pair: "pair = ev_Asset ev @ ''/'' @ ev_FiatCurrency ev"
    and w': "w' = join_batch (world_rt dec) (W_cons dec topic dl hook) ev pair w"
  shows "core_inv w'"
proof -
  note t = join_batch_tables [OF hook new w']
  have rows: "mt_rows (w_member w') = mt_rows (w_member w) @ [joined ev pair w]" by (simp add: t(1))
  have fresh: "w_ids w (w_idn w) \<notin> b_ID ` set (w_batch w)"
    using next_id_fresh [OF core_invD(1) [OF inv]] core_invD(4) [OF inv] by blast
  have ob: "(fst (opened pair w), snd (opened pair w)) =
      mb_OpenBatch (w_ids w (w_idn w)) (w_clock w (w_reads w)) pair (w_batch w)"
    by (simp add: opened_def)
  note j = join_tables_inv [OF core_invD(2) [OF inv] fresh core_invD(5,6) [OF inv] ob
      joined_fields(1), unfolded joined_fields, OF pair [symmetric] t(2) [unfolded rows]]
  have "insert (w_ids w (w_idn w)) (ids_used w) \<subseteq> ids_used w'"
    using t(3,4) by (force simp: ids_used_def)
  with j(2) core_invD(4) [OF inv] have ids: "b_ID ` set (w_batch w') \<subseteq> ids_used w'" by blast
  have "member_inv (w_member w')"
    using core_invD(3) [OF inv] new by (auto simp: t(1) member_inv_def)
  with j ids core_invD(1) [OF inv] show ?thesis
    by (simp add: core_inv_def rows t(3))
qed

definition benign_chan :: "'x world DLChan option \<Rightarrow> bool" where
  "benign_chan dl \<longleftrightarrow> (case dl of None \<Rightarrow> True | Some ch \<Rightarrow> \<forall>x. benign (dlc_send ch x))"

lemma core_inv_benign: "benign h \<Longrightarrow> core_inv w \<Longrightarrow> core_inv (h w)"
  using benignD [of h w] by (force simp: core_inv_def ids_used_def)

lemma core_inv_frame:
  "core_inv (w\<lparr>w_metrics := ms\<rparr>) = core_inv w" "core_inv (w\<lparr>w_reads := n\<rparr>) = core_inv w"
  "core_inv (w\<lparr>w_idem := k\<rparr>) = core_inv w" "core_inv (w\<lparr>w_reads := n, w_idem := k\<rparr>) = core_inv w"
  by (simp_all add: core_inv_def ids_used_def)

lemma deadLetter_core_inv:
  assumes "benign_chan dl" and "core_inv w"
  shows "core_inv (deadLetter (world_rt dec) (W_cons dec topic dl hook) why ev w)"
proof (cases dl)
  case None
  with assms show ?thesis by (simp add: deadLetter_def)
next
  case (Some ch)
  with assms(1) have "benign (dlc_send ch x)" for x by (simp add: benign_chan_def)
  note core_inv_benign [OF this]
  with assms(2) Some show ?thesis by (simp add: deadLetter_def Let_def core_inv_frame)
qed

text \<open>The event as the state sees it: what \<open>handle\<close> does after the validation.\<close>

definition claimed :: "TxCompletedEvent \<Rightarrow> 'x world \<Rightarrow> bool" where
  "claimed ev w = held (ms_seen (w_idem w)) (w_clock w (w_reads w)) (''tx:'' @ ev_TxID ev)"

definition marked :: "TxCompletedEvent \<Rightarrow> 'x world \<Rightarrow> 'x world" where
  "marked ev w = w\<lparr>w_reads := Suc (w_reads w),
     w_idem := snd (ms_CheckAndMark (w_clock w (w_reads w)) (''tx:'' @ ev_TxID ev) (24 * hour) (w_idem w))\<rparr>"

lemma marked_fields [simp]:
  "w_batch (marked ev w) = w_batch w" "w_member (marked ev w) = w_member w"
  "w_metrics (marked ev w) = w_metrics w" "w_ids (marked ev w) = w_ids w" "w_idn (marked ev w) = w_idn w"
  "core_inv (marked ev w) = core_inv w" "w_clock (marked ev w) = w_clock w"
  by (simp_all add: marked_def core_inv_frame)

lemma marked_claim: "fst (ms_CheckAndMark (w_clock w (w_reads w)) (''tx:'' @ ev_TxID ev) (24 * hour) (w_idem w))
    \<longleftrightarrow> \<not> claimed ev w"
  using ms_claim_seen [of "w_clock w (w_reads w)" "''tx:'' @ ev_TxID ev" "24 * hour" "w_idem w"]
  by (cases "ms_CheckAndMark (w_clock w (w_reads w)) (''tx:'' @ ev_TxID ev) (24 * hour) (w_idem w)")
     (simp add: claimed_def)

lemma handle_world:
  assumes "ev_TxID ev \<noteq> []" and "ev_Asset ev \<noteq> []" and "pair = ev_Asset ev @ ''/'' @ ev_FiatCurrency ev"
  shows "handle (world_rt dec) (W_cons dec topic dl hook) ev w =
    (if claimed ev w \<or> mt_byTx (w_member w) (ev_TxID ev)
     then (marked ev w)\<lparr>w_metrics := w_metrics w @ [EventsConsumed pair ''dup'']\<rparr>
     else join_batch (world_rt dec) (W_cons dec topic dl hook) ev pair (marked ev w))"
proof -
  have "handle (world_rt dec) (W_cons dec topic dl hook) ev w =
    (if claimed ev w then (marked ev w)\<lparr>w_metrics := w_metrics w @ [EventsConsumed pair ''dup'']\<rparr>
     else if mt_byTx (w_member w) (ev_TxID ev)
     then (marked ev w)\<lparr>w_metrics := w_metrics w @ [EventsConsumed pair ''dup'']\<rparr>
     else join_batch (world_rt dec) (W_cons dec topic dl hook) ev pair (marked ev w))"
    using assms marked_claim [of w ev]
    by (simp add: handle_def W_simps Let_def marked_def mm_ExistsByTxID_def)
  then show ?thesis by simp
qed

lemma handle_invalid:
  "ev_TxID ev = [] \<or> ev_Asset ev = [] \<Longrightarrow>
   handle (world_rt dec) (W_cons dec topic dl hook) ev w =
     (let v = deadLetter (world_rt dec) (W_cons dec topic dl hook) ''empty tx_id or asset'' ev w
      in v\<lparr>w_metrics := w_metrics v @ [DeadLettered topic]\<rparr>)"
  by (auto simp: handle_def Let_def)

lemma handle_core_inv:
  assumes "core_inv w" and "benign_hook hook" and "benign_chan dl"
  shows "core_inv (handle (world_rt dec) (W_cons dec topic dl hook) ev w)"
proof (cases "ev_TxID ev = [] \<or> ev_Asset ev = []")
  case True
  with assms show ?thesis by (simp add: handle_invalid Let_def core_inv_frame deadLetter_core_inv)
next
  case False
  then show ?thesis
    using assms join_batch_core_inv [OF _ assms(2) _ refl refl, of "marked ev w"]
    by (auto simp: handle_world core_inv_frame)
qed

lemma Run_events_core_inv:
  "core_inv w \<Longrightarrow> benign_hook hook \<Longrightarrow> benign_chan dl \<Longrightarrow>
   core_inv (Run_events (world_rt dec) (W_cons dec topic dl hook) evs w)"
  by (induction evs arbitrary: w) (simp_all add: handle_core_inv)

section \<open>The members as a function of the stream\<close>

text \<open>
  A transaction that is a member is never added again: a replay of its event, however late,
  leaves every table as it was.
\<close>

lemma handle_replay:
  assumes "ev_TxID ev \<noteq> []" and "ev_Asset ev \<noteq> []" and "mt_byTx (w_member w) (ev_TxID ev)"
    and "w' = handle (world_rt dec) (W_cons dec topic dl hook) ev w"
  shows "w_member w' = w_member w \<and> w_batch w' = w_batch w"
  using assms(3) by (simp add: assms(4) handle_world [OF assms(1,2) refl])

text \<open>An event whose transaction is neither claimed nor a member adds one membership.\<close>

lemma handle_fresh:
  assumes "ev_TxID ev \<noteq> []" and "ev_Asset ev \<noteq> []" and "benign_hook hook"
    and "\<not> mt_byTx (w_member w) (ev_TxID ev)" and "\<not> claimed ev w"
    and pair: "pair = ev_Asset ev @ ''/'' @ ev_FiatCurrency ev"
    and w': "w' = handle (world_rt dec) (W_cons dec topic dl hook) ev w"
  shows "mt_rows (w_member w') = mt_rows (w_member w) @ [joined ev pair (marked ev w)]"
    and "mt_byTx (w_member w') (ev_TxID ev)"
  using assms join_batch_tables(1) [OF assms(3) _ refl, of "marked ev w" ev dec topic dl pair]
  by (simp_all add: handle_world)

section \<open>The specification of the consumer\<close>

text \<open>
  The events a stream amounts to: the valid ones, each transaction at its first occurrence.
\<close>

definition valid_event :: "TxCompletedEvent \<Rightarrow> bool" where
  "valid_event ev \<longleftrightarrow> ev_TxID ev \<noteq> [] \<and> ev_Asset ev \<noteq> []"

fun accepted :: "string set \<Rightarrow> TxCompletedEvent list \<Rightarrow> TxCompletedEvent list" where
  "accepted known [] = []"
| "accepted known (ev # evs) =
     (if valid_event ev \<and> ev_TxID ev \<notin> known
      then ev # accepted (insert (ev_TxID ev) known) evs
      else accepted known evs)"

text \<open>What a membership keeps of its event.\<close>

definition event_view :: "TxCompletedEvent \<Rightarrow> string \<times> decimal \<times> decimal \<times> string \<times> string" where
  "event_view ev = (ev_TxID ev, ev_Amount ev, event_notional ev, ev_UserID ev, ev_Asset ev @ ''/'' @ ev_FiatCurrency ev)"

definition member_view :: "Membership \<Rightarrow> string \<times> decimal \<times> decimal \<times> string \<times> string" where
  "member_view m = (m_TxID m, m_Amount m, m_NotionalUSD m, m_UserID m, pair_of_member m)"

lemma joined_view: "member_view (joined ev (ev_Asset ev @ ''/'' @ ev_FiatCurrency ev) w) = event_view ev"
  by (simp add: member_view_def event_view_def joined_def stamped_def event_membership_def pair_of_member_def)

text \<open>A claimed transaction is a member: the key store never refuses an event it should not.\<close>

definition claims_ok :: "'x world \<Rightarrow> bool" where
  "claims_ok w \<longleftrightarrow> (\<forall>tx. ms_seen (w_idem w) (''tx:'' @ tx) \<noteq> None \<longrightarrow> mt_byTx (w_member w) tx)"

lemma claimed_member: "claims_ok w \<Longrightarrow> claimed ev w \<Longrightarrow> mt_byTx (w_member w) (ev_TxID ev)"
  by (auto simp: claims_ok_def claimed_def held_def split: option.splits)

lemma deadLetter_frame:
  "benign_chan dl \<Longrightarrow> w_member (deadLetter (world_rt dec) (W_cons dec topic dl hook) why ev w) = w_member w \<and>
     w_idem (deadLetter (world_rt dec) (W_cons dec topic dl hook) why ev w) = w_idem w"
  using benignD(2,3) [of "dlc_send (the dl) _"]
  by (auto simp: deadLetter_def benign_chan_def Let_def split: option.splits)

lemma handle_accepts:
  assumes "claims_ok w" and hook: "benign_hook hook" and "benign_chan dl"
    and w': "w' = handle (world_rt dec) (W_cons dec topic dl hook) ev w"
  shows "claims_ok w'" and
    "map member_view (mt_rows (w_member w')) @ map event_view (accepted (Collect (mt_byTx (w_member w'))) evs) =
     map member_view (mt_rows (w_member w)) @ map event_view (accepted (Collect (mt_byTx (w_member w))) (ev # evs))"
proof -
  let ?pair = "ev_Asset ev @ ''/'' @ ev_FiatCurrency ev"
  have "claims_ok w' \<and>
    map member_view (mt_rows (w_member w')) @ map event_view (accepted (Collect (mt_byTx (w_member w'))) evs) =
     map member_view (mt_rows (w_member w)) @ map event_view (accepted (Collect (mt_byTx (w_member w))) (ev # evs))"
  proof (cases "valid_event ev")
    case False
    then show ?thesis
      using assms(1) deadLetter_frame [OF assms(3)]
      by (auto simp: w' handle_invalid valid_event_def Let_def claims_ok_def)
  next
    case True
    then have v: "ev_TxID ev \<noteq> []" "ev_Asset ev \<noteq> []" by (simp_all add: valid_event_def)
    show ?thesis
    proof (cases "mt_byTx (w_member w) (ev_TxID ev)")
      case known: True
      with assms(1) have "claims_ok (marked ev w)"
        by (auto simp: claims_ok_def marked_def ms_CheckAndMark_def split: option.splits if_splits)
      with known show ?thesis by (simp add: w' handle_world [OF v refl] claims_ok_def)
    next
      case new: False
      with claimed_member [OF assms(1)] have "\<not> claimed ev w" by blast
      then have h: "w' = join_batch (world_rt dec) (W_cons dec topic dl hook) ev ?pair (marked ev w)"
        using new by (simp add: w' handle_world [OF v refl])
      have new': "\<not> mt_byTx (w_member (marked ev w)) (ev_TxID ev)" using new by simp
      note t = join_batch_tables(1,5) [OF hook new' h]
      have "ms_seen (w_idem w') k \<noteq> None \<Longrightarrow> k = ''tx:'' @ ev_TxID ev \<or> ms_seen (w_idem w) k \<noteq> None" for k
        by (auto simp: t(2) marked_def ms_CheckAndMark_def split: option.splits if_splits)
      with assms(1) have "claims_ok w'" by (fastforce simp: claims_ok_def t(1))
      moreover have "Collect (mt_byTx (w_member w')) = insert (ev_TxID ev) (Collect (mt_byTx (w_member w)))"
        by (auto simp: t(1))
      ultimately show ?thesis using True new by (simp add: t(1) joined_view [simplified])
    qed
  qed
  then show "claims_ok w'"
    "map member_view (mt_rows (w_member w')) @ map event_view (accepted (Collect (mt_byTx (w_member w'))) evs) =
     map member_view (mt_rows (w_member w)) @ map event_view (accepted (Collect (mt_byTx (w_member w))) (ev # evs))"
    by simp_all
qed

text \<open>The members after a stream are the members before and its accepted events, in order.\<close>

lemma Run_events_accepted:
  assumes "claims_ok w" and "benign_hook hook" and "benign_chan dl"
  shows "map member_view (mt_rows (w_member (Run_events (world_rt dec) (W_cons dec topic dl hook) evs w))) =
    map member_view (mt_rows (w_member w)) @ map event_view (accepted (Collect (mt_byTx (w_member w))) evs)"
  using assms(1)
proof (induction evs arbitrary: w)
  case Nil
  then show ?case by simp
next
  case (Cons ev evs)
  let ?w = "handle (world_rt dec) (W_cons dec topic dl hook) ev w"
  from handle_accepts [OF Cons.prems assms(2,3) refl] Cons.IH [of ?w] show ?case by simp
qed

lemma claims_ok_new: "claims_ok (NewAll clock ids ext)"
  by (simp add: claims_ok_def NewAll_def NewMem_def)

text \<open>The sum over all members, and so over all batches, is that of the accepted events.\<close>

lemma accepted_new: "tx \<in> ev_TxID ` set (accepted known evs) \<Longrightarrow> tx \<notin> known"
  by (induction known evs rule: accepted.induct) (force split: if_splits)+

lemma accepted_distinct: "distinct (map ev_TxID (accepted known evs))"
proof (induction known evs rule: accepted.induct)
  case (1 known)
  then show ?case by simp
next
  case (2 known ev evs)
  then show ?case
    using accepted_new [of "ev_TxID ev" "insert (ev_TxID ev) known" evs] by auto
qed

lemma accepted_covers:
  "ev \<in> set evs \<Longrightarrow> valid_event ev \<Longrightarrow> ev_TxID ev \<in> known \<or> ev_TxID ev \<in> ev_TxID ` set (accepted known evs)"
  by (induction known evs rule: accepted.induct) (auto split: if_splits)

lemma accepted_subset: "ev \<in> set (accepted known evs) \<Longrightarrow> ev \<in> set evs \<and> valid_event ev"
  by (induction known evs rule: accepted.induct) (auto split: if_splits)

end
