(* ===== verification/Retry.thy ===== *)
theory Retry
  imports Idempotency
begin

text \<open>
  \<^verbatim>\<open>internal/clients/retry.go\<close>: the circuit breaker and \<open>Do\<close>, the retry loop every
  resilient client runs. A breaker is a record; its operations take the reading of the clock.
  \<open>Do\<close> runs over a program state in which the breaker is reached through a reference.

  The abstract specification of the breaker is a count of the failures since the last success
  with the instant of the last failure: \<open>breaker_refines\<close>.
\<close>

section \<open>The circuit breaker\<close>

record RetryOptions =
  ro_MaxAttempts :: int
  ro_Backoff :: duration

definition DefaultRetry :: RetryOptions where
  "DefaultRetry = \<lparr>ro_MaxAttempts = 3, ro_Backoff = 100 * millisecond\<rparr>"

record CircuitBreaker =
  cb_failures :: int
  cb_failThreshold :: int
  cb_resetTimeout :: duration
  cb_openedAt :: time
  cb_open :: bool
  cb_halfOpen :: bool

definition NewCircuitBreaker :: "int \<Rightarrow> duration \<Rightarrow> CircuitBreaker" where
  "NewCircuitBreaker failThreshold resetTimeout =
     \<lparr>cb_failures = 0, cb_failThreshold = failThreshold, cb_resetTimeout = resetTimeout,
      cb_openedAt = zero_time, cb_open = False, cb_halfOpen = False\<rparr>"

definition DefaultCircuitBreaker :: CircuitBreaker where
  "DefaultCircuitBreaker = NewCircuitBreaker 5 (10 * second)"

definition Allow :: "time \<Rightarrow> CircuitBreaker \<Rightarrow> bool \<times> CircuitBreaker" where
  "Allow now c =
     (if \<not> cb_open c then (True, c)
      else if Since now (cb_openedAt c) \<ge> cb_resetTimeout c then (True, c\<lparr>cb_halfOpen := True\<rparr>)
      else (False, c))"

definition RecordSuccess :: "CircuitBreaker \<Rightarrow> CircuitBreaker" where
  "RecordSuccess c = c\<lparr>cb_failures := 0, cb_open := False, cb_halfOpen := False\<rparr>"

definition RecordFailure :: "time \<Rightarrow> CircuitBreaker \<Rightarrow> CircuitBreaker" where
  "RecordFailure now c =
     (if cb_halfOpen c then c\<lparr>cb_open := True, cb_openedAt := now, cb_halfOpen := False\<rparr>
      else
        let c1 = c\<lparr>cb_failures := cb_failures c + 1\<rparr>
        in if cb_failures c1 \<ge> cb_failThreshold c1 then c1\<lparr>cb_open := True, cb_openedAt := now\<rparr> else c1)"

definition IsOpen :: "time \<Rightarrow> CircuitBreaker \<Rightarrow> bool" where
  "IsOpen now c \<longleftrightarrow> cb_open c \<and> Since now (cb_openedAt c) < cb_resetTimeout c"

section \<open>The retry loop\<close>

text \<open>
  A reference to a breaker in the program state. \<open>wait d\<close> is the \<open>select\<close> between the
  context and a timer of \<open>d\<close>: the error of the context when that is the branch taken. The
  value \<open>'r\<close> is what the closure \<open>fn\<close> leaves in the variable it captures when it succeeds
  (\<open>unit\<close> when it captures none).
\<close>

record 's CBRef =
  cbr_get :: "'s \<Rightarrow> CircuitBreaker"
  cbr_put :: "CircuitBreaker \<Rightarrow> 's \<Rightarrow> 's"

type_synonym 's wait = "duration \<Rightarrow> 's \<Rightarrow> error option \<times> 's"

definition cb_allow :: "'s Rt \<Rightarrow> 's CBRef \<Rightarrow> 's \<Rightarrow> bool \<times> 's" where
  "cb_allow rt r s =
     (let (now, s1) = Now rt s; (ok, c) = Allow now (cbr_get r s1) in (ok, cbr_put r c s1))"

definition cb_success :: "'s CBRef option \<Rightarrow> 's \<Rightarrow> 's" where
  "cb_success cb s = (case cb of None \<Rightarrow> s | Some r \<Rightarrow> cbr_put r (RecordSuccess (cbr_get r s)) s)"

definition cb_failure :: "'s Rt \<Rightarrow> 's CBRef option \<Rightarrow> 's \<Rightarrow> 's" where
  "cb_failure rt cb s =
     (case cb of
        None \<Rightarrow> s
      | Some r \<Rightarrow> let (now, s1) = Now rt s in cbr_put r (RecordFailure now (cbr_get r s1)) s1)"

text \<open>\<open>do_loop n\<close> makes one attempt, and up to \<open>n\<close> more.\<close>

primrec do_loop ::
  "nat \<Rightarrow> 's Rt \<Rightarrow> 's wait \<Rightarrow> RetryOptions \<Rightarrow> 's CBRef option \<Rightarrow> ('s \<Rightarrow> (error + 'r) \<times> 's)
   \<Rightarrow> 's \<Rightarrow> (error + 'r) \<times> 's" where
  "do_loop 0 rt wait opts cb fn s =
     (case fn s of
        (Inr r, s1) \<Rightarrow> (Inr r, cb_success cb s1)
      | (Inl err, s1) \<Rightarrow>
          if errors_Is err ClientErrConflict \<or> errors_Is err ClientErrBadRequest
          then (Inl err, cb_failure rt cb s1)
          else if cb \<noteq> None \<and> errors_Is err ErrCircuitOpen then (Inl err, s1)
          else (Inl err, cb_failure rt cb s1))"
| "do_loop (Suc n) rt wait opts cb fn s =
     (case fn s of
        (Inr r, s1) \<Rightarrow> (Inr r, cb_success cb s1)
      | (Inl err, s1) \<Rightarrow>
          if errors_Is err ClientErrConflict \<or> errors_Is err ClientErrBadRequest
          then (Inl err, cb_failure rt cb s1)
          else if cb \<noteq> None \<and> errors_Is err ErrCircuitOpen then (Inl err, s1)
          else
            (case wait (ro_Backoff opts) s1 of
               (Some ctxErr, s2) \<Rightarrow> (Inl ctxErr, s2)
             | (None, s2) \<Rightarrow> do_loop n rt wait opts cb fn s2))"

definition attempts_of :: "RetryOptions \<Rightarrow> nat" where
  "attempts_of opts = nat (if ro_MaxAttempts opts < 1 then 1 else ro_MaxAttempts opts)"

definition Do ::
  "'s Rt \<Rightarrow> 's wait \<Rightarrow> RetryOptions \<Rightarrow> 's CBRef option \<Rightarrow> ('s \<Rightarrow> (error + 'r) \<times> 's)
   \<Rightarrow> 's \<Rightarrow> (error + 'r) \<times> 's" where
  "Do rt wait opts cb fn s =
     (case cb of
        None \<Rightarrow> do_loop (attempts_of opts - 1) rt wait opts cb fn s
      | Some r \<Rightarrow>
          let (ok, s1) = cb_allow rt r s
          in if \<not> ok then (Inl ErrCircuitOpen, s1)
             else do_loop (attempts_of opts - 1) rt wait opts cb fn s1)"

section \<open>The breaker against its specification\<close>

datatype cb_event = CallAllowed time | CallSucceeded | CallFailed time

primrec cb_step :: "CircuitBreaker \<Rightarrow> cb_event \<Rightarrow> CircuitBreaker" where
  "cb_step c (CallAllowed t) = snd (Allow t c)"
| "cb_step c CallSucceeded = RecordSuccess c"
| "cb_step c (CallFailed t) = RecordFailure t c"

definition cb_run :: "CircuitBreaker \<Rightarrow> cb_event list \<Rightarrow> CircuitBreaker" where
  "cb_run c evs = foldl cb_step c evs"

text \<open>
  The specification forgets the half-open flag: it keeps the number of failures since the
  last success and the instant of the last one.
\<close>

primrec spec_step :: "nat \<times> time \<Rightarrow> cb_event \<Rightarrow> nat \<times> time" where
  "spec_step st (CallAllowed t) = st"
| "spec_step st CallSucceeded = (0, snd st)"
| "spec_step st (CallFailed t) = (Suc (fst st), t)"

definition spec_run :: "cb_event list \<Rightarrow> nat \<times> time" where
  "spec_run evs = foldl spec_step (0, 0) evs"

definition spec_allows :: "int \<Rightarrow> duration \<Rightarrow> nat \<times> time \<Rightarrow> time \<Rightarrow> bool" where
  "spec_allows n d st now \<longleftrightarrow> int (fst st) < n \<or> Since now (snd st) \<ge> d"

definition cb_sim :: "int \<Rightarrow> duration \<Rightarrow> CircuitBreaker \<Rightarrow> nat \<times> time \<Rightarrow> bool" where
  "cb_sim n d c st \<longleftrightarrow>
     cb_failThreshold c = n \<and> cb_resetTimeout c = d \<and> (cb_halfOpen c \<longrightarrow> cb_open c) \<and>
     (if cb_open c then int (fst st) \<ge> n \<and> cb_failures c \<ge> n \<and> cb_openedAt c = snd st
      else int (fst st) < n \<and> cb_failures c = int (fst st))"

lemma cb_sim_new: "0 < n \<Longrightarrow> cb_sim n d (NewCircuitBreaker n d) (0, 0)"
  by (simp add: cb_sim_def NewCircuitBreaker_def)

lemma cb_sim_step: "0 < n \<Longrightarrow> cb_sim n d c st \<Longrightarrow> cb_sim n d (cb_step c e) (spec_step st e)"
  by (cases e) (auto simp: cb_sim_def Allow_def RecordSuccess_def RecordFailure_def Let_def split: if_splits)

lemma cb_sim_allow: "cb_sim n d c st \<Longrightarrow> fst (Allow now c) = spec_allows n d st now"
  by (auto simp: cb_sim_def Allow_def spec_allows_def)

lemma cb_sim_run:
  assumes "0 < n"
  shows "cb_sim n d c st \<Longrightarrow> cb_sim n d (cb_run c evs) (foldl spec_step st evs)"
  by (induction evs arbitrary: c st) (simp_all add: cb_run_def cb_sim_step [OF assms])

lemma breaker_refines:
  "0 < n \<Longrightarrow> fst (Allow now (cb_run (NewCircuitBreaker n d) evs)) = spec_allows n d (spec_run evs) now"
  unfolding spec_run_def by (rule cb_sim_allow [OF cb_sim_run [OF _ cb_sim_new]])

section \<open>The loop\<close>

text \<open>
  What the loop relies on: the breaker's slot is independent of the clock. \<open>calls\<close> records the
  calls of \<open>fn\<close>, each of which makes the same request; the rest of the loop makes none.
\<close>

locale retry_env =
  fixes rt :: "'s Rt" and wait :: "'s wait" and cb :: "'s CBRef option"
    and fn :: "'s \<Rightarrow> (error + 'r) \<times> 's" and calls :: "'s \<Rightarrow> 'q list" and req :: 'q
  assumes calls_fn: "calls (snd (fn s)) = calls s @ [req]"
    and calls_wait: "calls (snd (wait d s)) = calls s"
    and calls_now: "calls (snd (Now rt s)) = calls s"
    and calls_put: "cb = Some r \<Longrightarrow> calls (cbr_put r c s) = calls s"
begin

lemma calls_record: "calls (cb_success cb s) = calls s" "calls (cb_failure rt cb s) = calls s"
  by (auto simp: cb_success_def cb_failure_def Let_def case_prod_beta calls_now calls_put split: option.split)

lemma loop_calls:
  "\<exists>k. 0 < k \<and> k \<le> Suc n \<and> calls (snd (do_loop n rt wait opts cb fn s)) = calls s @ replicate k req"
proof (induction n arbitrary: s)
  case 0
  show ?case using calls_fn [of s]
    by (intro exI [of _ 1]; cases "fn s") (auto simp: calls_record split: sum.split)
next
  case (Suc n)
  obtain x s1 where f: "fn s = (x, s1)" by fastforce
  obtain y s2 where w: "wait (ro_Backoff opts) s1 = (y, s2)" by fastforce
  have c: "calls s1 = calls s @ [req]" "calls s2 = calls s @ [req]"
    using calls_fn [of s] calls_wait [of "ro_Backoff opts" s1] f w by simp_all
  obtain k where k: "k \<le> Suc n" "calls (snd (do_loop n rt wait opts cb fn s2)) = calls s2 @ replicate k req"
    using Suc.IH by blast
  have "calls (snd (do_loop (Suc n) rt wait opts cb fn s)) \<in> {calls s1, calls s2, calls s2 @ replicate k req}"
    using f w k(2) by (auto simp: calls_record split: sum.split option.split)
  then consider "calls (snd (do_loop (Suc n) rt wait opts cb fn s)) = calls s @ replicate 1 req"
    | "calls (snd (do_loop (Suc n) rt wait opts cb fn s)) = calls s @ replicate (Suc k) req"
    using c by auto
  then show ?case
  proof cases
    case 1
    then show ?thesis by (intro exI [of _ 1]) simp
  next
    case 2
    then show ?thesis using k(1) by (intro exI [of _ "Suc k"]) simp
  qed
qed

text \<open>Between one and \<open>MaxAttempts\<close> calls are made, all of them the same; none when the circuit is open.\<close>

lemma Do_calls: "\<exists>k. k \<le> attempts_of opts \<and> calls (snd (Do rt wait opts cb fn s)) = calls s @ replicate k req"
proof -
  have le: "Suc (attempts_of opts - 1) \<le> attempts_of opts" by (simp add: attempts_of_def)
  show ?thesis
  proof (cases cb)
    case None
    with loop_calls [of "attempts_of opts - 1" opts s] le show ?thesis
      unfolding Do_def by (auto intro: order_trans)
  next
    case (Some r)
    obtain ok s1 where a: "cb_allow rt r s = (ok, s1)" by fastforce
    then have c: "calls s1 = calls s"
      using Some by (auto simp: cb_allow_def Let_def case_prod_beta calls_now calls_put)
    show ?thesis
    proof (cases ok)
      case False
      then show ?thesis using a c Some by (intro exI [of _ 0]) (simp add: Do_def)
    next
      case True
      then have "Do rt wait opts cb fn s = do_loop (attempts_of opts - 1) rt wait opts cb fn s1"
        using a Some by (simp add: Do_def)
      with loop_calls [of "attempts_of opts - 1" opts s1] le c show ?thesis by (auto intro: order_trans)
    qed
  qed
qed

lemma Do_open:
  assumes "cb = Some r" and "cb_allow rt r s = (False, s1)"
  shows "Do rt wait opts cb fn s = (Inl ErrCircuitOpen, s1) \<and> calls s1 = calls s"
  using assms by (auto simp: Do_def cb_allow_def Let_def case_prod_beta calls_now calls_put)

text \<open>A deterministic client error ends the loop after the call that made it.\<close>

lemma loop_deterministic:
  assumes "fn s = (Inl e, s1)" and "errors_Is e ClientErrConflict \<or> errors_Is e ClientErrBadRequest"
  shows "do_loop n rt wait opts cb fn s = (Inl e, cb_failure rt cb s1) \<and>
    calls (snd (do_loop n rt wait opts cb fn s)) = calls s @ [req]"
  using assms calls_fn [of s] by (cases n) (auto simp: calls_record)

text \<open>With a retryable error on every call and no cancellation, every attempt is made.\<close>

lemma loop_exhausts:
  assumes "\<And>s. \<exists>e s1. fn s = (Inl e, s1) \<and> \<not> errors_Is e ClientErrConflict \<and>
      \<not> errors_Is e ClientErrBadRequest \<and> \<not> errors_Is e ErrCircuitOpen"
    and "\<And>d s. fst (wait d s) = None"
  shows "calls (snd (do_loop n rt wait opts cb fn s)) = calls s @ replicate (Suc n) req \<and>
    isl (fst (do_loop n rt wait opts cb fn s))"
proof (induction n arbitrary: s)
  case 0
  then show ?case using assms(1) [of s] calls_fn [of s] by (auto simp: calls_record)
next
  case (Suc n)
  obtain e s1 where f: "fn s = (Inl e, s1)" "\<not> errors_Is e ClientErrConflict"
    "\<not> errors_Is e ClientErrBadRequest" "\<not> errors_Is e ErrCircuitOpen" using assms(1) by blast
  obtain s2 where w: "wait (ro_Backoff opts) s1 = (None, s2)"
    using assms(2) [of "ro_Backoff opts" s1] by (cases "wait (ro_Backoff opts) s1") auto
  have "calls s2 = calls s @ [req]"
    using calls_fn [of s] calls_wait [of "ro_Backoff opts" s1] f w by simp
  with Suc.IH [of s2] f w show ?case by simp
qed

end

end
