(* ===== verification/Clients.thy ===== *)
theory Clients
  imports Retry Config
begin

text \<open>
  \<^verbatim>\<open>internal/clients\<close>: the request and result types, the five client interfaces, the
  in-memory fakes the service runs with when no URL is configured, the HTTP clients, the
  Kafka audit client, and the resilient wrappers.

  The network is a parameter (\<open>HTTP\<close>, \<open>KafkaWriter\<close>), as are the text of a JSON value, the
  text of a decimal and the parser of a response body. A JSON value is a tree; the trees of
  the requests follow the \<open>json\<close> tags of the structs.
\<close>

section \<open>Requests, results, interfaces\<close>

text \<open>\<open>clients.VenueRoute\<close> has the fields of \<open>store.VenueRoute\<close>; one record stands for both.\<close>

record FillResult =
  fill_FillPrice :: decimal
  fill_TotalFilled :: decimal
  fill_VenueRoutes :: "VenueRoute list"

record AggregateOrderRequest =
  ao_AssetPair :: string
  ao_Side :: string
  ao_NotionalUSD :: decimal
  ao_TotalTarget :: decimal

record HedgeRequest =
  hq_FiatCurrency :: string
  hq_NotionalUSD :: decimal
  hq_BatchID :: uuid

record HedgeResult =
  hr_HedgedNotional :: decimal
  hr_Unhedged :: decimal

record FundingMoveRequest =
  fm_WalletID :: string
  fm_Asset :: string
  fm_Amount :: decimal
  fm_Source :: string

record FundingMoveResult =
  fmr_Completed :: bool
  fmr_TxID :: string

record LedgerPost =
  lp_Aggregate :: string
  lp_EventType :: string
  lp_NotionalUSD :: decimal
  lp_Asset :: string
  lp_FiatCurrency :: string
  lp_BatchID :: uuid

record AuditEvent =
  ae_Aggregate :: string
  ae_EventType :: string
  ae_Actor :: string
  ae_BatchID :: uuid
  ae_Detail :: string

record 's LiquidityRouting =
  SubmitAggregate :: "AggregateOrderRequest \<Rightarrow> string \<Rightarrow> 's \<Rightarrow> (error + FillResult) \<times> 's"

record 's FXHedging =
  SubmitExposure :: "HedgeRequest \<Rightarrow> string \<Rightarrow> 's \<Rightarrow> (error + HedgeResult) \<times> 's"

record 's WalletManagement =
  Fund :: "FundingMoveRequest \<Rightarrow> string \<Rightarrow> 's \<Rightarrow> (error + FundingMoveResult) \<times> 's"

record 's LedgerAccounting =
  Post :: "LedgerPost \<Rightarrow> string \<Rightarrow> 's \<Rightarrow> (error + unit) \<times> 's"

record 's AuditLog =
  Emit :: "AuditEvent \<Rightarrow> string \<Rightarrow> 's \<Rightarrow> (error + unit) \<times> 's"

section \<open>The fakes\<close>

text \<open>
  Every fake but the wallet's has the same fields: the calls, the keys seen, the answer, the
  error of the next call, and whether a repeated key is an error. \<open>fake_call\<close> is their
  common method body, with the answer as the last argument's value.
\<close>

record ('q, 'r) Fake =
  fk_calls :: "'q list"
  fk_keys :: "string \<Rightarrow> bool"
  fk_result :: 'r
  fk_err :: "error option"
  fk_dupErr :: bool

definition NewFake :: "'r \<Rightarrow> ('q, 'r) Fake" where
  "NewFake r = \<lparr>fk_calls = [], fk_keys = (\<lambda>_. False), fk_result = r, fk_err = None, fk_dupErr = False\<rparr>"

definition SetError :: "error option \<Rightarrow> ('q, 'r) Fake \<Rightarrow> ('q, 'r) Fake" where
  "SetError e f = f\<lparr>fk_err := e\<rparr>"

definition SetDuplicateKeyError :: "bool \<Rightarrow> ('q, 'r) Fake \<Rightarrow> ('q, 'r) Fake" where
  "SetDuplicateKeyError on f = f\<lparr>fk_dupErr := on\<rparr>"

definition fake_call :: "'q \<Rightarrow> string \<Rightarrow> ('q, 'r) Fake \<Rightarrow> (error + 'r) \<times> ('q, 'r) Fake" where
  "fake_call req key f =
     (let f = f\<lparr>fk_calls := fk_calls f @ [req]\<rparr>
      in case fk_err f of
           Some err \<Rightarrow> (Inl err, f\<lparr>fk_err := None\<rparr>)
         | None \<Rightarrow>
             if fk_dupErr f \<and> fk_keys f key then (Inl ClientErrConflict, f)
             else (let f = f\<lparr>fk_keys := (fk_keys f)(key := True)\<rparr> in (Inr (fk_result f), f)))"

definition primary_route :: "FillResult \<Rightarrow> FillResult" where
  "primary_route fill =
     (if fill_VenueRoutes fill = []
      then fill\<lparr>fill_VenueRoutes := [\<lparr>vr_Venue = ''primary'', vr_Share = 1, vr_Price = fill_FillPrice fill\<rparr>]\<rparr>
      else fill)"

text \<open>The constructors, and what the tests of the service set and read.\<close>

definition NewFakeLiquidity :: "FillResult \<Rightarrow> (AggregateOrderRequest, FillResult) Fake" where
  "NewFakeLiquidity fill = NewFake fill"

definition NewFakeLedger :: "(LedgerPost, unit) Fake" where
  "NewFakeLedger = NewFake ()"

definition NewFakeAudit :: "(AuditEvent, unit) Fake" where
  "NewFakeAudit = NewFake ()"

definition SetFill :: "FillResult \<Rightarrow> (AggregateOrderRequest, FillResult) Fake \<Rightarrow> (AggregateOrderRequest, FillResult) Fake" where
  "SetFill fill f = f\<lparr>fk_result := fill\<rparr>"

definition Calls :: "('q, 'r) Fake \<Rightarrow> 'q list" where
  "Calls f = fk_calls f"

definition FakeLiquidity_SubmitAggregate ::
  "AggregateOrderRequest \<Rightarrow> string \<Rightarrow> (AggregateOrderRequest, FillResult) Fake
   \<Rightarrow> (error + FillResult) \<times> (AggregateOrderRequest, FillResult) Fake" where
  "FakeLiquidity_SubmitAggregate req key f =
     (let (r, f1) = fake_call req key f in (map_sum (\<lambda>e. e) primary_route r, f1))"

definition FakeFX_SubmitExposure ::
  "HedgeRequest \<Rightarrow> string \<Rightarrow> (HedgeRequest, HedgeResult) Fake
   \<Rightarrow> (error + HedgeResult) \<times> (HedgeRequest, HedgeResult) Fake" where
  "FakeFX_SubmitExposure req key f = fake_call req key f"

definition FakeLedger_Post ::
  "LedgerPost \<Rightarrow> string \<Rightarrow> (LedgerPost, unit) Fake \<Rightarrow> (error + unit) \<times> (LedgerPost, unit) Fake" where
  "FakeLedger_Post post key f = fake_call post key f"

definition FakeAudit_Emit ::
  "AuditEvent \<Rightarrow> string \<Rightarrow> (AuditEvent, unit) Fake \<Rightarrow> (error + unit) \<times> (AuditEvent, unit) Fake" where
  "FakeAudit_Emit ev key f = fake_call ev key f"

text \<open>The fake wallet ignores the key.\<close>

record FakeWallet =
  fw_calls :: "FundingMoveRequest list"
  fw_result :: FundingMoveResult
  fw_err :: "error option"

definition NewFakeWallet :: "FundingMoveResult \<Rightarrow> FakeWallet" where
  "NewFakeWallet r = \<lparr>fw_calls = [], fw_result = r, fw_err = None\<rparr>"

definition FakeWallet_SetError :: "error option \<Rightarrow> FakeWallet \<Rightarrow> FakeWallet" where
  "FakeWallet_SetError e f = f\<lparr>fw_err := e\<rparr>"

definition FakeWallet_Calls :: "FakeWallet \<Rightarrow> FundingMoveRequest list" where
  "FakeWallet_Calls f = fw_calls f"

definition FakeWallet_Fund ::
  "FundingMoveRequest \<Rightarrow> FakeWallet \<Rightarrow> (error + FundingMoveResult) \<times> FakeWallet" where
  "FakeWallet_Fund req f =
     (let f = f\<lparr>fw_calls := fw_calls f @ [req]\<rparr>
      in case fw_err f of
           Some err \<Rightarrow> (Inl err, f\<lparr>fw_err := None\<rparr>)
         | None \<Rightarrow> (Inr (fw_result f), f))"

text \<open>A value with its method, in the part of the program state it occupies.\<close>

definition in_slot :: "('s \<Rightarrow> 'm) \<Rightarrow> ('m \<Rightarrow> 's \<Rightarrow> 's) \<Rightarrow> ('m \<Rightarrow> 'r \<times> 'm) \<Rightarrow> 's \<Rightarrow> 'r \<times> 's" where
  "in_slot get put m s = (let (r, f) = m (get s) in (r, put f s))"

definition fakeLiquidity where
  "fakeLiquidity get put = \<lparr>SubmitAggregate = (\<lambda>req key. in_slot get put (FakeLiquidity_SubmitAggregate req key))\<rparr>"

definition fakeFX where
  "fakeFX get put = \<lparr>SubmitExposure = (\<lambda>req key. in_slot get put (FakeFX_SubmitExposure req key))\<rparr>"

definition fakeLedger where
  "fakeLedger get put = \<lparr>Post = (\<lambda>p key. in_slot get put (FakeLedger_Post p key))\<rparr>"

definition fakeAudit where
  "fakeAudit get put = \<lparr>Emit = (\<lambda>ev key. in_slot get put (FakeAudit_Emit ev key))\<rparr>"

definition fakeWallet where
  "fakeWallet get put = \<lparr>Fund = (\<lambda>req key. in_slot get put (FakeWallet_Fund req))\<rparr>"

section \<open>JSON over HTTP\<close>

datatype json = JStr string | JNum int | JArr "json list" | JObj "(string \<times> json) list"

text \<open>
  \<open>http_parse\<close> is the error of \<open>NewRequestWithContext\<close>, \<open>http_do\<close> the round trip under a time
  limit, with the status and the body of the response, \<open>http_json\<close> the text of a JSON value, \<open>http_dec\<close> the
  text of a decimal.
\<close>

record 's HTTP =
  http_parse :: "string \<Rightarrow> string option"
  http_do :: "duration \<Rightarrow> string \<Rightarrow> (string \<times> string) list \<Rightarrow> string \<Rightarrow> 's \<Rightarrow> (string + int \<times> string) \<times> 's"
  http_json :: "json \<Rightarrow> string"
  http_dec :: "decimal \<Rightarrow> string"

fun nat_digits :: "nat \<Rightarrow> string" where
  "nat_digits n = (if n < 10 then [char_of (48 + n)] else nat_digits (n div 10) @ [char_of (48 + n mod 10)])"

definition itoa :: "int \<Rightarrow> string" where
  "itoa i = (if i < 0 then ''-'' @ nat_digits (nat (- i)) else nat_digits (nat i))"

declare nat_digits.simps [simp del]

text \<open>A client of one service: its address, and the HTTP client with its time limit.\<close>

record timeoutClient =
  tc_Timeout :: duration

record HttpClient =
  hc_baseURL :: string
  hc_client :: timeoutClient

definition newTimeoutClient :: "duration \<Rightarrow> timeoutClient" where
  "newTimeoutClient timeout = \<lparr>tc_Timeout = timeout\<rparr>"

definition NewHTTPLiquidity :: "string \<Rightarrow> HttpClient" where
  "NewHTTPLiquidity baseURL = \<lparr>hc_baseURL = baseURL, hc_client = newTimeoutClient (10 * second)\<rparr>"

definition NewHTTPFX :: "string \<Rightarrow> HttpClient" where
  "NewHTTPFX baseURL = \<lparr>hc_baseURL = baseURL, hc_client = newTimeoutClient (10 * second)\<rparr>"

definition NewHTTPWallet :: "string \<Rightarrow> HttpClient" where
  "NewHTTPWallet baseURL = \<lparr>hc_baseURL = baseURL, hc_client = newTimeoutClient (10 * second)\<rparr>"

definition NewHTTPLedger :: "string \<Rightarrow> HttpClient" where
  "NewHTTPLedger baseURL = \<lparr>hc_baseURL = baseURL, hc_client = newTimeoutClient (10 * second)\<rparr>"

definition NewHTTPAudit :: "string \<Rightarrow> HttpClient" where
  "NewHTTPAudit baseURL = \<lparr>hc_baseURL = baseURL, hc_client = newTimeoutClient (10 * second)\<rparr>"

text \<open>
  \<open>out\<close> is \<open>None\<close> for a nil \<open>out\<close>, else the parser of the body; \<open>zero\<close> is the value of the
  variable before the call.
\<close>

definition json_headers :: "string \<Rightarrow> (string \<times> string) list" where
  "json_headers idempotencyKey = (''Content-Type'', ''application/json'') #
     (if idempotencyKey \<noteq> [] then [(''Idempotency-Key'', idempotencyKey)] else [])"

definition postJSON ::
  "'s HTTP \<Rightarrow> timeoutClient \<Rightarrow> string \<Rightarrow> json \<Rightarrow> string \<Rightarrow> (string \<Rightarrow> string + 'r) option \<Rightarrow> 'r \<Rightarrow> 's \<Rightarrow> (error + 'r) \<times> 's"
where
  "postJSON h c url body idempotencyKey out zero s =
     (let buf = http_json h body
      in case http_parse h url of
           Some e \<Rightarrow> (Inl (External e), s)
         | None \<Rightarrow>
             (case http_do h (tc_Timeout c) url (json_headers idempotencyKey) buf s of
                (Inl e, s1) \<Rightarrow> (Inl (Wrapf ClientErrUnavailable e), s1)
              | (Inr (status, respBody), s1) \<Rightarrow>
                  (if status \<ge> 200 \<and> status < 300 then
                     (case out of
                        None \<Rightarrow> Inr zero
                      | Some parse \<Rightarrow>
                          if respBody = [] then Inr zero
                          else (case parse respBody of Inl e \<Rightarrow> Inl (External e) | Inr r \<Rightarrow> Inr r))
                   else if status = 409 then Inl (Wrapf ClientErrConflict respBody)
                   else if status = 400 then Inl (Wrapf ClientErrBadRequest respBody)
                   else Inl (Errorf (''clients: status '' @ itoa status @ '': '' @ respBody)), s1)))"

text \<open>The body a request is sent with.\<close>

definition aggregate_json :: "(decimal \<Rightarrow> string) \<Rightarrow> AggregateOrderRequest \<Rightarrow> json" where
  "aggregate_json dec_str req =
     JObj [(''asset_pair'', JStr (ao_AssetPair req)), (''side'', JStr (ao_Side req)),
           (''notional_usd'', JStr (dec_str (ao_NotionalUSD req))),
           (''total_target'', JStr (dec_str (ao_TotalTarget req)))]"

definition httpLiquidity ::
  "'s HTTP \<Rightarrow> (string \<Rightarrow> string + FillResult) \<Rightarrow> HttpClient \<Rightarrow> 's LiquidityRouting" where
  "httpLiquidity h parse c = \<lparr>
     SubmitAggregate = (\<lambda>req key.
       postJSON h (hc_client c) (hc_baseURL c @ ''/v1/aggregate-orders'') (aggregate_json (http_dec h) req)
         key (Some parse) \<lparr>fill_FillPrice = 0, fill_TotalFilled = 0, fill_VenueRoutes = []\<rparr>)\<rparr>"

definition httpFX :: "'s HTTP \<Rightarrow> (string \<Rightarrow> string + HedgeResult) \<Rightarrow> HttpClient \<Rightarrow> 's FXHedging" where
  "httpFX h parse c = \<lparr>
     SubmitExposure = (\<lambda>req key.
       postJSON h (hc_client c) (hc_baseURL c @ ''/v1/hedges'')
         (JObj [(''fiat_currency'', JStr (hq_FiatCurrency req)),
                (''notional_usd'', JStr (http_dec h (hq_NotionalUSD req))),
                (''batch_id'', JStr (hq_BatchID req))])
         key (Some parse) \<lparr>hr_HedgedNotional = 0, hr_Unhedged = 0\<rparr>)\<rparr>"

definition httpWallet :: "'s HTTP \<Rightarrow> (string \<Rightarrow> string + FundingMoveResult) \<Rightarrow> HttpClient \<Rightarrow> 's WalletManagement"
where
  "httpWallet h parse c = \<lparr>
     Fund = (\<lambda>req key.
       postJSON h (hc_client c) (hc_baseURL c @ ''/v1/funding-moves'')
         (JObj [(''wallet_id'', JStr (fm_WalletID req)), (''asset'', JStr (fm_Asset req)),
                (''amount'', JStr (http_dec h (fm_Amount req))),
                (''source_venue'', JStr (fm_Source req))])
         key (Some parse) \<lparr>fmr_Completed = False, fmr_TxID = []\<rparr>)\<rparr>"

text \<open>
  A posting is a double entry. Maps are marshaled with their keys sorted.
\<close>

definition ledger_entry :: "string \<Rightarrow> string \<Rightarrow> string \<Rightarrow> string \<Rightarrow> json" where
  "ledger_entry account direction amount asset =
     JObj [(''account_id'', JStr account), (''amount'', JStr amount), (''asset'', JStr asset),
           (''direction'', JStr direction)]"

definition ledger_body :: "(decimal \<Rightarrow> string) \<Rightarrow> LedgerPost \<Rightarrow> string \<Rightarrow> json" where
  "ledger_body dec_str post key =
     (let amount = dec_str (lp_NotionalUSD post);
          asset = (if lp_FiatCurrency post = [] then ''USD'' else lp_FiatCurrency post)
      in JObj [(''entries'', JArr [ledger_entry ''treasury_crypto'' ''debit'' amount asset,
                                   ledger_entry ''operational_fiat'' ''credit'' amount asset]),
               (''memo'', JStr (lp_Aggregate post @ '':'' @ lp_EventType post)),
               (''posting_id'', JStr key)])"

definition httpLedger :: "'s HTTP \<Rightarrow> HttpClient \<Rightarrow> 's LedgerAccounting" where
  "httpLedger h c = \<lparr>
     Post = (\<lambda>post key. postJSON h (hc_client c) (hc_baseURL c @ ''/v1/postings'')
       (ledger_body (http_dec h) post key) key None ())\<rparr>"

text \<open>\<open>omitempty\<close> drops an empty detail; on \<open>BatchID\<close>, an array, it has no effect.\<close>

definition audit_json :: "AuditEvent \<Rightarrow> json" where
  "audit_json ev =
     JObj ([(''aggregate'', JStr (ae_Aggregate ev)), (''event_type'', JStr (ae_EventType ev)),
            (''actor'', JStr (ae_Actor ev)), (''batch_id'', JStr (ae_BatchID ev))] @
           (if ae_Detail ev = [] then [] else [(''detail'', JStr (ae_Detail ev))]))"

definition httpAudit :: "'s HTTP \<Rightarrow> HttpClient \<Rightarrow> 's AuditLog" where
  "httpAudit h c = \<lparr>
     Emit = (\<lambda>ev key. postJSON h (hc_client c) (hc_baseURL c @ ''/v1/audit-events'') (audit_json ev) key None ())\<rparr>"

section \<open>Audit over Kafka\<close>

text \<open>
  The writer, the SHA-256 digest of a text in hexadecimal and the rendering of an instant
  are parameters. The raw payload is embedded in the envelope, so it is a subtree of it.
\<close>

record 's KafkaWriter =
  kw_write :: "string \<Rightarrow> string \<Rightarrow> 's \<Rightarrow> (error + unit) \<times> 's"
  kw_json :: "json \<Rightarrow> string"
  kw_sha256_hex :: "string \<Rightarrow> string"
  kw_rfc3339 :: "time \<Rightarrow> string"
  kw_new_id :: "'s \<Rightarrow> string \<times> 's"
  kw_close :: "'s \<Rightarrow> error option \<times> 's"

fun coalesceStr :: "string list \<Rightarrow> string" where
  "coalesceStr [] = []"
| "coalesceStr (v # vals) = (if v \<noteq> [] then v else coalesceStr vals)"

definition audit_envelope :: "'s KafkaWriter \<Rightarrow> AuditEvent \<Rightarrow> string \<Rightarrow> time \<Rightarrow> json" where
  "audit_envelope k ev eid now =
     JObj [(''action'', JStr (ae_EventType ev)),
           (''actor_id'', JStr (coalesceStr [ae_Actor ev, ''treasury-orchestration''])),
           (''id'', JStr eid),
           (''payload'', audit_json ev),
           (''payload_hash'', JStr (''sha256:'' @ kw_sha256_hex k (kw_json k (audit_json ev)))),
           (''schema_version'', JStr ''1''),
           (''source_service'', JStr ''treasury-orchestration''),
           (''target_id'', JStr (ae_Aggregate ev)),
           (''target_type'', JStr ''batch''),
           (''ts'', JStr (kw_rfc3339 k now))]"

definition NewKafkaAudit :: "string list \<Rightarrow> error option" where
  "NewKafkaAudit brokers = (if brokers = [] then Some (Errorf ''audit kafka: no brokers provided'') else None)"

definition kafkaAudit :: "'s Rt \<Rightarrow> 's KafkaWriter \<Rightarrow> 's AuditLog" where
  "kafkaAudit rt k = \<lparr>
     Emit = (\<lambda>ev key s.
       let (eid, s1) = (if key = [] then kw_new_id k s else (key, s)); (now, s2) = Now rt s1
       in kw_write k eid (kw_json k (audit_envelope k ev eid now)) s2)\<rparr>"

text \<open>\<open>Close\<close> of a client whose writer may be nil.\<close>

definition kafkaAudit_Close :: "'s KafkaWriter option \<Rightarrow> 's \<Rightarrow> error option \<times> 's" where
  "kafkaAudit_Close w s = (case w of None \<Rightarrow> (None, s) | Some k \<Rightarrow> kw_close k s)"

section \<open>The resilient wrappers\<close>

definition ResilientLiquidity ::
  "'s Rt \<Rightarrow> 's wait \<Rightarrow> 's LiquidityRouting \<Rightarrow> RetryOptions \<Rightarrow> 's CBRef option \<Rightarrow> 's LiquidityRouting" where
  "ResilientLiquidity rt wait inner opts cb = \<lparr>
     SubmitAggregate = (\<lambda>req key. Do rt wait opts cb (SubmitAggregate inner req key))\<rparr>"

definition ResilientFX ::
  "'s Rt \<Rightarrow> 's wait \<Rightarrow> 's FXHedging \<Rightarrow> RetryOptions \<Rightarrow> 's CBRef option \<Rightarrow> 's FXHedging" where
  "ResilientFX rt wait inner opts cb = \<lparr>
     SubmitExposure = (\<lambda>req key. Do rt wait opts cb (SubmitExposure inner req key))\<rparr>"

section \<open>Lemmas\<close>

lemma fake_call_result:
  "fst (fake_call req key f) =
     (case fk_err f of Some e \<Rightarrow> Inl e
      | None \<Rightarrow> if fk_dupErr f \<and> fk_keys f key then Inl ClientErrConflict else Inr (fk_result f))"
  by (simp add: fake_call_def Let_def split: option.split)

lemma fake_call_state [simp]:
  "fk_calls (snd (fake_call req key f)) = fk_calls f @ [req]"
  "fk_result (snd (fake_call req key f)) = fk_result f"
  "fk_err (snd (fake_call req key f)) = None"
  "fk_dupErr (snd (fake_call req key f)) = fk_dupErr f"
  by (simp_all add: fake_call_def Let_def split: option.split)

text \<open>
  A response is classified by its status alone: 409 is the conflict, 400 the bad request, any
  other status outside 2xx neither, and a transport error is the unavailable error.
\<close>

lemma postJSON_classifies:
  assumes "postJSON h c url body key out zero s = (Inl e, s1)" and "http_parse h url = None"
    and "reply = fst (http_do h (tc_Timeout c) url (json_headers key) (http_json h body) s)"
  shows "errors_Is e ClientErrConflict \<longleftrightarrow> (\<exists>b. reply = Inr (409, b))"
    and "errors_Is e ClientErrBadRequest \<longleftrightarrow> (\<exists>b. reply = Inr (400, b))"
    and "errors_Is e ClientErrUnavailable \<longleftrightarrow> isl reply"
  using assms
  by (auto simp: postJSON_def Let_def split: prod.splits sum.splits if_splits option.splits)

lemma postJSON_never_circuit_open:
  "postJSON h c url body key out zero s = (Inl e, s1) \<Longrightarrow> \<not> errors_Is e ErrCircuitOpen"
  by (auto simp: postJSON_def Let_def split: prod.splits sum.splits if_splits option.splits)

text \<open>One call sends at most one request, to one address, with one body and the key in its headers.\<close>

lemma postJSON_sends:
  "http_parse h url = None \<Longrightarrow> snd (postJSON h c url body key out zero s) =
     snd (http_do h (tc_Timeout c) url (json_headers key) (http_json h body) s)"
  by (simp add: postJSON_def Let_def case_prod_beta split: sum.split)

lemma json_headers_key: "key \<noteq> [] \<Longrightarrow> map_of (json_headers key) ''Idempotency-Key'' = Some key"
  by (simp add: json_headers_def)

text \<open>An error set on a fake is answered to one call, and the next succeeds.\<close>

lemma set_error_once:
  assumes "fk_dupErr f = False" and "(r, f1) = fake_call q k (SetError (Some e) f)"
  shows "r = Inl e \<and> fst (fake_call q' k' f1) = Inr (fk_result f) \<and> Calls (snd (fake_call q' k' f1)) = Calls f @ [q, q']"
  using assms by (simp add: fake_call_def SetError_def Calls_def Let_def)

text \<open>The entries of a posting balance: one debit and one credit of the same amount and asset.\<close>

fun field :: "string \<Rightarrow> json \<Rightarrow> json option" where
  "field k (JObj kvs) = map_of kvs k"
| "field k _ = None"

lemma ledger_body_balanced:
  "\<exists>amount asset.
     field ''entries'' (ledger_body dec_str post key) =
       Some (JArr [ledger_entry ''treasury_crypto'' ''debit'' amount asset,
                   ledger_entry ''operational_fiat'' ''credit'' amount asset]) \<and>
     amount = dec_str (lp_NotionalUSD post) \<and> asset \<noteq> [] \<and>
     field ''posting_id'' (ledger_body dec_str post key) = Some (JStr key)"
  by (auto simp: ledger_body_def ledger_entry_def Let_def)

end
