(* ===== verification/Downstream.thy ===== *)
theory Downstream
  imports World Clients
begin

text \<open>
  The part of the state outside the stores: the fakes of the five downstream services (the
  clients of development mode), the two circuit breakers, and \<open>x_net\<close>, the state of
  everything reached over the network. Each client of the service is an interface record over
  the whole state; here are the slots they live in and the fact that they touch nothing else.
\<close>

section \<open>State and slots\<close>

record 'n Outside =
  x_liq :: "(AggregateOrderRequest, FillResult) Fake"
  x_fx :: "(HedgeRequest, HedgeResult) Fake"
  x_wallet :: FakeWallet
  x_ledger :: "(LedgerPost, unit) Fake"
  x_audit :: "(AuditEvent, unit) Fake"
  x_liq_cb :: CircuitBreaker
  x_fx_cb :: CircuitBreaker
  x_net :: 'n

type_synonym 'n service = "'n Outside world"

text \<open>The answers \<open>Build\<close> configures in development mode.\<close>

definition dev_fill :: FillResult where
  "dev_fill = \<lparr>fill_FillPrice = 50000, fill_TotalFilled = 1, fill_VenueRoutes = []\<rparr>"

definition dev_hedge :: HedgeResult where
  "dev_hedge = \<lparr>hr_HedgedNotional = 0, hr_Unhedged = 0\<rparr>"

definition dev_move :: FundingMoveResult where
  "dev_move = \<lparr>fmr_Completed = True, fmr_TxID = ''stub''\<rparr>"

definition NewOutside :: "'n \<Rightarrow> 'n Outside" where
  "NewOutside net = \<lparr>x_liq = NewFakeLiquidity dev_fill, x_fx = NewFake dev_hedge,
     x_wallet = NewFakeWallet dev_move, x_ledger = NewFakeLedger, x_audit = NewFakeAudit,
     x_liq_cb = DefaultCircuitBreaker, x_fx_cb = DefaultCircuitBreaker, x_net = net\<rparr>"

lemmas [simp] = NewFakeLiquidity_def NewFakeLedger_def NewFakeAudit_def

abbreviation in_ext :: "('n Outside \<Rightarrow> 'n Outside) \<Rightarrow> 'n service \<Rightarrow> 'n service" where
  "in_ext g \<equiv> w_ext_update g"

definition devLiquidity :: "'n service LiquidityRouting" where
  "devLiquidity = fakeLiquidity (\<lambda>w. x_liq (w_ext w)) (\<lambda>f. in_ext (x_liq_update (\<lambda>_. f)))"

definition devFX :: "'n service FXHedging" where
  "devFX = fakeFX (\<lambda>w. x_fx (w_ext w)) (\<lambda>f. in_ext (x_fx_update (\<lambda>_. f)))"

definition devWallet :: "'n service WalletManagement" where
  "devWallet = fakeWallet (\<lambda>w. x_wallet (w_ext w)) (\<lambda>f. in_ext (x_wallet_update (\<lambda>_. f)))"

definition devLedger :: "'n service LedgerAccounting" where
  "devLedger = fakeLedger (\<lambda>w. x_ledger (w_ext w)) (\<lambda>f. in_ext (x_ledger_update (\<lambda>_. f)))"

definition devAudit :: "'n service AuditLog" where
  "devAudit = fakeAudit (\<lambda>w. x_audit (w_ext w)) (\<lambda>f. in_ext (x_audit_update (\<lambda>_. f)))"

definition liqBreaker :: "'n service CBRef" where
  "liqBreaker = \<lparr>cbr_get = (\<lambda>w. x_liq_cb (w_ext w)), cbr_put = (\<lambda>c. in_ext (x_liq_cb_update (\<lambda>_. c)))\<rparr>"

definition fxBreaker :: "'n service CBRef" where
  "fxBreaker = \<lparr>cbr_get = (\<lambda>w. x_fx_cb (w_ext w)), cbr_put = (\<lambda>c. in_ext (x_fx_cb_update (\<lambda>_. c)))\<rparr>"

text \<open>The network as the clients see it: a function on its own state.\<close>

definition net_wait :: "(duration \<Rightarrow> 'n \<Rightarrow> error option \<times> 'n) \<Rightarrow> 'n service wait" where
  "net_wait wt d w = (let (r, n) = wt d (x_net (w_ext w)) in (r, in_ext (x_net_update (\<lambda>_. n)) w))"

definition net_HTTP :: "'n HTTP \<Rightarrow> 'n service HTTP" where
  "net_HTTP h = \<lparr>http_parse = http_parse h,
     http_do = (\<lambda>t url hd body w. let (r, n) = http_do h t url hd body (x_net (w_ext w))
                                 in (r, in_ext (x_net_update (\<lambda>_. n)) w)),
     http_json = http_json h, http_dec = http_dec h\<rparr>"

section \<open>What runs outside leaves the stores alone\<close>

text \<open>
  \<open>same_stores w w'\<close>: only the outside part, the metrics and the count of clock readings may
  differ, the last upwards.
\<close>

definition same_stores :: "'x world \<Rightarrow> 'x world \<Rightarrow> bool" where
  "same_stores w w' \<longleftrightarrow>
     w_clock w' = w_clock w \<and> w_ids w' = w_ids w \<and> w_idn w' = w_idn w \<and> w_reads w \<le> w_reads w' \<and>
     w_idem w' = w_idem w \<and> w_batch w' = w_batch w \<and> w_member w' = w_member w \<and>
     w_order w' = w_order w \<and> w_funding w' = w_funding w \<and> w_float w' = w_float w \<and>
     w_rebalance w' = w_rebalance w \<and> w_outbox w' = w_outbox w \<and> w_proj w' = w_proj w"

lemma same_stores_refl [simp]: "same_stores w w"
  by (simp add: same_stores_def)

lemma same_stores_trans: "same_stores u v \<Longrightarrow> same_stores v w \<Longrightarrow> same_stores u w"
  by (auto simp: same_stores_def)

lemma same_storesD:
  assumes "same_stores w w'"
  shows "w_clock w' = w_clock w" "w_ids w' = w_ids w" "w_idn w' = w_idn w" "w_reads w \<le> w_reads w'"
    "w_idem w' = w_idem w" "w_batch w' = w_batch w" "w_member w' = w_member w"
    "w_order w' = w_order w" "w_funding w' = w_funding w" "w_float w' = w_float w"
    "w_rebalance w' = w_rebalance w" "w_outbox w' = w_outbox w"
  using assms by (simp_all add: same_stores_def)

lemma same_stores_steps [simp]:
  "same_stores w (w\<lparr>w_ext := e\<rparr>)" "same_stores w (w\<lparr>w_reads := Suc (w_reads w)\<rparr>)"
  "same_stores w (w\<lparr>w_metrics := ms\<rparr>)" "same_stores w (w_ext_update g w)"
  by (simp_all add: same_stores_def)

definition outside :: "('x world \<Rightarrow> 'r \<times> 'x world) \<Rightarrow> bool" where
  "outside f \<longleftrightarrow> (\<forall>w. same_stores w (snd (f w)))"

lemma outsideD: "outside f \<Longrightarrow> same_stores w (snd (f w))"
  by (simp add: outside_def)

lemma in_slot_outside:
  "(\<And>m w. same_stores w (put m w)) \<Longrightarrow> outside (in_slot get put g)"
  by (simp add: outside_def in_slot_def case_prod_beta)

lemma dev_outside [simp]:
  "outside (SubmitAggregate devLiquidity q k)" "outside (SubmitExposure devFX h k)"
  "outside (Fund devWallet m k)" "outside (Post devLedger p k)" "outside (Emit devAudit ev k)"
  by (simp_all add: devLiquidity_def devFX_def devWallet_def devLedger_def devAudit_def fakeLiquidity_def
      fakeFX_def fakeWallet_def fakeLedger_def fakeAudit_def in_slot_outside)

lemma net_wait_outside: "outside (net_wait wt d)"
  by (simp add: outside_def net_wait_def case_prod_beta)

lemma postJSON_outside: "outside (postJSON (net_HTTP h) c url body key out zero)"
  by (simp add: outside_def postJSON_def net_HTTP_def Let_def case_prod_beta split: option.split sum.split prod.split)

lemma http_clients_outside [simp]:
  "outside (SubmitAggregate (httpLiquidity (net_HTTP h) pl url) q k)"
  "outside (SubmitExposure (httpFX (net_HTTP h) pf url) hq k)"
  "outside (Fund (httpWallet (net_HTTP h) pw url) m k)"
  "outside (Post (httpLedger (net_HTTP h) url) p k)"
  by (simp_all add: httpLiquidity_def httpFX_def httpWallet_def httpLedger_def postJSON_outside)

section \<open>The retry loop from outside\<close>

lemma cb_steps_same_stores:
  assumes "\<And>c w. same_stores w (cbr_put r c w)"
  shows "same_stores w (snd (cb_allow (world_rt dec) r w))"
    and "same_stores w (cb_success (Some r) w)" and "same_stores w (cb_failure (world_rt dec) (Some r) w)"
  using same_stores_trans [OF same_stores_steps(2) assms]
  by (simp_all add: cb_allow_def cb_success_def cb_failure_def case_prod_beta assms)

lemma do_loop_same_stores:
  assumes put: "\<And>c w. same_stores w (cbr_put r c w)" and fn: "outside fn" and wt: "\<And>d. outside (wait d)"
  shows "same_stores w (snd (do_loop n (world_rt dec) wait opts (Some r) fn w))"
proof (induction n arbitrary: w)
  case 0
  obtain x w1 where f: "fn w = (x, w1)" by fastforce
  then have "same_stores w w1" using outsideD [OF fn, of w] by simp
  with f show ?case
    by (auto split: sum.split intro: same_stores_trans cb_steps_same_stores [OF put])
next
  case (Suc n)
  obtain x w1 where f: "fn w = (x, w1)" by fastforce
  obtain y w2 where g: "wait (ro_Backoff opts) w1 = (y, w2)" by fastforce
  have 1: "same_stores w w1" and 2: "same_stores w w2"
    using outsideD [OF fn, of w] outsideD [OF wt [of "ro_Backoff opts"], of w1] f g
    by (auto intro: same_stores_trans)
  with f g Suc.IH [of w2] show ?case
    by (auto split: sum.split option.split intro: same_stores_trans cb_steps_same_stores [OF put])
qed

lemma Do_outside:
  assumes put: "\<And>c w. same_stores w (cbr_put r c w)" and fn: "outside fn" and wt: "\<And>d. outside (wait d)"
  shows "outside (Do (world_rt dec) wait opts (Some r) fn)"
proof -
  have "same_stores w (snd (Do (world_rt dec) wait opts (Some r) fn w))" for w
    using cb_steps_same_stores(1) [OF put, of w dec]
      same_stores_trans [OF cb_steps_same_stores(1) [OF put] do_loop_same_stores [OF assms]]
    by (simp add: Do_def case_prod_beta)
  then show ?thesis by (simp add: outside_def)
qed

lemma resilient_outside:
  assumes "\<And>q k. outside (SubmitAggregate L q k)"
  shows "outside (SubmitAggregate (ResilientLiquidity (world_rt dec) (net_wait wt) L opts (Some liqBreaker)) q k)"
  by (simp add: ResilientLiquidity_def) (rule Do_outside; simp add: liqBreaker_def assms net_wait_outside)

lemma resilient_fx_outside:
  assumes "\<And>q k. outside (SubmitExposure F q k)"
  shows "outside (SubmitExposure (ResilientFX (world_rt dec) (net_wait wt) F opts (Some fxBreaker)) q k)"
  by (simp add: ResilientFX_def) (rule Do_outside; simp add: fxBreaker_def assms net_wait_outside)

text \<open>The retry loop around the development client: every attempt is a recorded call.\<close>

interpretation wretry: retry_env "world_rt dec" "net_wait wt" "Some liqBreaker"
  "SubmitAggregate devLiquidity q k" "\<lambda>w. fk_calls (x_liq (w_ext w))" q for dec wt q k
  by unfold_locales
     (auto simp: devLiquidity_def fakeLiquidity_def in_slot_def FakeLiquidity_SubmitAggregate_def
       case_prod_beta net_wait_def liqBreaker_def)

section \<open>What goes over the wire\<close>

text \<open>A network that records the requests it is given: address, headers, body.\<close>

type_synonym wire = "(string \<times> (string \<times> string) list \<times> string) list"

definition log_HTTP :: "'n HTTP \<Rightarrow> ('n \<times> wire) HTTP" where
  "log_HTTP h = \<lparr>http_parse = http_parse h,
     http_do = (\<lambda>t url hd body (n, l). let (r, n') = http_do h t url hd body n in (r, (n', l @ [(url, hd, body)]))),
     http_json = http_json h, http_dec = http_dec h\<rparr>"

definition log_wait :: "(duration \<Rightarrow> 'n \<Rightarrow> error option \<times> 'n) \<Rightarrow> duration \<Rightarrow> 'n \<times> wire \<Rightarrow> error option \<times> 'n \<times> wire" where
  "log_wait wt d = (\<lambda>(n, l). let (r, n') = wt d n in (r, (n', l)))"

abbreviation sent_over :: "('n \<times> wire) service \<Rightarrow> wire" where
  "sent_over w \<equiv> snd (x_net (w_ext w))"

definition aggregate_post :: "'n HTTP \<Rightarrow> HttpClient \<Rightarrow> AggregateOrderRequest \<Rightarrow> string \<Rightarrow> string \<times> (string \<times> string) list \<times> string" where
  "aggregate_post h c req key =
     (hc_baseURL c @ ''/v1/aggregate-orders'', json_headers key, http_json h (aggregate_json (http_dec h) req))"

lemma http_submit_sends:
  assumes "http_parse h (hc_baseURL c @ ''/v1/aggregate-orders'') = None"
  shows "sent_over (snd (SubmitAggregate (httpLiquidity (net_HTTP (log_HTTP h)) parse c) q k w)) =
    sent_over w @ [aggregate_post h c q k]"
  using assms
  by (simp add: httpLiquidity_def postJSON_sends net_HTTP_def log_HTTP_def case_prod_beta aggregate_post_def)

text \<open>The retry loop around the HTTP client: every attempt sends the same request.\<close>

lemma http_retry_env:
  assumes "http_parse h (hc_baseURL c @ ''/v1/aggregate-orders'') = None"
  shows "retry_env (world_rt dec) (net_wait (log_wait wt)) (Some liqBreaker)
    (SubmitAggregate (httpLiquidity (net_HTTP (log_HTTP h)) parse c) q k) sent_over (aggregate_post h c q k)"
  by unfold_locales
    (auto simp: http_submit_sends [OF assms] net_wait_def log_wait_def liqBreaker_def case_prod_beta)

lemma http_retries:
  assumes "http_parse h (hc_baseURL c @ ''/v1/aggregate-orders'') = None"
    and "(r, w') = SubmitAggregate (ResilientLiquidity (world_rt dec) (net_wait (log_wait wt))
      (httpLiquidity (net_HTTP (log_HTTP h)) parse c) opts (Some liqBreaker)) q k w"
  shows "\<exists>n \<le> attempts_of opts. sent_over w' = sent_over w @ replicate n (aggregate_post h c q k)"
proof -
  have "w' = snd (Do (world_rt dec) (net_wait (log_wait wt)) opts (Some liqBreaker)
      (SubmitAggregate (httpLiquidity (net_HTTP (log_HTTP h)) parse c) q k) w)"
    using arg_cong [OF assms(2), of snd] by (simp add: ResilientLiquidity_def)
  then show ?thesis using retry_env.Do_calls [OF http_retry_env [OF assms(1)]] by simp
qed

end
