(* ===== verification/Executor.thy ===== *)
theory Executor
  imports Downstream
begin

text \<open>
  \<^verbatim>\<open>internal/aggregate/executor.go\<close>: a closed batch is submitted as a parent order.
  \<open>SubmitBatch\<close> persists the order and moves the batch to executing; its part from the claim
  of the idempotency key on is \<open>claim_and_submit\<close>. The fill hook receives the batch read at
  the start (with its status at that point) and the pointer to the filled order.
\<close>

section \<open>Operations\<close>

record 's ExecDeps =
  xd_Batches :: "'s BatchStore"
  xd_Orders :: "'s AggregateOrderStore"
  xd_Liquidity :: "'s LiquidityRouting"
  xd_Idem :: "'s IdemStore"
  xd_ExpectedPriceFor :: "(string \<Rightarrow> decimal) option"
  xd_OnFill :: "(Batch \<Rightarrow> ('s, AggregateOrder) ptr \<Rightarrow> 's \<Rightarrow> 's) option"

definition parent_order :: "Batch \<Rightarrow> AggregateOrder" where
  "parent_order b =
     \<lparr>o_ID = [], o_BatchID = b_ID b, o_AssetPair = b_AssetPair b, o_Side = ''BUY'',
      o_NotionalUSD = b_NotionalUSD b, o_VenueRoutes = [], o_FillPrice = 0, o_TotalFilled = 0,
      o_HedgedNotional = 0, o_Status = AggregateExecuting, o_CreatedAt = zero_time,
      o_SettledAt = zero_time\<rparr>"

definition parent_request :: "Batch \<Rightarrow> AggregateOrderRequest" where
  "parent_request b =
     \<lparr>ao_AssetPair = b_AssetPair b, ao_Side = ''BUY'', ao_NotionalUSD = b_NotionalUSD b,
      ao_TotalTarget = b_NotionalUSD b\<rparr>"

definition agg_key :: "uuid \<Rightarrow> string" where
  "agg_key uid = ''agg:'' @ uid"

definition observe_slippage :: "'s Rt \<Rightarrow> 's ExecDeps \<Rightarrow> Batch \<Rightarrow> FillResult \<Rightarrow> 's \<Rightarrow> 's" where
  "observe_slippage rt d b fill s =
     (case xd_ExpectedPriceFor d of
        None \<Rightarrow> s
      | Some f \<Rightarrow>
          let expected = f (b_AssetPair b)
          in if expected > 0
             then Metric rt (SlippageUSD (b_AssetPair b)
                    ((fill_FillPrice fill - expected) * fill_TotalFilled fill)) s
             else s)"

definition claim_and_submit ::
  "'s Rt \<Rightarrow> 's ExecDeps \<Rightarrow> Batch \<Rightarrow> 's \<Rightarrow> (error + ('s, AggregateOrder) ptr) \<times> 's" where
  "claim_and_submit rt d b s =
     (let (r, s1) = CheckAndMark (xd_Idem d) (agg_key (b_ID b)) (24 * hour) s
      in if r = Inr False then GetOrderByBatch (xd_Orders d) (b_ID b) s1
         else
           case SubmitAggregate (xd_Liquidity d) (parent_request b) (agg_key (b_ID b)) s1 of
             (Inl e, s2) \<Rightarrow> (Inl e, s2)
           | (Inr fill, s2) \<Rightarrow>
               case UpdateOrderFill (xd_Orders d) (b_ID b) (fill_FillPrice fill)
                      (fill_TotalFilled fill) (fill_VenueRoutes fill) s2 of
                 (Inl e, s3) \<Rightarrow> (Inl e, s3)
               | (Inr updated, s3) \<Rightarrow>
                   let s4 = observe_slippage rt d b fill s3;
                       s5 = (case xd_OnFill d of None \<Rightarrow> s4 | Some h \<Rightarrow> h b updated s4)
                   in (Inr updated, s5))"

definition not_closed_error :: "uuid \<Rightarrow> BatchStatus \<Rightarrow> error" where
  "not_closed_error uid st =
     Errorf (''aggregate: batch '' @ uid @ '' not closed (status='' @ BatchStatus_str st @ '')'')"

definition SubmitBatch ::
  "'s Rt \<Rightarrow> 's ExecDeps \<Rightarrow> uuid \<Rightarrow> 's \<Rightarrow> (error + ('s, AggregateOrder) ptr) \<times> 's" where
  "SubmitBatch rt d batchID s =
     (case GetBatch (xd_Batches d) batchID s of
        (Inl e, s1) \<Rightarrow> (Inl e, s1)
      | (Inr b, s1) \<Rightarrow>
          if b_Status b \<noteq> BatchClosed \<and> b_Status b \<noteq> BatchExecuting
          then (Inl (not_closed_error batchID (b_Status b)), s1)
          else
            case CreateOrder (xd_Orders d) (parent_order b) s1 of
              (Inl e, s2) \<Rightarrow> (Inl e, s2)
            | (Inr order, s2) \<Rightarrow>
                if o_Status (order s2) = AggregateSettled then (Inr order, s2)
                else
                  let (_, s3) = UpdateBatchStatus (xd_Batches d) (b_ID b) BatchClosed BatchExecuting None s2
                  in claim_and_submit rt d b s3)"

lemma parent_order_fields [simp]:
  "o_BatchID (parent_order b) = b_ID b" "o_NotionalUSD (parent_order b) = b_NotionalUSD b"
  "o_AssetPair (parent_order b) = b_AssetPair b" "o_Status (parent_order b) = AggregateExecuting"
  by (simp_all add: parent_order_def)

lemma mutator_ok_None [simp]: "mutator_ok None"
  by (simp add: mutator_ok_def)

section \<open>The executor over the contracts\<close>

text \<open>
  \<open>sent s\<close> are the requests made to liquidity-routing; one call of the client may make
  several, or none (a retry, an open circuit). The assumptions say which operation touches
  what: each store only its own part, the client only \<open>sent\<close>.
\<close>

locale executor_env =
  bs: batch_store "xd_Batches d" batches + os: order_store "xd_Orders d" orders +
  ks: idem_store "xd_Idem d" seen clock
  for d :: "'s ExecDeps" and batches and orders and seen and clock +
  fixes rt :: "'s Rt" and sent :: "'s \<Rightarrow> AggregateOrderRequest list"
  assumes client_sends: "\<exists>n. sent (snd (SubmitAggregate (xd_Liquidity d) q k s)) = sent s @ replicate n q"
    and client_frame: "batches (snd (SubmitAggregate (xd_Liquidity d) q k s)) = batches s"
      "orders (snd (SubmitAggregate (xd_Liquidity d) q k s)) = orders s"
      "seen (snd (SubmitAggregate (xd_Liquidity d) q k s)) = seen s"
    and batch_frame: "orders (snd (GetBatch (xd_Batches d) u s)) = orders s"
      "seen (snd (GetBatch (xd_Batches d) u s)) = seen s"
      "sent (snd (GetBatch (xd_Batches d) u s)) = sent s"
      "orders (snd (UpdateBatchStatus (xd_Batches d) u st1 st2 mu s)) = orders s"
      "seen (snd (UpdateBatchStatus (xd_Batches d) u st1 st2 mu s)) = seen s"
      "sent (snd (UpdateBatchStatus (xd_Batches d) u st1 st2 mu s)) = sent s"
    and order_frame: "batches (snd (CreateOrder (xd_Orders d) ord s)) = batches s"
      "seen (snd (CreateOrder (xd_Orders d) ord s)) = seen s"
      "sent (snd (CreateOrder (xd_Orders d) ord s)) = sent s"
      "batches (snd (GetOrderByBatch (xd_Orders d) u s)) = batches s"
      "seen (snd (GetOrderByBatch (xd_Orders d) u s)) = seen s"
      "sent (snd (GetOrderByBatch (xd_Orders d) u s)) = sent s"
      "batches (snd (UpdateOrderFill (xd_Orders d) u fp tf vr s)) = batches s"
      "seen (snd (UpdateOrderFill (xd_Orders d) u fp tf vr s)) = seen s"
      "sent (snd (UpdateOrderFill (xd_Orders d) u fp tf vr s)) = sent s"
    and idem_frame: "batches (snd (CheckAndMark (xd_Idem d) k ttl s)) = batches s"
      "orders (snd (CheckAndMark (xd_Idem d) k ttl s)) = orders s"
      "sent (snd (CheckAndMark (xd_Idem d) k ttl s)) = sent s"
    and metric_frame: "batches (Metric rt x s) = batches s" "orders (Metric rt x s) = orders s"
      "seen (Metric rt x s) = seen s" "sent (Metric rt x s) = sent s"
begin

lemmas frames [simp] = client_frame batch_frame order_frame idem_frame metric_frame
  bs.get_frame os.get_frame

lemma slippage_frame [simp]:
  "batches (observe_slippage rt d b fill s) = batches s" "orders (observe_slippage rt d b fill s) = orders s"
  "seen (observe_slippage rt d b fill s) = seen s" "sent (observe_slippage rt d b fill s) = sent s"
  by (simp_all add: observe_slippage_def Let_def split: option.split)

lemma submit_missing:
  assumes "batches s uid = None"
  shows "fst (SubmitBatch rt d uid s) = Inl ErrNotFound \<and> sent (snd (SubmitBatch rt d uid s)) = sent s"
  using bs.get_missing [OF assms] batch_frame(3) [of uid s]
  by (cases "GetBatch (xd_Batches d) uid s") (auto simp: SubmitBatch_def)

text \<open>A batch that is open or settled is refused, and nothing changes.\<close>

lemma submit_not_closed:
  assumes b: "batches s uid = Some b" and "b_Status b = BatchOpen \<or> b_Status b = BatchSettled"
  shows "fst (SubmitBatch rt d uid s) = Inl (not_closed_error uid (b_Status b)) \<and>
    sent (snd (SubmitBatch rt d uid s)) = sent s \<and> orders (snd (SubmitBatch rt d uid s)) = orders s \<and>
    batches (snd (SubmitBatch rt d uid s)) = batches s"
proof -
  obtain b0 s1 where g: "GetBatch (xd_Batches d) uid s = (Inr b0, s1)" "b_Status b0 = b_Status b"
    using bs.get_known [OF b] by (cases "GetBatch (xd_Batches d) uid s") (auto dest: same_batchD)
  with assms(2) bs.get_frame [of uid s] batch_frame(1,3) [of uid s] show ?thesis
    by (auto simp: SubmitBatch_def)
qed

text \<open>While the key is held nothing is sent: the call returns the order as it is stored.\<close>

lemma claim_held:
  assumes "held (seen s) (clock s) (agg_key (b_ID b))" and "orders s (b_ID b) = Some r"
  shows "\<exists>p. fst (claim_and_submit rt d b s) = Inr p \<and> p (snd (claim_and_submit rt d b s)) = r \<and>
    sent (snd (claim_and_submit rt d b s)) = sent s \<and> orders (snd (claim_and_submit rt d b s)) = orders s \<and>
    batches (snd (claim_and_submit rt d b s)) = batches s \<and> seen (snd (claim_and_submit rt d b s)) = seen s"
proof -
  obtain s1 where c: "CheckAndMark (xd_Idem d) (agg_key (b_ID b)) (24 * hour) s = (Inr False, s1)"
    using ks.cam_result [of "agg_key (b_ID b)" "24 * hour" s] assms(1)
    by (cases "CheckAndMark (xd_Idem d) (agg_key (b_ID b)) (24 * hour) s") auto
  have "orders s1 = orders s" "sent s1 = sent s" "batches s1 = batches s" "seen s1 = seen s"
    using c idem_frame [of "agg_key (b_ID b)" "24 * hour" s]
      ks.cam_seen [of "agg_key (b_ID b)" "24 * hour" s] assms(1) by auto
  moreover obtain p where "fst (GetOrderByBatch (xd_Orders d) (b_ID b) s1) = Inr p"
      "p (snd (GetOrderByBatch (xd_Orders d) (b_ID b) s1)) = r"
    using os.get_known [of s1 "b_ID b" r] assms(2) calculation by auto
  ultimately show ?thesis using c by (simp add: claim_and_submit_def)
qed

text \<open>
  With the key free the client is called once. The order then carries the fill and the hook
  runs once, on the filled order.
\<close>

lemma claim_free_filled:
  assumes "\<not> held (seen s) (clock s) (agg_key (b_ID b))" and o: "orders s (b_ID b) = Some r"
    and fill: "fst (SubmitAggregate (xd_Liquidity d) (parent_request b) (agg_key (b_ID b))
      (snd (CheckAndMark (xd_Idem d) (agg_key (b_ID b)) (24 * hour) s))) = Inr fill"
  shows "\<exists>p s'. claim_and_submit rt d b s =
      (Inr p, case xd_OnFill d of None \<Rightarrow> s' | Some h \<Rightarrow> h b p s') \<and>
    (\<exists>n. sent s' = sent s @ replicate n (parent_request b)) \<and> batches s' = batches s \<and>
    seen s' = (seen s)(agg_key (b_ID b) \<mapsto> clock s + 24 * hour) \<and>
    orders s' = (orders s)(b_ID b \<mapsto>
      filled_order (fill_FillPrice fill) (fill_TotalFilled fill) (fill_VenueRoutes fill) r)"
proof -
  let ?k = "agg_key (b_ID b)"
  obtain s1 where c: "CheckAndMark (xd_Idem d) ?k (24 * hour) s = (Inr True, s1)"
    using ks.cam_result [of ?k "24 * hour" s] assms(1) by (cases "CheckAndMark (xd_Idem d) ?k (24 * hour) s") auto
  obtain s2 where u: "SubmitAggregate (xd_Liquidity d) (parent_request b) ?k s1 = (Inr fill, s2)"
    using fill c by (cases "SubmitAggregate (xd_Liquidity d) (parent_request b) ?k s1") auto
  have s1: "orders s1 = orders s" "sent s1 = sent s" "batches s1 = batches s"
      "seen s1 = (seen s)(?k \<mapsto> clock s + 24 * hour)"
    using c idem_frame [of ?k "24 * hour" s] ks.cam_seen [of ?k "24 * hour" s] assms(1) by auto
  have s2: "orders s2 = orders s" "\<exists>n. sent s2 = sent s @ replicate n (parent_request b)"
      "batches s2 = batches s" "seen s2 = (seen s)(?k \<mapsto> clock s + 24 * hour)"
    using u s1 client_sends [of "parent_request b" ?k s1] client_frame [of "parent_request b" ?k s1] by auto
  let ?U = "UpdateOrderFill (xd_Orders d) (b_ID b) (fill_FillPrice fill) (fill_TotalFilled fill) (fill_VenueRoutes fill) s2"
  obtain p s3 where f: "?U = (Inr p, s3)"
      "orders s3 = (orders s)(b_ID b \<mapsto> filled_order (fill_FillPrice fill) (fill_TotalFilled fill) (fill_VenueRoutes fill) r)"
    using os.fill_known [of s2 "b_ID b" r "fill_FillPrice fill" "fill_TotalFilled fill" "fill_VenueRoutes fill"] o s2
    by (cases ?U) auto
  have "batches s3 = batches s" "sent s3 = sent s2" "seen s3 = seen s2"
    using f(1) s2 order_frame(7-9) [of "b_ID b" "fill_FillPrice fill" "fill_TotalFilled fill" "fill_VenueRoutes fill" s2]
    by auto
  with c u f s2 show ?thesis
    by (auto simp: claim_and_submit_def Let_def intro!: exI)
qed

text \<open>
  When the submission fails the order keeps no fill, but the key stays claimed, so until it
  expires no later call sends the request again.
\<close>

lemma claim_free_failed:
  assumes "\<not> held (seen s) (clock s) (agg_key (b_ID b))"
    and fail: "fst (SubmitAggregate (xd_Liquidity d) (parent_request b) (agg_key (b_ID b))
      (snd (CheckAndMark (xd_Idem d) (agg_key (b_ID b)) (24 * hour) s))) = Inl e"
    and s': "s' = snd (claim_and_submit rt d b s)"
  shows "fst (claim_and_submit rt d b s) = Inl e" and "orders s' = orders s"
    and "\<exists>n. sent s' = sent s @ replicate n (parent_request b)"
    and "seen s' (agg_key (b_ID b)) = Some (clock s + 24 * hour)"
proof -
  let ?k = "agg_key (b_ID b)"
  obtain s1 where c: "CheckAndMark (xd_Idem d) ?k (24 * hour) s = (Inr True, s1)"
    using ks.cam_result [of ?k "24 * hour" s] assms(1) by (cases "CheckAndMark (xd_Idem d) ?k (24 * hour) s") auto
  obtain s2 where u: "SubmitAggregate (xd_Liquidity d) (parent_request b) ?k s1 = (Inl e, s2)"
    using fail c by (cases "SubmitAggregate (xd_Liquidity d) (parent_request b) ?k s1") auto
  have r: "claim_and_submit rt d b s = (Inl e, s2)" using c u by (simp add: claim_and_submit_def)
  then show "fst (claim_and_submit rt d b s) = Inl e" by simp
  show "orders s' = orders s" "\<exists>n. sent s' = sent s @ replicate n (parent_request b)"
      "seen s' ?k = Some (clock s + 24 * hour)"
    using c u r s' idem_frame [of ?k "24 * hour" s] ks.cam_seen [of ?k "24 * hour" s] assms(1)
      client_sends [of "parent_request b" ?k s1] client_frame [of "parent_request b" ?k s1] by auto
qed

end

section \<open>The executor on the in-memory stores\<close>

abbreviation W_exec ::
  "(float64 \<Rightarrow> decimal) \<Rightarrow> 'n service LiquidityRouting \<Rightarrow> (string \<Rightarrow> decimal) option
   \<Rightarrow> (Batch \<Rightarrow> ('n service, AggregateOrder) ptr \<Rightarrow> 'n service \<Rightarrow> 'n service) option \<Rightarrow> 'n service ExecDeps"
where
  "W_exec dec L price hook \<equiv>
     \<lparr>xd_Batches = W_batch dec, xd_Orders = W_order dec, xd_Liquidity = L, xd_Idem = W_idem dec,
      xd_ExpectedPriceFor = price, xd_OnFill = hook\<rparr>"

abbreviation liq_calls :: "'n service \<Rightarrow> AggregateOrderRequest list" where
  "liq_calls w \<equiv> fk_calls (x_liq (w_ext w))"

text \<open>A client around the development service: it stays outside and only repeats its request.\<close>

definition liq_client :: "'n service LiquidityRouting \<Rightarrow> bool" where
  "liq_client L \<longleftrightarrow>
     (\<forall>q k. outside (SubmitAggregate L q k) \<and>
        (\<forall>w. \<exists>n. liq_calls (snd (SubmitAggregate L q k w)) = liq_calls w @ replicate n q))"

lemma liq_calls_steps [simp]:
  "liq_calls (snd (SubmitAggregate devLiquidity q k w)) = liq_calls w @ [q]"
  "liq_calls (snd (net_wait wt d w)) = liq_calls w"
  "liq_calls (cb_success (Some liqBreaker) w) = liq_calls w"
  "liq_calls (cb_failure (world_rt dec) (Some liqBreaker) w) = liq_calls w"
  "liq_calls (snd (cb_allow (world_rt dec) liqBreaker w)) = liq_calls w"
  by (simp_all add: devLiquidity_def fakeLiquidity_def in_slot_def FakeLiquidity_SubmitAggregate_def
      case_prod_beta net_wait_def cb_success_def cb_failure_def cb_allow_def liqBreaker_def)

lemma liq_client_dev: "liq_client devLiquidity"
  by (auto simp: liq_client_def intro: exI [of _ 1])

lemma do_loop_repeats:
  "\<exists>m. liq_calls (snd (do_loop n (world_rt dec) (net_wait wt) opts (Some liqBreaker)
     (SubmitAggregate devLiquidity q k) w)) = liq_calls w @ replicate m q"
proof (induction n arbitrary: w)
  case 0
  obtain x w1 where f: "SubmitAggregate devLiquidity q k w = (x, w1)" by fastforce
  then have "liq_calls w1 = liq_calls w @ [q]" using liq_calls_steps(1) [of q k w] by simp
  with f show ?case by (auto split: sum.split intro: exI [of _ 1])
next
  case (Suc n)
  obtain x w1 where f: "SubmitAggregate devLiquidity q k w = (x, w1)" by fastforce
  obtain y w2 where g: "net_wait wt (ro_Backoff opts) w1 = (y, w2)" by fastforce
  have c: "liq_calls w1 = liq_calls w @ [q]" "liq_calls w2 = liq_calls w @ [q]"
    using f g liq_calls_steps(1) [of q k w] liq_calls_steps(2) [of wt "ro_Backoff opts" w1] by simp_all
  obtain m where "liq_calls (snd (do_loop n (world_rt dec) (net_wait wt) opts (Some liqBreaker)
      (SubmitAggregate devLiquidity q k) w2)) = liq_calls w @ replicate (Suc m) q"
    using Suc.IH [of w2] c by auto
  with f g c show ?case
    by (auto split: sum.split option.split intro: exI [of _ 1] exI [of _ "Suc m"])
qed

lemma liq_client_resilient:
  "liq_client (ResilientLiquidity (world_rt dec) (net_wait wt) devLiquidity opts (Some liqBreaker))"
proof -
  have "\<exists>n. liq_calls (snd (Do (world_rt dec) (net_wait wt) opts (Some liqBreaker)
      (SubmitAggregate devLiquidity q k) w)) = liq_calls w @ replicate n q" for q k w
    using do_loop_repeats [of "attempts_of opts - 1" dec wt opts q k "snd (cb_allow (world_rt dec) liqBreaker w)"]
    by (auto simp: Do_def case_prod_beta intro: exI [of _ 0])
  then show ?thesis
    by (simp add: liq_client_def resilient_outside) (simp add: ResilientLiquidity_def)
qed

lemma executor_env_world:
  assumes "liq_client L"
  shows "executor_env (W_exec dec L price hook) (\<lambda>w. batch_map (w_batch w)) (\<lambda>w. order_map (w_order w))
    (\<lambda>w. ms_seen (w_idem w)) (\<lambda>w. w_clock w (w_reads w)) (world_rt dec) liq_calls"
proof -
  have "outside (SubmitAggregate L q k)" for q k using assms by (simp add: liq_client_def)
  note S = same_storesD [OF outsideD [OF this]]
  show ?thesis
    using assms wi.mem.idem_store_axioms [of dec]
    by (simp add: executor_env_def executor_env_axioms_def wb.mem.batch_store_axioms
        wo.mem.order_store_axioms S W_simps Let_def liq_client_def)
qed

interpretation wexec: executor_env "W_exec dec devLiquidity price hook" "\<lambda>w. batch_map (w_batch w)"
  "\<lambda>w. order_map (w_order w)" "\<lambda>w. ms_seen (w_idem w)" "\<lambda>w. w_clock w (w_reads w)"
  "world_rt dec" liq_calls for dec price hook
  by (rule executor_env_world [OF liq_client_dev])

interpretation wrexec: executor_env
  "W_exec dec (ResilientLiquidity (world_rt dec) (net_wait wt) devLiquidity opts (Some liqBreaker)) price hook"
  "\<lambda>w. batch_map (w_batch w)" "\<lambda>w. order_map (w_order w)" "\<lambda>w. ms_seen (w_idem w)"
  "\<lambda>w. w_clock w (w_reads w)" "world_rt dec" liq_calls for dec wt opts price hook
  by (rule executor_env_world [OF liq_client_resilient])

section \<open>One submission on the state\<close>

definition order_created :: "Batch \<Rightarrow> 'x world \<Rightarrow> AggregateOrder rowptr \<times> OrderTable" where
  "order_created b w = mo_CreateOrder (w_ids w (w_idn w)) (w_clock w (w_reads w)) (parent_order b) (w_order w)"

definition with_order :: "Batch \<Rightarrow> 'x world \<Rightarrow> 'x world" where
  "with_order b w = w\<lparr>w_reads := Suc (w_reads w), w_idn := Suc (w_idn w), w_order := snd (order_created b w)\<rparr>"

definition prepared :: "Batch \<Rightarrow> 'x world \<Rightarrow> 'x world" where
  "prepared b w = (with_order b w)\<lparr>w_reads := Suc (Suc (w_reads w)),
     w_batch := snd (mb_UpdateBatchStatus (w_clock w (Suc (w_reads w))) (b_ID b) BatchClosed BatchExecuting None (w_batch w))\<rparr>"

lemma prepared_fields [simp]:
  "w_clock (prepared b w) = w_clock w" "w_ids (prepared b w) = w_ids w" "w_idem (prepared b w) = w_idem w"
  "w_member (prepared b w) = w_member w" "w_ext (prepared b w) = w_ext w" "w_float (prepared b w) = w_float w"
  "w_outbox (prepared b w) = w_outbox w" "w_reads (prepared b w) = Suc (Suc (w_reads w))"
  "w_order (prepared b w) = snd (order_created b w)" "w_idn (prepared b w) = Suc (w_idn w)"
  "w_metrics (prepared b w) = w_metrics w"
  "w_clock (with_order b w) = w_clock w" "w_idem (with_order b w) = w_idem w" "w_ext (with_order b w) = w_ext w"
  by (simp_all add: prepared_def with_order_def)

lemma SubmitBatch_world:
  "SubmitBatch (world_rt dec) (W_exec dec L price hook) uid w =
     (case batch_map (w_batch w) uid of
        None \<Rightarrow> (Inl ErrNotFound, w)
      | Some b \<Rightarrow>
          if b_Status b \<noteq> BatchClosed \<and> b_Status b \<noteq> BatchExecuting
          then (Inl (not_closed_error uid (b_Status b)), w)
          else if o_Status (deref (snd (order_created b w)) (fst (order_created b w))) = AggregateSettled
          then (Inr (\<lambda>w'. deref (w_order w') (fst (order_created b w))), with_order b w)
          else claim_and_submit (world_rt dec) (W_exec dec L price hook) b (prepared b w))"
  by (simp add: SubmitBatch_def W_simps mb_GetBatch_map prepared_def with_order_def order_created_def Let_def
      split: option.split)

text \<open>
  A fill hook that leaves the submission key and the recorded requests alone, as the
  application's does.
\<close>

definition fill_hook_ok :: "(Batch \<Rightarrow> ('n service, AggregateOrder) ptr \<Rightarrow> 'n service \<Rightarrow> 'n service) option \<Rightarrow> bool"
where
  "fill_hook_ok hook \<longleftrightarrow>
     (case hook of None \<Rightarrow> True
      | Some h \<Rightarrow> \<forall>b p w uid. liq_calls (h b p w) = liq_calls w \<and> w_clock (h b p w) = w_clock w \<and>
          ms_seen (w_idem (h b p w)) (agg_key uid) = ms_seen (w_idem w) (agg_key uid))"

definition run_fill where
  "run_fill hook b p w = (case hook of None \<Rightarrow> w | Some h \<Rightarrow> h b p w)"

lemma run_fill_ok:
  "fill_hook_ok hook \<Longrightarrow> liq_calls (run_fill hook b p w) = liq_calls w \<and>
     w_clock (run_fill hook b p w) = w_clock w \<and>
     ms_seen (w_idem (run_fill hook b p w)) (agg_key uid) = ms_seen (w_idem w) (agg_key uid)"
  by (auto simp: fill_hook_ok_def run_fill_def split: option.splits)

lemma slippage_world [simp]:
  "liq_calls (observe_slippage (world_rt dec) d b fill w) = liq_calls w"
  "w_clock (observe_slippage (world_rt dec) d b fill w) = w_clock w"
  "w_idem (observe_slippage (world_rt dec) d b fill w) = w_idem w"
  by (simp_all add: observe_slippage_def Let_def split: option.split)

text \<open>The claim decides: refused, nothing is sent; granted, one request is and the key is marked.\<close>

lemma claim_and_submit_effect:
  assumes hook: "fill_hook_ok hook"
    and w': "w' = snd (claim_and_submit (world_rt dec) (W_exec dec devLiquidity price hook) b w)"
    and now: "now = w_clock w (w_reads w)"
  shows "w_clock w' = w_clock w"
    and "liq_calls w' =
      (if held (ms_seen (w_idem w)) now (agg_key (b_ID b)) then liq_calls w
       else liq_calls w @ [parent_request b])"
    and "ms_seen (w_idem w') (agg_key (b_ID b)) =
      (if held (ms_seen (w_idem w)) now (agg_key (b_ID b)) then ms_seen (w_idem w) (agg_key (b_ID b))
       else Some (now + 24 * hour))"
proof -
  obtain ok m where c: "ms_CheckAndMark now (agg_key (b_ID b)) (24 * hour) (w_idem w) = (ok, m)" by fastforce
  note seen = ms_claim_seen [OF c]
  obtain r x where f: "FakeLiquidity_SubmitAggregate (parent_request b) (agg_key (b_ID b)) (x_liq (w_ext w)) = (r, x)"
    by fastforce
  have x: "fk_calls x = fk_calls (x_liq (w_ext w)) @ [parent_request b]"
    using f by (auto simp: FakeLiquidity_SubmitAggregate_def case_prod_beta)
  note U = run_fill_def [of hook, symmetric]
  show "w_clock w' = w_clock w" "liq_calls w' =
      (if held (ms_seen (w_idem w)) now (agg_key (b_ID b)) then liq_calls w
       else liq_calls w @ [parent_request b])"
    "ms_seen (w_idem w') (agg_key (b_ID b)) =
      (if held (ms_seen (w_idem w)) now (agg_key (b_ID b)) then ms_seen (w_idem w) (agg_key (b_ID b))
       else Some (now + 24 * hour))"
    using c seen f x unfolding w' claim_and_submit_def
    by (auto simp: W_simps now [symmetric] devLiquidity_def fakeLiquidity_def in_slot_def U
        run_fill_ok [OF hook] Let_def case_prod_beta split: sum.split)
qed

primrec Submit_times :: "nat \<Rightarrow> 's Rt \<Rightarrow> 's ExecDeps \<Rightarrow> uuid \<Rightarrow> 's \<Rightarrow> 's" where
  "Submit_times 0 rt d uid s = s"
| "Submit_times (Suc n) rt d uid s = Submit_times n rt d uid (snd (SubmitBatch rt d uid s))"

lemma SubmitBatch_effect:
  assumes hook: "fill_hook_ok hook"
    and w': "w' = snd (SubmitBatch (world_rt dec) (W_exec dec devLiquidity price hook) uid w)"
  shows "w_clock w' = w_clock w \<and>
    (liq_calls w' = liq_calls w \<and> ms_seen (w_idem w') (agg_key uid) = ms_seen (w_idem w) (agg_key uid) \<or>
     (\<exists>b now. now \<in> range (w_clock w) \<and> \<not> held (ms_seen (w_idem w)) now (agg_key uid) \<and>
        liq_calls w' = liq_calls w @ [parent_request b] \<and>
        ms_seen (w_idem w') (agg_key uid) = Some (now + 24 * hour)))"
proof (cases "batch_map (w_batch w) uid")
  case None
  then show ?thesis by (simp add: w' SubmitBatch_world)
next
  case (Some b)
  have uid: "b_ID b = uid" using rowmap_SomeD [OF Some] by simp
  show ?thesis
  proof (cases "snd (SubmitBatch (world_rt dec) (W_exec dec devLiquidity price hook) uid w) \<in> {w, with_order b w}")
    case True
    then show ?thesis by (auto simp: w')
  next
    case False
    with Some have "w' = snd (claim_and_submit (world_rt dec) (W_exec dec devLiquidity price hook) b (prepared b w))"
      by (auto simp: w' SubmitBatch_world split: if_splits)
    from claim_and_submit_effect [OF hook this refl] uid show ?thesis by auto
  qed
qed

lemma held_within: "m k = Some e \<Longrightarrow> now < e \<Longrightarrow> held m now k"
  by (simp add: held_def)

lemma submit_while_held:
  assumes "fill_hook_ok hook" and "ms_seen (w_idem w) (agg_key uid) = Some e" and "\<forall>n. w_clock w n < e"
  shows "liq_calls (Submit_times k (world_rt dec) (W_exec dec devLiquidity price hook) uid w) = liq_calls w"
  using assms(2,3)
proof (induction k arbitrary: w)
  case 0
  then show ?case by simp
next
  case (Suc k)
  let ?w = "snd (SubmitBatch (world_rt dec) (W_exec dec devLiquidity price hook) uid w)"
  have "liq_calls ?w = liq_calls w" "ms_seen (w_idem ?w) (agg_key uid) = Some e" "w_clock ?w = w_clock w"
    using SubmitBatch_effect [OF assms(1) refl, of dec price uid w] Suc.prems by (auto simp: held_def)
  with Suc show ?case by simp
qed

lemma submit_at_most_once:
  assumes hook: "fill_hook_ok hook" and "\<forall>n. T \<le> w_clock w n \<and> w_clock w n < T + 24 * hour"
    and w': "w' = Submit_times k (world_rt dec) (W_exec dec devLiquidity price hook) uid w"
  shows "liq_calls w' = liq_calls w \<or> (\<exists>b. liq_calls w' = liq_calls w @ [parent_request b])"
  using assms(2) unfolding w'
proof (induction k arbitrary: w)
  case 0
  then show ?case by simp
next
  case (Suc k)
  let ?w = "snd (SubmitBatch (world_rt dec) (W_exec dec devLiquidity price hook) uid w)"
  have clk: "w_clock ?w = w_clock w" using SubmitBatch_effect [OF hook refl, of dec price uid w] by simp
  from SubmitBatch_effect [OF hook refl, of dec price uid w] consider
      "liq_calls ?w = liq_calls w"
    | b e where "liq_calls ?w = liq_calls w @ [parent_request b]"
        "ms_seen (w_idem ?w) (agg_key uid) = Some (e + 24 * hour)" "e \<in> range (w_clock w)" by auto
  then show ?case
  proof cases
    case 1
    with Suc.IH [of ?w] Suc.prems clk show ?thesis by simp
  next
    case 2
    have "\<forall>n. w_clock ?w n < e + 24 * hour"
    proof
      fix n
      have "T \<le> e" using 2(3) Suc.prems by auto
      moreover have "w_clock w n < T + 24 * hour" using Suc.prems by blast
      ultimately show "w_clock ?w n < e + 24 * hour" unfolding clk by linarith
    qed
    from submit_while_held [OF hook 2(2) this, of k dec price] 2(1) show ?thesis by auto
  qed
qed

end
