(* ===== verification/Hedger.thy ===== *)
theory Hedger
  imports Downstream
begin

text \<open>
  \<^verbatim>\<open>internal/hedge/hedger.go\<close>: after a fill the exposure of the batch goes to
  fx-hedging, once per batch, and the order is settled with the hedged notional. The part
  not hedged is published on a gauge.
\<close>

section \<open>Operations\<close>

record 's HedgeDeps =
  hd_FX :: "'s FXHedging"
  hd_Orders :: "'s AggregateOrderStore"
  hd_Idem :: "'s IdemStore"

definition hedge_key :: "uuid \<Rightarrow> string" where
  "hedge_key uid = ''hedge:'' @ uid"

definition hedge_OnAggregateFill ::
  "'s Rt \<Rightarrow> 's HedgeDeps \<Rightarrow> Batch \<Rightarrow> ('s, AggregateOrder) ptr \<Rightarrow> string \<Rightarrow> 's
   \<Rightarrow> (error + ('s, AggregateOrder) ptr) \<times> 's" where
  "hedge_OnAggregateFill rt d b ord fiat s =
     (let key = hedge_key (b_ID b); (r, s1) = CheckAndMark (hd_Idem d) key (24 * hour) s
      in if r = Inr False then (Inr ord, s1)
         else
           let exposure = o_NotionalUSD (ord s1)
           in if \<not> exposure > 0 then (Inr ord, s1)
              else
                case SubmitExposure (hd_FX d)
                       \<lparr>hq_FiatCurrency = fiat, hq_NotionalUSD = exposure, hq_BatchID = b_ID b\<rparr> key s1 of
                  (Inl e, s2) \<Rightarrow> (Inl e, Metric rt (UnhedgedAdd fiat exposure) s2)
                | (Inr res, s2) \<Rightarrow>
                    let hedged = hr_HedgedNotional res
                    in case SettleOrder (hd_Orders d) (b_ID b) hedged s2 of
                         (Inl e, s3) \<Rightarrow> (Inl e, s3)
                       | (Inr updated, s3) \<Rightarrow>
                           (Inr updated, Metric rt (UnhedgedSet fiat (exposure - hedged)) s3))"

section \<open>The hedger over the contracts\<close>

locale hedger_env =
  os: order_store "hd_Orders d" orders + ks: idem_store "hd_Idem d" seen clock
  for d :: "'s HedgeDeps" and orders and seen and clock +
  fixes rt :: "'s Rt" and gauges :: "'s \<Rightarrow> metric list"
  assumes fx_frame: "orders (snd (SubmitExposure (hd_FX d) q k s)) = orders s"
      "gauges (snd (SubmitExposure (hd_FX d) q k s)) = gauges s"
    and idem_frame: "orders (snd (CheckAndMark (hd_Idem d) k ttl s)) = orders s"
      "gauges (snd (CheckAndMark (hd_Idem d) k ttl s)) = gauges s"
    and settle_gauges: "gauges (snd (SettleOrder (hd_Orders d) u h s)) = gauges s"
    and metric_gauges: "gauges (Metric rt x s) = gauges s @ [x]"
    and metric_orders: "orders (Metric rt x s) = orders s"
begin

text \<open>A batch that was hedged within the last day is not hedged again.\<close>

lemma hedge_held:
  assumes "held (seen s) (clock s) (hedge_key (b_ID b))"
  shows "\<exists>s'. hedge_OnAggregateFill rt d b ord fiat s = (Inr ord, s') \<and> orders s' = orders s \<and> gauges s' = gauges s"
  using ks.cam_result [of "hedge_key (b_ID b)" "24 * hour" s] assms idem_frame [of "hedge_key (b_ID b)" "24 * hour" s]
  by (cases "CheckAndMark (hd_Idem d) (hedge_key (b_ID b)) (24 * hour) s") (auto simp: hedge_OnAggregateFill_def Let_def)

text \<open>
  A first hedge that the service accepts settles the order with the hedged notional, and the
  gauge shows the rest: the two add up to the exposure.
\<close>

lemma hedge_settles:
  assumes free: "\<not> held (seen s) (clock s) (hedge_key (b_ID b))" and o: "orders s (b_ID b) = Some r"
    and "\<And>t. orders t = orders s \<Longrightarrow> ord t = r" and pos: "o_NotionalUSD r > 0"
    and fx: "fst (SubmitExposure (hd_FX d)
        \<lparr>hq_FiatCurrency = fiat, hq_NotionalUSD = o_NotionalUSD r, hq_BatchID = b_ID b\<rparr> (hedge_key (b_ID b))
        (snd (CheckAndMark (hd_Idem d) (hedge_key (b_ID b)) (24 * hour) s))) = Inr res"
  shows "\<exists>p t s'. hedge_OnAggregateFill rt d b ord fiat s = (Inr p, s') \<and>
    orders s' = (orders s)(b_ID b \<mapsto> settled_order t (hr_HedgedNotional res) r) \<and>
    gauges s' = gauges s @ [UnhedgedSet fiat (o_NotionalUSD r - hr_HedgedNotional res)]"
proof -
  let ?k = "hedge_key (b_ID b)"
  let ?q = "\<lparr>hq_FiatCurrency = fiat, hq_NotionalUSD = o_NotionalUSD r, hq_BatchID = b_ID b\<rparr>"
  obtain s1 where c: "CheckAndMark (hd_Idem d) ?k (24 * hour) s = (Inr True, s1)"
    using ks.cam_result [of ?k "24 * hour" s] free by (cases "CheckAndMark (hd_Idem d) ?k (24 * hour) s") auto
  have s1: "orders s1 = orders s" "gauges s1 = gauges s" using c idem_frame [of ?k "24 * hour" s] by simp_all
  have ord: "ord s1 = r" using assms(3) s1(1) by blast
  obtain s2 where u: "SubmitExposure (hd_FX d) ?q ?k s1 = (Inr res, s2)"
    using fx c by (cases "SubmitExposure (hd_FX d) ?q ?k s1") auto
  have s2: "orders s2 = orders s" "gauges s2 = gauges s" using u fx_frame [of ?q ?k s1] s1 by simp_all
  let ?S = "SettleOrder (hd_Orders d) (b_ID b) (hr_HedgedNotional res) s2"
  obtain p t s3 where st: "?S = (Inr p, s3)"
      "orders s3 = (orders s)(b_ID b \<mapsto> settled_order t (hr_HedgedNotional res) r)"
    using os.settle_known [of s2 "b_ID b" r "hr_HedgedNotional res"] o s2(1) by (cases ?S) auto
  have "gauges s3 = gauges s" using settle_gauges [of "b_ID b" "hr_HedgedNotional res" s2] st s2 by simp
  with c ord pos u st show ?thesis
    by (auto simp: hedge_OnAggregateFill_def Let_def metric_gauges metric_orders)
qed

text \<open>A refused hedge leaves the order as it was and adds the whole exposure to the gauge.\<close>

lemma hedge_fails:
  assumes free: "\<not> held (seen s) (clock s) (hedge_key (b_ID b))"
    and "\<And>t. orders t = orders s \<Longrightarrow> ord t = r" and pos: "o_NotionalUSD r > 0"
    and fx: "fst (SubmitExposure (hd_FX d)
        \<lparr>hq_FiatCurrency = fiat, hq_NotionalUSD = o_NotionalUSD r, hq_BatchID = b_ID b\<rparr> (hedge_key (b_ID b))
        (snd (CheckAndMark (hd_Idem d) (hedge_key (b_ID b)) (24 * hour) s))) = Inl e"
  shows "\<exists>s'. hedge_OnAggregateFill rt d b ord fiat s = (Inl e, s') \<and> orders s' = orders s \<and>
    gauges s' = gauges s @ [UnhedgedAdd fiat (o_NotionalUSD r)]"
proof -
  let ?k = "hedge_key (b_ID b)"
  let ?q = "\<lparr>hq_FiatCurrency = fiat, hq_NotionalUSD = o_NotionalUSD r, hq_BatchID = b_ID b\<rparr>"
  obtain s1 where c: "CheckAndMark (hd_Idem d) ?k (24 * hour) s = (Inr True, s1)"
    using ks.cam_result [of ?k "24 * hour" s] free by (cases "CheckAndMark (hd_Idem d) ?k (24 * hour) s") auto
  have s1: "orders s1 = orders s" "gauges s1 = gauges s" using c idem_frame [of ?k "24 * hour" s] by simp_all
  have ord: "ord s1 = r" using assms(2) s1(1) by blast
  obtain s2 where u: "SubmitExposure (hd_FX d) ?q ?k s1 = (Inl e, s2)"
    using fx c by (cases "SubmitExposure (hd_FX d) ?q ?k s1") auto
  with c ord pos fx_frame [of ?q ?k s1] s1 show ?thesis
    by (auto simp: hedge_OnAggregateFill_def Let_def metric_gauges metric_orders)
qed

end

section \<open>The hedger on the in-memory stores\<close>

abbreviation W_hedge :: "(float64 \<Rightarrow> decimal) \<Rightarrow> 'n service FXHedging \<Rightarrow> 'n service HedgeDeps" where
  "W_hedge dec F \<equiv> \<lparr>hd_FX = F, hd_Orders = W_order dec, hd_Idem = W_idem dec\<rparr>"

interpretation whedge: hedger_env "W_hedge dec devFX" "\<lambda>w. order_map (w_order w)"
  "\<lambda>w. ms_seen (w_idem w)" "\<lambda>w. w_clock w (w_reads w)" "world_rt dec" w_metrics for dec
  using wi.mem.idem_store_axioms [of dec]
  by (simp add: hedger_env_def hedger_env_axioms_def wo.mem.order_store_axioms W_simps Let_def
      devFX_def fakeFX_def in_slot_def case_prod_beta)

end
