(* ===== verification/Float_Tracker.thy ===== *)
theory Float_Tracker
  imports World Config
begin

text \<open>
  \<^verbatim>\<open>internal/float/tracker.go\<close>: the float position of a currency grows with each fill, is
  checked against the configured bounds, and is swept when it matures. \<open>OnBreach\<close> and
  \<open>OnAdjust\<close> are the callbacks of the application, any functions on the state.
\<close>

section \<open>Operations\<close>

record 's FloatDeps =
  fd_Cfg :: Config
  fd_Floats :: "'s FloatStore"
  fd_OnBreach :: "(string \<Rightarrow> decimal \<Rightarrow> string \<Rightarrow> 's \<Rightarrow> 's) option"
  fd_OnAdjust :: "(string \<Rightarrow> decimal \<Rightarrow> uuid \<Rightarrow> 's \<Rightarrow> 's) option"

definition breach :: "'s Rt \<Rightarrow> 's FloatDeps \<Rightarrow> string \<Rightarrow> decimal \<Rightarrow> string \<Rightarrow> 's \<Rightarrow> 's" where
  "breach rt d fiat amount bound s =
     (let s1 = Metric rt (FloatBreach fiat bound) s
      in case fd_OnBreach d of None \<Rightarrow> s1 | Some h \<Rightarrow> h fiat amount bound s1)"

definition enforceBounds :: "'s Rt \<Rightarrow> 's FloatDeps \<Rightarrow> string \<Rightarrow> 's \<Rightarrow> 's" where
  "enforceBounds rt d fiat s =
     (case GetFloat (fd_Floats d) fiat s of
        (Inl e, s1) \<Rightarrow> s1
      | (Inr pos, s1) \<Rightarrow>
          let amount = fp_ShortFiatAmount pos;
              s2 = Metric rt (FloatUSD fiat amount) s1;
              s3 = (if MaxFloatUSD (fd_Cfg d) > 0 \<and> amount > NewFromFloat rt (MaxFloatUSD (fd_Cfg d))
                    then breach rt d fiat amount ''max'' s2 else s2)
          in if MinFloatUSD (fd_Cfg d) > 0 \<and> amount < NewFromFloat rt (MinFloatUSD (fd_Cfg d))
             then breach rt d fiat amount ''min'' s3 else s3)"

definition fill_position ::
  "Config \<Rightarrow> time \<Rightarrow> Batch \<Rightarrow> AggregateOrder \<Rightarrow> string \<Rightarrow> string \<Rightarrow> FloatPosition" where
  "fill_position cfg now b ord fiat asset =
     \<lparr>fp_ID = [], fp_FiatCurrency = fiat, fp_ShortFiatAmount = o_NotionalUSD ord,
      fp_LongCryptoAmount = o_TotalFilled ord, fp_LongCryptoAsset = asset,
      fp_SettlementDueAt = now + i64 (SettlementDaysFor cfg fiat * 24 * hour), fp_Settled = False,
      fp_BatchID = b_ID b, fp_CreatedAt = zero_time, fp_UpdatedAt = zero_time\<rparr>"

definition float_OnAggregateFill ::
  "'s Rt \<Rightarrow> 's FloatDeps \<Rightarrow> Batch \<Rightarrow> ('s, AggregateOrder) ptr \<Rightarrow> string \<Rightarrow> string \<Rightarrow> 's \<Rightarrow> error option \<times> 's"
where
  "float_OnAggregateFill rt d b ord fiat asset s =
     (let (now, s1) = Now rt s
      in case AddFloat (fd_Floats d) (fill_position (fd_Cfg d) now b (ord s1) fiat asset) s1 of
           (Inl e, s2) \<Rightarrow> (Some e, s2)
         | (Inr _, s2) \<Rightarrow>
             let s3 = (case fd_OnAdjust d of
                         None \<Rightarrow> s2
                       | Some h \<Rightarrow> h fiat (o_NotionalUSD (ord s2)) (b_ID b) s2)
             in (None, enforceBounds rt d fiat s3))"

definition float_Get :: "'s FloatDeps \<Rightarrow> string \<Rightarrow> 's \<Rightarrow> (error + FloatPosition) \<times> 's" where
  "float_Get d fiat s = GetFloat (fd_Floats d) fiat s"

definition float_List :: "'s FloatDeps \<Rightarrow> 's \<Rightarrow> (error + FloatPosition list) \<times> 's" where
  "float_List d s = ListFloat (fd_Floats d) s"

fun sweep_loop :: "'s FloatDeps \<Rightarrow> FloatPosition list \<Rightarrow> int \<Rightarrow> 's \<Rightarrow> int \<times> 's" where
  "sweep_loop d [] swept s = (swept, s)"
| "sweep_loop d (p # ps) swept s =
     (case SettleFloat (fd_Floats d) (fp_ID p) s of
        (Inl e, s1) \<Rightarrow> sweep_loop d ps swept s1
      | (Inr _, s1) \<Rightarrow> sweep_loop d ps (swept + 1) s1)"

definition SweepMatured :: "'s Rt \<Rightarrow> 's FloatDeps \<Rightarrow> 's \<Rightarrow> (error + int) \<times> 's" where
  "SweepMatured rt d s =
     (let (now, s1) = Now rt s
      in case ListMaturedFloat (fd_Floats d) now s1 of
           (Inl e, s2) \<Rightarrow> (Inl e, s2)
         | (Inr matured, s2) \<Rightarrow>
             let (swept, s3) = sweep_loop d matured 0 s2;
                 s4 = (if swept > 0 then enforceBounds rt d (fp_FiatCurrency (hd matured)) s3 else s3)
             in (Inr swept, s4))"

text \<open>The loop for as many ticks as come before the context ends, and its period.\<close>

definition sweeper_interval :: "duration \<Rightarrow> duration" where
  "sweeper_interval interval = (if interval \<le> 0 then 30 * second else interval)"

primrec Sweeper_ticks :: "nat \<Rightarrow> 's Rt \<Rightarrow> 's FloatDeps \<Rightarrow> 's \<Rightarrow> 's" where
  "Sweeper_ticks 0 rt d s = s"
| "Sweeper_ticks (Suc n) rt d s = Sweeper_ticks n rt d (snd (SweepMatured rt d s))"

section \<open>The tracker over the contract of the float store\<close>

text \<open>The alarms a position raises: which bounds it breaks.\<close>

definition breaches :: "(float64 \<Rightarrow> decimal) \<Rightarrow> Config \<Rightarrow> decimal \<Rightarrow> string list" where
  "breaches dec cfg amount =
     (if MaxFloatUSD cfg > 0 \<and> amount > dec (MaxFloatUSD cfg) then [''max''] else []) @
     (if MinFloatUSD cfg > 0 \<and> amount < dec (MinFloatUSD cfg) then [''min''] else [])"

locale tracker_env = float_store "fd_Floats d" short long
  for d :: "'s FloatDeps" and short and long +
  fixes rt :: "'s Rt"
  assumes now_float: "short (snd (Now rt s)) = short s" "long (snd (Now rt s)) = long s"
    and metric_float: "short (Metric rt x s) = short s" "long (Metric rt x s) = long s"
begin

text \<open>
  Bounds are enforced on the whole position of the currency: the gauge is set to it and each
  broken bound raises its alarm and calls the breach callback, in this order.
\<close>

lemma enforceBounds_eq:
  "enforceBounds rt d fiat s =
     fold (\<lambda>bd t. breach rt d fiat (short s fiat) bd t) (breaches (NewFromFloat rt) (fd_Cfg d) (short s fiat))
       (Metric rt (FloatUSD fiat (short s fiat)) (snd (GetFloat (fd_Floats d) fiat s)))"
  using get_amounts [of fiat s]
  by (cases "GetFloat (fd_Floats d) fiat s") (auto simp: enforceBounds_def breaches_def Let_def)

text \<open>A fill increases its currency by exactly its amounts, whatever happens afterwards.\<close>

lemma fill_amounts:
  assumes "fd_OnAdjust d = None" and "fd_OnBreach d = None" and "\<And>t. ord t = r"
    and "(e, s') = float_OnAggregateFill rt d b ord fiat asset s"
  shows "e = None" and "short s' c = short s c + (if c = fiat then o_NotionalUSD r else 0)"
    and "long s' c = long s c + (if c = fiat then o_TotalFilled r else 0)"
proof -
  obtain now s1 where n: "Now rt s = (now, s1)" by fastforce
  let ?p = "fill_position (fd_Cfg d) now b r fiat asset"
  obtain q s2 where a: "AddFloat (fd_Floats d) ?p s1 = (Inr q, s2)"
    using add_ok [of ?p s1] by (cases "AddFloat (fd_Floats d) ?p s1") auto
  have br: "short (fold (\<lambda>bd t. breach rt d fiat x bd t) bs t) = short t"
      "long (fold (\<lambda>bd t. breach rt d fiat x bd t) bs t) = long t" for x bs t
    by (induction bs arbitrary: t) (simp_all add: breach_def Let_def assms(2) metric_float)
  have en: "short (enforceBounds rt d fiat t) = short t" "long (enforceBounds rt d fiat t) = long t" for t
    by (simp_all add: enforceBounds_eq br metric_float get_float_frame)
  have "(e, s') = (None, enforceBounds rt d fiat s2)"
    using assms n a by (simp add: float_OnAggregateFill_def)
  moreover have "short s2 c = short s c + (if c = fiat then o_NotionalUSD r else 0)"
      "long s2 c = long s c + (if c = fiat then o_TotalFilled r else 0)"
    using add_short [of ?p s1 c] add_long [of ?p s1 c] a n now_float [of s]
    by (auto simp: fill_position_def)
  ultimately show "e = None" "short s' c = short s c + (if c = fiat then o_NotionalUSD r else 0)"
      "long s' c = long s c + (if c = fiat then o_TotalFilled r else 0)"
    by (simp_all add: en)
qed

end

section \<open>The tracker on the in-memory stores\<close>

abbreviation W_floatdeps where
  "W_floatdeps cfg dec onBreach onAdjust \<equiv>
     \<lparr>fd_Cfg = cfg, fd_Floats = W_float dec, fd_OnBreach = onBreach, fd_OnAdjust = onAdjust\<rparr>"

interpretation wtrack: tracker_env "W_floatdeps cfg dec onBreach onAdjust" "\<lambda>w c. short_of c (w_float w)"
  "\<lambda>w c. long_of c (w_float w)" "world_rt dec" for cfg dec onBreach onAdjust
  by (simp add: tracker_env_def tracker_env_axioms_def wl.mem.float_store_axioms)

lemma enforceBounds_world:
  "enforceBounds (world_rt dec) (W_floatdeps cfg dec onBreach onAdjust) fiat w =
     fold (\<lambda>bd t. breach (world_rt dec) (W_floatdeps cfg dec onBreach onAdjust) fiat (short_of fiat (w_float w)) bd t)
       (breaches dec cfg (short_of fiat (w_float w)))
       (w\<lparr>w_metrics := w_metrics w @ [FloatUSD fiat (short_of fiat (w_float w))]\<rparr>)"
  by (simp add: wtrack.enforceBounds_eq W_simps)

lemma enforceBounds_quiet:
  assumes "onBreach = None"
  shows "enforceBounds (world_rt dec) (W_floatdeps cfg dec onBreach onAdjust) fiat w =
    w\<lparr>w_metrics := w_metrics w @ FloatUSD fiat (short_of fiat (w_float w)) #
        map (FloatBreach fiat) (breaches dec cfg (short_of fiat (w_float w)))\<rparr>"
proof -
  have "fold (\<lambda>bd t. breach (world_rt dec) (W_floatdeps cfg dec None onAdjust) fiat x bd t) bs v =
      v\<lparr>w_metrics := w_metrics v @ map (FloatBreach fiat) bs\<rparr>" for x bs and v :: "'a world"
    by (induction bs arbitrary: v) (simp_all add: breach_def)
  then show ?thesis by (simp add: enforceBounds_world assms)
qed

text \<open>
  A sweep settles every position that is due: none is left unsettled that was due at the
  instant the sweep read, and the number returned is the number of positions that were.
\<close>

lemma sweep_loop_world:
  assumes "distinct (map fp_ID (w_float w))" and "fp_ID ` set ps \<subseteq> fp_ID ` set (w_float w)"
  shows "\<exists>w'. sweep_loop (W_floatdeps cfg dec onBreach onAdjust) ps n w = (n + int (length ps), w') \<and>
      map fp_ID (w_float w') = map fp_ID (w_float w) \<and>
      (\<forall>t. filter (isMatured t) (w_float w') =
        filter (\<lambda>r. isMatured t r \<and> fp_ID r \<notin> fp_ID ` set ps) (w_float w)) \<and>
      (\<forall>c. short_of c (w_float w') = short_of c (w_float w))"
  using assms
proof (induction ps arbitrary: n w)
  case Nil
  then show ?case by simp
next
  case (Cons p ps)
  let ?now = "w_clock w (w_reads w)"
  obtain q where q: "fst (mf_SettleFloat ?now (fp_ID p) (w_float w)) = Inr q"
    using mf_SettleFloat_known [of "fp_ID p" "w_float w" ?now] Cons.prems(2) by auto
  let ?w = "w\<lparr>w_reads := Suc (w_reads w), w_float := snd (mf_SettleFloat ?now (fp_ID p) (w_float w))\<rparr>"
  have step: "sweep_loop (W_floatdeps cfg dec onBreach onAdjust) (p # ps) n w =
      sweep_loop (W_floatdeps cfg dec onBreach onAdjust) ps (n + 1) ?w"
    using q by (simp add: W_simps Let_def)
  have ids: "map fp_ID (w_float ?w) = map fp_ID (w_float w)" by (simp add: mf_SettleFloat_ids)
  then have set_ids: "fp_ID ` set (w_float ?w) = fp_ID ` set (w_float w)" by (metis set_map)
  obtain w' where w': "sweep_loop (W_floatdeps cfg dec onBreach onAdjust) ps (n + 1) ?w =
        ((n + 1) + int (length ps), w')" "map fp_ID (w_float w') = map fp_ID (w_float ?w)"
      "\<forall>t. filter (isMatured t) (w_float w') =
        filter (\<lambda>r. isMatured t r \<and> fp_ID r \<notin> fp_ID ` set ps) (w_float ?w)"
      "\<forall>c. short_of c (w_float w') = short_of c (w_float ?w)"
    using Cons.IH [of ?w "n + 1"] Cons.prems ids set_ids by auto
  have "filter (isMatured t) (w_float w') =
      filter (\<lambda>r. isMatured t r \<and> fp_ID r \<notin> fp_ID ` set (p # ps)) (w_float w)" for t
  proof -
    have "filter (isMatured t) (w_float w') =
        filter (\<lambda>r. fp_ID r \<notin> fp_ID ` set ps) (filter (isMatured t) (w_float ?w))"
      using w'(3) by (simp add: conj_commute)
    also have "\<dots> = filter (\<lambda>r. fp_ID r \<notin> fp_ID ` set ps)
        (filter (\<lambda>r. isMatured t r \<and> fp_ID r \<noteq> fp_ID p) (w_float w))"
      using mf_SettleFloat_matured [OF Cons.prems(1), of t ?now "fp_ID p"] by simp
    finally show ?thesis by (simp add: conj_ac)
  qed
  then show ?case using w' step ids by (simp add: mf_SettleFloat_short)
qed

lemma sweep_world:
  assumes "distinct (map fp_ID (w_float w))"
    and "(r, w') = SweepMatured (world_rt dec) (W_floatdeps cfg dec None onAdjust) w"
    and now: "now = w_clock w (w_reads w)"
  shows "r = Inr (int (length (filter (isMatured now) (w_float w))))"
    and "filter (isMatured now) (w_float w') = []"
    and "short_of c (w_float w') = short_of c (w_float w)"
proof -
  let ?ps = "mf_ListMaturedFloat now (w_float w)" and ?v = "w\<lparr>w_reads := Suc (w_reads w)\<rparr>"
  have len: "length ?ps = length (filter (isMatured now) (w_float w))"
    by (simp add: mf_ListMaturedFloat_def)
  have ids: "fp_ID ` set ?ps = fp_ID ` {x \<in> set (w_float w). isMatured now x}"
    by (simp add: mf_ListMaturedFloat_set)
  obtain v where v: "sweep_loop (W_floatdeps cfg dec None onAdjust) ?ps 0 ?v = (int (length ?ps), v)"
      "\<forall>t. filter (isMatured t) (w_float v) =
        filter (\<lambda>r. isMatured t r \<and> fp_ID r \<notin> fp_ID ` set ?ps) (w_float w)"
      "\<forall>c. short_of c (w_float v) = short_of c (w_float w)"
    using sweep_loop_world [of ?v ?ps cfg dec None onAdjust 0] assms(1) ids by auto
  have w': "r = Inr (int (length ?ps))" "w_float w' = w_float v"
    using assms(2) v(1) now by (auto simp: SweepMatured_def W_simps enforceBounds_quiet split: if_splits)
  show "r = Inr (int (length (filter (isMatured now) (w_float w))))" using w'(1) len by simp
  show "filter (isMatured now) (w_float w') = []"
    using v(2) ids by (auto simp: w'(2) filter_empty_conv)
  show "short_of c (w_float w') = short_of c (w_float w)" using v(3) by (simp add: w'(2))
qed

end
