(* ===== verification/Emitter.thy ===== *)
theory Emitter
  imports Downstream
begin

text \<open>
  \<^verbatim>\<open>internal/ledger/emitter.go\<close>: the outbox. \<open>emit_append\<close> records an event under its
  deduplication key; \<open>Dispatch\<close> posts pending events to the ledger and the audit log and marks
  an entry emitted when both accepted it. A nil client is \<open>None\<close>. The text of a payload is
  made by \<open>em_marshal\<close> and read by \<open>em_unmarshal\<close> (the JSON library).
\<close>

section \<open>Operations\<close>

definition AggBatch :: string where "AggBatch = ''batch''"
definition AggAggregate :: string where "AggAggregate = ''aggregate''"
definition AggFunding :: string where "AggFunding = ''funding''"
definition AggFloat :: string where "AggFloat = ''float''"
definition AggRebalance :: string where "AggRebalance = ''rebalance''"

definition EvBatchOpen :: string where "EvBatchOpen = ''batch.open''"
definition EvBatchClose :: string where "EvBatchClose = ''batch.close''"
definition EvAggregateExec :: string where "EvAggregateExec = ''aggregate.execute''"
definition EvFunding :: string where "EvFunding = ''funding.create''"
definition EvFloatAdjust :: string where "EvFloatAdjust = ''float.adjust''"
definition EvRebalance :: string where "EvRebalance = ''rebalance.create''"

lemmas event_names = AggBatch_def AggAggregate_def AggFunding_def AggFloat_def AggRebalance_def
  EvBatchOpen_def EvBatchClose_def EvAggregateExec_def EvFunding_def EvFloatAdjust_def EvRebalance_def

record Payload =
  pl_Aggregate :: string
  pl_EventType :: string
  pl_BatchID :: uuid
  pl_NotionalUSD :: decimal
  pl_Asset :: string
  pl_FiatCurrency :: string
  pl_Detail :: string

text \<open>The zero identifier.\<close>

definition nil_uuid :: uuid where
  "nil_uuid = ''00000000-0000-0000-0000-000000000000''"

definition no_payload :: Payload where
  "no_payload = \<lparr>pl_Aggregate = [], pl_EventType = [], pl_BatchID = nil_uuid, pl_NotionalUSD = 0,
     pl_Asset = [], pl_FiatCurrency = [], pl_Detail = []\<rparr>"

record 's EmitDeps =
  em_Outbox :: "'s OutboxStore"
  em_Ledger :: "'s LedgerAccounting option"
  em_Audit :: "'s AuditLog option"
  em_marshal :: "Payload \<Rightarrow> string"
  em_unmarshal :: "string \<Rightarrow> Payload"

definition Key :: "string \<Rightarrow> string \<Rightarrow> uuid \<Rightarrow> string" where
  "Key agg evType uid = agg @ ''.'' @ evType @ '':'' @ uid"

definition emit_append ::
  "'s EmitDeps \<Rightarrow> string \<Rightarrow> string \<Rightarrow> string \<Rightarrow> Payload \<Rightarrow> 's \<Rightarrow> error option \<times> 's" where
  "emit_append d agg evType dedupKey p s =
     (let p1 = p\<lparr>pl_Aggregate := agg, pl_EventType := evType\<rparr>;
          body = em_marshal d p1;
          (r, s1) = Append (em_Outbox d)
            \<lparr>oe_ID = [], oe_Aggregate = agg, oe_EventType = evType, oe_DedupKey = dedupKey,
             oe_Payload = body, oe_CreatedAt = zero_time, oe_EmittedAt = zero_time\<rparr> s
      in (case r of Inl e \<Rightarrow> Some e | Inr _ \<Rightarrow> None, s1))"

definition ledger_post :: "Payload \<Rightarrow> LedgerPost" where
  "ledger_post p =
     \<lparr>lp_Aggregate = pl_Aggregate p, lp_EventType = pl_EventType p, lp_NotionalUSD = pl_NotionalUSD p,
      lp_Asset = pl_Asset p, lp_FiatCurrency = pl_FiatCurrency p, lp_BatchID = pl_BatchID p\<rparr>"

definition audit_event :: "Payload \<Rightarrow> AuditEvent" where
  "audit_event p =
     \<lparr>ae_Aggregate = pl_Aggregate p, ae_EventType = pl_EventType p, ae_Actor = [],
      ae_BatchID = pl_BatchID p, ae_Detail = pl_Detail p\<rparr>"

text \<open>One downstream of an entry: whether the loop goes on with the entry, with its metric.\<close>

definition post_ledger :: "'s Rt \<Rightarrow> 's EmitDeps \<Rightarrow> Payload \<Rightarrow> string \<Rightarrow> 's \<Rightarrow> bool \<times> 's" where
  "post_ledger rt d p key s =
     (case em_Ledger d of
        None \<Rightarrow> (True, s)
      | Some l \<Rightarrow>
          (case Post l (ledger_post p) key s of
             (Inl e, s1) \<Rightarrow> (False, Metric rt (LedgerPosted (pl_Aggregate p) ''error'') s1)
           | (Inr _, s1) \<Rightarrow> (True, Metric rt (LedgerPosted (pl_Aggregate p) ''ok'') s1)))"

definition emit_audit :: "'s Rt \<Rightarrow> 's EmitDeps \<Rightarrow> Payload \<Rightarrow> string \<Rightarrow> 's \<Rightarrow> bool \<times> 's" where
  "emit_audit rt d p key s =
     (case em_Audit d of
        None \<Rightarrow> (True, s)
      | Some a \<Rightarrow>
          (case Emit a (audit_event p) key s of
             (Inl e, s1) \<Rightarrow> (False, Metric rt (AuditEmitted (pl_Aggregate p) ''error'') s1)
           | (Inr _, s1) \<Rightarrow> (True, Metric rt (AuditEmitted (pl_Aggregate p) ''ok'') s1)))"

definition dispatch_entry :: "'s Rt \<Rightarrow> 's EmitDeps \<Rightarrow> OutboxEntry \<Rightarrow> 's \<Rightarrow> bool \<times> 's" where
  "dispatch_entry rt d ent s =
     (let p = em_unmarshal d (oe_Payload ent); key = oe_DedupKey ent;
          (ok, s1) = post_ledger rt d p key s
      in if \<not> ok then (False, s1)
         else
           let (ok, s2) = emit_audit rt d p key s1
           in if \<not> ok then (False, s2)
              else (case MarkEmitted (em_Outbox d) (oe_ID ent) s2 of
                      (Inl e, s3) \<Rightarrow> (False, s3)
                    | (Inr _, s3) \<Rightarrow> (True, s3)))"

fun dispatch_loop :: "'s Rt \<Rightarrow> 's EmitDeps \<Rightarrow> OutboxEntry list \<Rightarrow> int \<Rightarrow> 's \<Rightarrow> int \<times> 's" where
  "dispatch_loop rt d [] processed s = (processed, s)"
| "dispatch_loop rt d (ent # ents) processed s =
     (let (ok, s1) = dispatch_entry rt d ent s
      in dispatch_loop rt d ents (if ok then processed + 1 else processed) s1)"

definition Dispatch :: "'s Rt \<Rightarrow> 's EmitDeps \<Rightarrow> int \<Rightarrow> 's \<Rightarrow> (error + int) \<times> 's" where
  "Dispatch rt d limit s =
     (case ListPending (em_Outbox d) limit s of
        (Inl e, s1) \<Rightarrow> (Inl e, s1)
      | (Inr pending, s1) \<Rightarrow> let (n, s2) = dispatch_loop rt d pending 0 s1 in (Inr n, s2))"

definition dispatcher_interval :: "duration \<Rightarrow> duration" where
  "dispatcher_interval interval = (if interval \<le> 0 then 5 * second else interval)"

primrec Dispatcher_ticks :: "nat \<Rightarrow> 's Rt \<Rightarrow> 's EmitDeps \<Rightarrow> 's \<Rightarrow> 's" where
  "Dispatcher_ticks 0 rt d s = s"
| "Dispatcher_ticks (Suc n) rt d s = Dispatcher_ticks n rt d (snd (Dispatch rt d 100 s))"

section \<open>Keys\<close>

text \<open>
  The keys of the events the application appends are distinct for distinct kinds of events or
  distinct entities: the deduplication never merges two events.
\<close>

definition event_kinds :: "(string \<times> string) set" where
  "event_kinds = {(AggBatch, EvBatchOpen), (AggBatch, EvBatchClose), (AggAggregate, EvAggregateExec),
     (AggFunding, EvFunding), (AggFloat, EvFloatAdjust), (AggRebalance, EvRebalance)}"

lemma Key_inject:
  "(a, e) \<in> event_kinds \<Longrightarrow> (a', e') \<in> event_kinds \<Longrightarrow>
   Key a e uid = Key a' e' uid' \<longleftrightarrow> a = a' \<and> e = e' \<and> uid = uid'"
  unfolding event_kinds_def insert_iff empty_iff prod.inject
  by (elim disjE conjE; simp add: Key_def event_names)

section \<open>The dispatcher over the contract of the outbox\<close>

text \<open>
  \<open>acc s k\<close> holds when both downstreams have accepted an event under the key \<open>k\<close>. What the
  clients promise: accepting is permanent, and a pair of successful calls makes it true.
\<close>

locale emitter_env = outbox_store "em_Outbox d" entries owf
  for d :: "'s EmitDeps" and entries and owf +
  fixes rt :: "'s Rt" and ledgered :: "'s \<Rightarrow> string \<Rightarrow> bool" and audited :: "'s \<Rightarrow> string \<Rightarrow> bool"
  assumes ledger_step: "entries (snd (post_ledger rt d p k s)) = entries s"
      "owf s \<Longrightarrow> owf (snd (post_ledger rt d p k s))"
      "audited (snd (post_ledger rt d p k s)) = audited s"
      "ledgered s k' \<Longrightarrow> ledgered (snd (post_ledger rt d p k s)) k'"
      "fst (post_ledger rt d p k s) \<Longrightarrow> ledgered (snd (post_ledger rt d p k s)) k"
    and audit_step: "entries (snd (emit_audit rt d p k s)) = entries s"
      "owf s \<Longrightarrow> owf (snd (emit_audit rt d p k s))"
      "ledgered (snd (emit_audit rt d p k s)) = ledgered s"
      "audited s k' \<Longrightarrow> audited (snd (emit_audit rt d p k s)) k'"
      "fst (emit_audit rt d p k s) \<Longrightarrow> audited (snd (emit_audit rt d p k s)) k"
    and mark_frame: "ledgered (snd (MarkEmitted (em_Outbox d) uid s)) = ledgered s"
      "audited (snd (MarkEmitted (em_Outbox d) uid s)) = audited s"
      "owf s \<Longrightarrow> owf (snd (MarkEmitted (em_Outbox d) uid s))"
    and pending_delivery: "ledgered (snd (ListPending (em_Outbox d) n s)) = ledgered s"
      "audited (snd (ListPending (em_Outbox d) n s)) = audited s"
begin

text \<open>What an entry owes: it is pending, or both downstreams have it.\<close>

definition owed :: "'s \<Rightarrow> string \<Rightarrow> bool" where
  "owed s k \<longleftrightarrow> k \<in> oe_DedupKey ` set (filter is_pending (entries s))"

definition delivered :: "'s \<Rightarrow> string \<Rightarrow> bool" where
  "delivered s k \<longleftrightarrow> ledgered s k \<and> audited s k"

lemma entry_step:
  assumes "owf s" and "ent \<in> set (entries s)" and "(ok, s') = dispatch_entry rt d ent s"
  shows "owf s'" and "delivered s k \<Longrightarrow> delivered s' k"
    and "if ok then filter is_pending (entries s') = filter (\<lambda>e. is_pending e \<and> oe_ID e \<noteq> oe_ID ent) (entries s) \<and>
             delivered s' (oe_DedupKey ent)
         else entries s' = entries s"
proof -
  let ?p = "em_unmarshal d (oe_Payload ent)" and ?k = "oe_DedupKey ent"
  obtain ok1 s1 where 1: "post_ledger rt d ?p ?k s = (ok1, s1)" by fastforce
  obtain ok2 s2 where 2: "emit_audit rt d ?p ?k s1 = (ok2, s2)" by fastforce
  obtain r s3 where 3: "MarkEmitted (em_Outbox d) (oe_ID ent) s2 = (r, s3)" by fastforce
  note l = ledger_step [where p = ?p and k = ?k and s = s, unfolded 1 fst_conv snd_conv]
  note a = audit_step [where p = ?p and k = ?k and s = s1, unfolded 2 fst_conv snd_conv]
  note m = mark_frame [where uid = "oe_ID ent" and s = s2, unfolded 3 fst_conv snd_conv]
  have known: "r = Inr ()"
    using mark_known [of s2 ent] assms(1,2) l(1,2) a(1,2) 3 by simp
  have pend: "filter is_pending (entries s3) = filter (\<lambda>e. is_pending e \<and> oe_ID e \<noteq> oe_ID ent) (entries s)"
    using mark_pending [of s2 "oe_ID ent"] assms(1) l(1,2) a(1,2) 3 by simp
  have e: "(ok, s') = (if \<not> ok1 then (False, s1) else if \<not> ok2 then (False, s2) else (True, s3))"
    using assms(3) 1 2 3 known by (simp add: dispatch_entry_def)
  show "owf s'" using e assms(1) l(2) a(2) m(3) by (auto split: if_splits)
  show "delivered s k \<Longrightarrow> delivered s' k"
    using e l(3,4) a(3,4) m(1,2) by (auto simp: delivered_def split: if_splits)
  show "if ok then filter is_pending (entries s') = filter (\<lambda>e. is_pending e \<and> oe_ID e \<noteq> oe_ID ent) (entries s) \<and>
             delivered s' (oe_DedupKey ent)
         else entries s' = entries s"
    using e pend l(1,5) a(1,3,5) m(1,2) by (auto simp: delivered_def split: if_splits)
qed

text \<open>
  A pass over pending entries: each stays pending or has been delivered, and the number
  returned is the number of entries that left the outbox.
\<close>

lemma loop_delivers:
  assumes "owf s" and "set ents \<subseteq> set (filter is_pending (entries s))" and "distinct (map oe_ID ents)"
    and "(n', s') = dispatch_loop rt d ents n s"
  shows "owf s' \<and> (\<forall>k. delivered s k \<longrightarrow> delivered s' k) \<and>
    set (filter is_pending (entries s')) \<subseteq> set (filter is_pending (entries s)) \<and>
    (\<forall>e \<in> set (filter is_pending (entries s)). e \<in> set (filter is_pending (entries s')) \<or> delivered s' (oe_DedupKey e)) \<and>
    int (length (filter is_pending (entries s))) = int (length (filter is_pending (entries s'))) + (n' - n)"
  using assms
proof (induction ents arbitrary: n s)
  case Nil
  then show ?case by simp
next
  case (Cons ent ents)
  let ?P = "\<lambda>s. filter is_pending (entries s)"
  obtain ok s1 where e: "(ok, s1) = dispatch_entry rt d ent s" by (metis surj_pair)
  have ent: "ent \<in> set (entries s)" using Cons.prems(2) by auto
  note st = entry_step [OF Cons.prems(1) ent e]
  let ?m = "if ok then n + 1 else n"
  have l: "(n', s') = dispatch_loop rt d ents ?m s1" using Cons.prems(4) e by (simp add: case_prod_beta) (metis fst_conv snd_conv)
  show ?case
  proof (cases ok)
    case False
    then have "entries s1 = entries s" using st(3) by simp
    with Cons.IH [OF st(1) _ _ l] Cons.prems(2,3) st(2) False show ?thesis by auto
  next
    case True
    have p1: "?P s1 = filter (\<lambda>x. oe_ID x \<noteq> oe_ID ent) (?P s)" and dv: "delivered s1 (oe_DedupKey ent)"
      using st(3) True by (simp_all add: conj_commute)
    have dist: "distinct (map oe_ID (?P s))"
      using entry_ids [OF Cons.prems(1)] by (simp add: distinct_map_filter)
    have "ent \<in> set (?P s)" using Cons.prems(2) by simp
    then have same: "x \<in> set (?P s) \<Longrightarrow> oe_ID x = oe_ID ent \<Longrightarrow> x = ent" for x
      using dist by (auto simp: distinct_map dest: inj_onD)
    have len: "int (length (?P s)) = int (length (?P s1)) + 1"
      using length_filter_out_key [OF dist \<open>ent \<in> set (?P s)\<close>] by (simp add: p1)
    have "set ents \<subseteq> set (?P s1)" using Cons.prems(2,3) by (force simp: p1 image_iff)
    from Cons.IH [OF st(1) this _ l] Cons.prems(3) have ih:
      "owf s'" "\<forall>k. delivered s1 k \<longrightarrow> delivered s' k" "set (?P s') \<subseteq> set (?P s1)"
      "\<forall>e \<in> set (?P s1). e \<in> set (?P s') \<or> delivered s' (oe_DedupKey e)"
      "int (length (?P s1)) = int (length (?P s')) + (n' - ?m)" by simp_all
    have "\<forall>e \<in> set (?P s). e \<in> set (?P s') \<or> delivered s' (oe_DedupKey e)"
    proof
      fix x
      assume x: "x \<in> set (?P s)"
      show "x \<in> set (?P s') \<or> delivered s' (oe_DedupKey x)"
      proof (cases "x = ent")
        case True
        then show ?thesis using ih(2) dv by simp
      next
        case False
        with x same have "x \<in> set (?P s1)" by (auto simp: p1)
        with ih(4) show ?thesis by blast
      qed
    qed
    with ih st(2) len True show ?thesis by (auto simp: p1)
  qed
qed

lemma Dispatch_delivers:
  assumes "owf s" and "0 < limit" and "(r, s') = Dispatch rt d limit s"
  shows "\<exists>n. r = Inr n \<and> owf s' \<and> (\<forall>k. delivered s k \<longrightarrow> delivered s' k) \<and>
    (\<forall>e \<in> set (filter is_pending (entries s)). e \<in> set (filter is_pending (entries s')) \<or> delivered s' (oe_DedupKey e)) \<and>
    int (length (filter is_pending (entries s))) = int (length (filter is_pending (entries s'))) + n"
proof -
  let ?ents = "take (nat limit) (filter is_pending (entries s))"
  obtain s1 where p: "ListPending (em_Outbox d) limit s = (Inr ?ents, s1)"
    using pending_result [OF assms(1,2)] by (cases "ListPending (em_Outbox d) limit s") auto
  have s1: "entries s1 = entries s" "owf s1" "delivered s1 = delivered s"
    using p pending_frame [of limit s] pending_delivery [of limit s] assms(1) by (auto simp: delivered_def fun_eq_iff)
  have "distinct (map oe_ID ?ents)"
    using entry_ids [OF assms(1)] by (simp add: distinct_map_filter take_map [symmetric] distinct_take)
  moreover have "set ?ents \<subseteq> set (filter is_pending (entries s1))" using s1(1) set_take_subset by metis
  moreover obtain n s2 where l: "(n, s2) = dispatch_loop rt d ?ents 0 s1" by (metis surj_pair)
  ultimately have "owf s2 \<and> (\<forall>k. delivered s1 k \<longrightarrow> delivered s2 k) \<and>
    (\<forall>e \<in> set (filter is_pending (entries s1)). e \<in> set (filter is_pending (entries s2)) \<or> delivered s2 (oe_DedupKey e)) \<and>
    int (length (filter is_pending (entries s1))) = int (length (filter is_pending (entries s2))) + (n - 0)"
    using loop_delivers [OF s1(2)] by blast
  moreover have "r = Inr n" "s' = s2" using assms(3) p l by (auto simp: Dispatch_def split: prod.splits)
  ultimately show ?thesis using s1 by simp
qed

end

section \<open>The dispatcher on the in-memory stores\<close>

abbreviation W_emit :: "(float64 \<Rightarrow> decimal) \<Rightarrow> (Payload \<Rightarrow> string) \<Rightarrow> (string \<Rightarrow> Payload) \<Rightarrow> 'n service EmitDeps" where
  "W_emit dec mar unm \<equiv>
     \<lparr>em_Outbox = W_outbox dec, em_Ledger = Some devLedger, em_Audit = Some devAudit,
      em_marshal = mar, em_unmarshal = unm\<rparr>"

abbreviation in_ledger :: "'n service \<Rightarrow> string \<Rightarrow> bool" where
  "in_ledger w \<equiv> fk_keys (x_ledger (w_ext w))"

abbreviation in_audit :: "'n service \<Rightarrow> string \<Rightarrow> bool" where
  "in_audit w \<equiv> fk_keys (x_audit (w_ext w))"

lemma post_ledger_world:
  "post_ledger (world_rt dec) (W_emit dec mar unm) p k w =
     (let f = fake_call (ledger_post p) k (x_ledger (w_ext w)); ok = (\<not> isl (fst f))
      in (ok, w\<lparr>w_ext := (w_ext w)\<lparr>x_ledger := snd f\<rparr>,
               w_metrics := w_metrics w @ [LedgerPosted (pl_Aggregate p) (if ok then ''ok'' else ''error'')]\<rparr>))"
  by (simp add: post_ledger_def devLedger_def fakeLedger_def in_slot_def FakeLedger_Post_def case_prod_beta
      Let_def split: sum.split)

lemma emit_audit_world:
  "emit_audit (world_rt dec) (W_emit dec mar unm) p k w =
     (let f = fake_call (audit_event p) k (x_audit (w_ext w)); ok = (\<not> isl (fst f))
      in (ok, w\<lparr>w_ext := (w_ext w)\<lparr>x_audit := snd f\<rparr>,
               w_metrics := w_metrics w @ [AuditEmitted (pl_Aggregate p) (if ok then ''ok'' else ''error'')]\<rparr>))"
  by (simp add: emit_audit_def devAudit_def fakeAudit_def in_slot_def FakeAudit_Emit_def case_prod_beta
      Let_def split: sum.split)

lemma fake_call_keys:
  "fk_keys f k' \<Longrightarrow> fk_keys (snd (fake_call q k f)) k'"
  "\<not> isl (fst (fake_call q k f)) \<Longrightarrow> fk_keys (snd (fake_call q k f)) k"
  by (auto simp: fake_call_def Let_def split: option.splits)

interpretation wemit: emitter_env "W_emit dec mar unm" "\<lambda>w. ot_rows (w_outbox w)" outbox_ok
  "world_rt dec" in_ledger in_audit for dec mar unm
  by (simp add: emitter_env_def emitter_env_axioms_def wob.outbox_store_axioms post_ledger_world
      emit_audit_world Let_def fake_call_keys W_outbox_simps outbox_ok_frame
      outbox_ok_mark [unfolded W_outbox_simps Let_def snd_conv])

text \<open>With both downstreams up, one pass empties an outbox that fits the limit.\<close>

definition both_up :: "'n service \<Rightarrow> bool" where
  "both_up w \<longleftrightarrow> fk_err (x_ledger (w_ext w)) = None \<and> \<not> fk_dupErr (x_ledger (w_ext w)) \<and>
     fk_err (x_audit (w_ext w)) = None \<and> \<not> fk_dupErr (x_audit (w_ext w))"

lemma dispatch_entry_up:
  assumes "outbox_ok w" and "both_up w" and "ent \<in> set (ot_rows (w_outbox w))"
    and "(ok, w') = dispatch_entry (world_rt dec) (W_emit dec mar unm) ent w"
  shows "ok \<and> both_up w'"
proof -
  let ?p = "unm (oe_Payload ent)" and ?k = "oe_DedupKey ent"
  obtain w1 where 1: "post_ledger (world_rt dec) (W_emit dec mar unm) ?p ?k w = (True, w1)" "both_up w1"
      "w_outbox w1 = w_outbox w" "outbox_ok w1"
    using assms(1,2) by (auto simp: post_ledger_world Let_def both_up_def fake_call_result outbox_ok_frame)
  obtain w2 where 2: "emit_audit (world_rt dec) (W_emit dec mar unm) ?p ?k w1 = (True, w2)" "both_up w2"
      "w_outbox w2 = w_outbox w" "outbox_ok w2"
    using 1 by (auto simp: emit_audit_world Let_def both_up_def fake_call_result outbox_ok_frame)
  have "fst (MarkEmitted (W_outbox dec) (oe_ID ent) w2) = Inr ()"
    using wob.mark_known [OF 2(4), of ent dec] 2(3) assms(3) by simp
  moreover have "both_up (snd (MarkEmitted (W_outbox dec) (oe_ID ent) w2))"
    using 2(2) by (simp add: W_outbox_simps Let_def both_up_def)
  ultimately show ?thesis
    using assms(4) 1 2 by (cases "MarkEmitted (W_outbox dec) (oe_ID ent) w2") (auto simp: dispatch_entry_def)
qed

lemma dispatch_loop_up:
  assumes "outbox_ok w" and "both_up w" and "set ents \<subseteq> set (filter is_pending (ot_rows (w_outbox w)))"
    and "distinct (map oe_ID ents)"
  shows "fst (dispatch_loop (world_rt dec) (W_emit dec mar unm) ents n w) = n + int (length ents)"
  using assms
proof (induction ents arbitrary: n w)
  case Nil
  then show ?case by simp
next
  case (Cons ent ents)
  obtain ok w1 where e: "(ok, w1) = dispatch_entry (world_rt dec) (W_emit dec mar unm) ent w" by (metis surj_pair)
  have ent: "ent \<in> set (ot_rows (w_outbox w))" using Cons.prems(3) by auto
  note up = dispatch_entry_up [OF Cons.prems(1,2) ent e]
  note st = wemit.entry_step [OF Cons.prems(1) ent e]
  have "set ents \<subseteq> set (filter is_pending (ot_rows (w_outbox w1)))"
    using st(3) up Cons.prems(3,4) by (force simp: image_iff)
  with Cons.IH [OF st(1), of "n + 1"] Cons.prems(4) up
  have "fst (dispatch_loop (world_rt dec) (W_emit dec mar unm) ents (n + 1) w1) = n + 1 + int (length ents)" by simp
  with e [symmetric] up show ?case by simp
qed

lemma Dispatch_up:
  assumes ok: "outbox_ok w" and up: "both_up w"
    and fits: "0 < limit" "int (length (filter is_pending (ot_rows (w_outbox w)))) \<le> limit"
    and d: "(r, w') = Dispatch (world_rt dec) (W_emit dec mar unm) limit w"
  shows "r = Inr (int (length (filter is_pending (ot_rows (w_outbox w))))) \<and>
    filter is_pending (ot_rows (w_outbox w')) = [] \<and>
    (\<forall>e \<in> set (filter is_pending (ot_rows (w_outbox w))). in_ledger w' (oe_DedupKey e) \<and> in_audit w' (oe_DedupKey e))"
proof -
  let ?P = "filter is_pending (ot_rows (w_outbox w))"
  have "ListPending (W_outbox dec) limit w = (Inr ?P, w)"
    using wob.pending_result [OF ok fits(1), of dec] fits(2) by (auto simp: W_outbox_simps nat_le_iff)
  moreover have "distinct (map oe_ID ?P)"
    using wob.entry_ids [OF ok] by (simp add: distinct_map_filter)
  ultimately have r: "r = Inr (int (length ?P))"
    using dispatch_loop_up [OF ok up, of ?P dec mar unm 0] d by (auto simp: Dispatch_def split: prod.splits)
  obtain n where n: "r = Inr n"
      "\<forall>e \<in> set ?P. e \<in> set (filter is_pending (ot_rows (w_outbox w'))) \<or> wemit.delivered w' (oe_DedupKey e)"
      "int (length ?P) = int (length (filter is_pending (ot_rows (w_outbox w')))) + n"
    using wemit.Dispatch_delivers [OF ok fits(1) d] by blast
  with r have nil: "filter is_pending (ot_rows (w_outbox w')) = []" by simp
  from n(2) have "\<forall>e \<in> set ?P. wemit.delivered w' (oe_DedupKey e)" unfolding nil by simp
  with r nil show ?thesis by (simp add: wemit.delivered_def)
qed

text \<open>
  A ledger that answers a repeated key with a conflict blocks an entry it has already
  posted: the entry stays pending, with every retry.
\<close>

lemma posted_entry_blocked:
  assumes "fk_dupErr (x_ledger (w_ext w))" and "in_ledger w (oe_DedupKey ent)"
    and "(ok, w') = dispatch_entry (world_rt dec) (W_emit dec mar unm) ent w"
  shows "\<not> ok \<and> w_outbox w' = w_outbox w \<and> fk_dupErr (x_ledger (w_ext w')) \<and> in_ledger w' (oe_DedupKey ent)"
proof -
  have "isl (fst (fake_call (ledger_post (unm (oe_Payload ent))) (oe_DedupKey ent) (x_ledger (w_ext w))))"
    using assms(1,2) by (simp add: fake_call_result split: option.split)
  with assms show ?thesis
    by (auto simp: dispatch_entry_def post_ledger_world Let_def fake_call_keys)
qed

end
