(* ===== verification/Funding.thy ===== *)
theory Funding
  imports Downstream Config
begin

text \<open>
  \<^verbatim>\<open>internal/funding/manager.go\<close> and \<^verbatim>\<open>loop.go\<close>: funding requests and
  rebalancing jobs are checked against the policy ceiling, persisted, dispatched to
  wallet-management under a key made of their identifier, and end completed or rejected.
  A method that returns a pointer and an error returns the pair of options, since both may be
  set. A nil client, model or hook is \<open>None\<close>.
\<close>

section \<open>Operations\<close>

record 's FundingDeps =
  fm_Cfg :: Config
  fm_Funding :: "'s FundingStore"
  fm_Rebalance :: "'s RebalancingStore"
  fm_Wallet :: "'s WalletManagement option"
  fm_Idem :: "'s IdemStore"
  fm_Projection :: "(string \<Rightarrow> 's \<Rightarrow> decimal \<times> 's) option"
  fm_OnFunding :: "(('s, FundingRequest) ptr \<Rightarrow> 's \<Rightarrow> 's) option"
  fm_OnRebalance :: "(('s, RebalancingJob) ptr \<Rightarrow> 's \<Rightarrow> 's) option"

definition MaxFundingAmount :: decimal where
  "MaxFundingAmount = 10000000"

definition demand_of :: "'s FundingDeps \<Rightarrow> string \<Rightarrow> 's \<Rightarrow> decimal \<times> 's" where
  "demand_of d asset s = (case fm_Projection d of None \<Rightarrow> (0, s) | Some f \<Rightarrow> f asset s)"

definition funding_request :: "string \<Rightarrow> string \<Rightarrow> decimal \<Rightarrow> string \<Rightarrow> FundingRequest" where
  "funding_request walletID asset amount source =
     \<lparr>fr_ID = [], fr_WalletID = walletID, fr_Asset = asset, fr_Amount = amount,
      fr_Status = FundingPending, fr_SourceVenue = source, fr_CreatedAt = zero_time,
      fr_CompletedAt = zero_time\<rparr>"

definition CreateFundingRequest ::
  "'s Rt \<Rightarrow> 's FundingDeps \<Rightarrow> string \<Rightarrow> string \<Rightarrow> decimal \<Rightarrow> string \<Rightarrow> 's
   \<Rightarrow> (('s, FundingRequest) ptr option \<times> error option) \<times> 's" where
  "CreateFundingRequest rt d walletID asset amount source s =
     (if \<not> amount > 0 then ((None, Some ErrInvalidAmount), s)
      else if amount > MaxFundingAmount
      then ((None, Some ErrPolicyViolation), Metric rt (FundingRequests asset ''rejected'') s)
      else
        let (demand, s1) = demand_of d asset s
        in case CreateFunding (fm_Funding d) (funding_request walletID asset amount source) s1 of
             (Inl e, s2) \<Rightarrow> ((None, Some e), s2)
           | (Inr fr, s2) \<Rightarrow>
               let s3 = (case fm_OnFunding d of None \<Rightarrow> s2 | Some h \<Rightarrow> h fr s2);
                   key = ''fund:'' @ fr_ID (fr s3);
                   (_, s4) = CheckAndMark (fm_Idem d) key (24 * hour) s3;
                   (failed, s5) = (case fm_Wallet d of
                       None \<Rightarrow> (False, s4)
                     | Some wl \<Rightarrow>
                         let (r, s5) = Fund wl \<lparr>fm_WalletID = walletID, fm_Asset = asset,
                               fm_Amount = amount, fm_Source = source\<rparr> key s4
                         in (isl r, s5))
               in if failed then
                    let (_, s6) = UpdateFundingStatus (fm_Funding d) (fr_ID (fr s5)) FundingRejected s5
                    in ((Some fr, None), Metric rt (FundingRequests asset ''failed'') s6)
                  else
                    (case UpdateFundingStatus (fm_Funding d) (fr_ID (fr s5)) FundingCompleted s5 of
                       (Inl e, s6) \<Rightarrow> ((Some fr, Some e), s6)
                     | (Inr _, s6) \<Rightarrow> ((Some fr, None), Metric rt (FundingRequests asset ''ok'') s6)))"

definition manager_ListFunding :: "'s FundingDeps \<Rightarrow> string \<Rightarrow> 's \<Rightarrow> (error + FundingRequest list) \<times> 's" where
  "manager_ListFunding d status s = ListFunding (fm_Funding d) status s"

definition rebalancing_job :: "string \<Rightarrow> string \<Rightarrow> string \<Rightarrow> decimal \<Rightarrow> string \<Rightarrow> RebalancingJob" where
  "rebalancing_job fromRef toRef asset amount reason =
     \<lparr>rj_ID = [], rj_FromRef = fromRef, rj_ToRef = toRef, rj_Asset = asset, rj_Amount = amount,
      rj_Status = RebalancePending, rj_Reason = reason, rj_CreatedAt = zero_time,
      rj_CompletedAt = zero_time\<rparr>"

definition Rebalance ::
  "'s Rt \<Rightarrow> 's FundingDeps \<Rightarrow> string \<Rightarrow> string \<Rightarrow> string \<Rightarrow> decimal \<Rightarrow> string \<Rightarrow> 's
   \<Rightarrow> (('s, RebalancingJob) ptr option \<times> error option) \<times> 's" where
  "Rebalance rt d fromRef toRef asset amount reason s =
     (if \<not> amount > 0 then ((None, Some ErrInvalidAmount), s)
      else if amount > MaxFundingAmount
      then ((None, Some ErrPolicyViolation), Metric rt (RebalanceJobs asset ''rejected'') s)
      else
        case CreateJob (fm_Rebalance d) (rebalancing_job fromRef toRef asset amount reason) s of
          (Inl e, s1) \<Rightarrow> ((None, Some e), s1)
        | (Inr job, s1) \<Rightarrow>
            let s2 = (case fm_OnRebalance d of None \<Rightarrow> s1 | Some h \<Rightarrow> h job s1);
                key = ''rebal:'' @ rj_ID (job s2);
                (_, s3) = CheckAndMark (fm_Idem d) key (24 * hour) s2;
                (failure, s4) = (case fm_Wallet d of
                    None \<Rightarrow> (None, s3)
                  | Some wl \<Rightarrow>
                      let (r, s4) = Fund wl \<lparr>fm_WalletID = toRef, fm_Asset = asset,
                            fm_Amount = amount, fm_Source = fromRef\<rparr> key s3
                      in (case r of Inl e \<Rightarrow> Some e | Inr _ \<Rightarrow> None, s4))
            in (case failure of
                  Some e \<Rightarrow>
                    let (_, s5) = UpdateJobStatus (fm_Rebalance d) (rj_ID (job s4)) RebalanceRejected s4
                    in ((Some job, Some e), Metric rt (RebalanceJobs asset ''failed'') s5)
                | None \<Rightarrow>
                    (case UpdateJobStatus (fm_Rebalance d) (rj_ID (job s4)) RebalanceCompleted s4 of
                       (Inl e, s5) \<Rightarrow> ((Some job, Some e), s5)
                     | (Inr _, s5) \<Rightarrow> ((Some job, None), Metric rt (RebalanceJobs asset ''ok'') s5))))"

definition manager_ListJobs :: "'s FundingDeps \<Rightarrow> string \<Rightarrow> 's \<Rightarrow> (error + RebalancingJob list) \<times> 's" where
  "manager_ListJobs d status s = ListJobs (fm_Rebalance d) status s"

section \<open>The rebalance loop\<close>

definition shortfall_of :: "decimal \<Rightarrow> decimal \<Rightarrow> decimal option" where
  "shortfall_of demand target =
     (let shortfall = demand - target
      in if \<not> shortfall > 0 then None
         else if shortfall > MaxFundingAmount then Some MaxFundingAmount else Some shortfall)"

definition checkAndRebalance :: "'s Rt \<Rightarrow> 's FundingDeps \<Rightarrow> string \<Rightarrow> string \<Rightarrow> 's \<Rightarrow> 's" where
  "checkAndRebalance rt d asset walletID s =
     (let target = HotWalletTargetFor (fm_Cfg d) asset
      in if target \<le> 0 then s
         else
           let (demand, s1) = demand_of d asset s
           in case shortfall_of demand (NewFromFloat rt target) of
                None \<Rightarrow> s1
              | Some shortfall \<Rightarrow>
                  snd (CreateFundingRequest rt d walletID asset shortfall ''rebalance-loop'' s1))"

definition rebalance_interval :: "duration \<Rightarrow> duration" where
  "rebalance_interval interval = (if interval \<le> 0 then 30 * second else interval)"

primrec Rebalance_ticks :: "nat \<Rightarrow> 's Rt \<Rightarrow> 's FundingDeps \<Rightarrow> string \<Rightarrow> string \<Rightarrow> 's \<Rightarrow> 's" where
  "Rebalance_ticks 0 rt d asset walletID s = s"
| "Rebalance_ticks (Suc n) rt d asset walletID s =
     Rebalance_ticks n rt d asset walletID (checkAndRebalance rt d asset walletID s)"

section \<open>Lemmas\<close>

text \<open>A top-up is positive and within the ceiling, so the manager never refuses it by policy.\<close>

lemma shortfall_in_policy:
  "shortfall_of demand target = Some x \<Longrightarrow> 0 < x \<and> x \<le> MaxFundingAmount \<and> x \<le> demand - target"
  by (auto simp: shortfall_of_def Let_def MaxFundingAmount_def split: if_splits)

lemma shortfall_none_iff: "shortfall_of demand target = None \<longleftrightarrow> demand \<le> target"
  by (auto simp: shortfall_of_def Let_def)

text \<open>A request outside the policy leaves no row, moves nothing, and at most counts the refusal.\<close>

lemma create_invalid:
  "amount \<le> 0 \<Longrightarrow> CreateFundingRequest rt d wal asset amount src s = ((None, Some ErrInvalidAmount), s)"
  by (simp add: CreateFundingRequest_def)

lemma create_over_ceiling:
  "amount > MaxFundingAmount \<Longrightarrow> CreateFundingRequest rt d wal asset amount src s =
     ((None, Some ErrPolicyViolation), Metric rt (FundingRequests asset ''rejected'') s)"
  by (simp add: CreateFundingRequest_def MaxFundingAmount_def)

section \<open>The manager over the contract of the funding store\<close>

text \<open>
  \<open>moves s\<close> are the moves requested of the wallet service, \<open>wallet_up s\<close> says whether it
  accepts the next one.
\<close>

locale manager_env = funding_store "fm_Funding d" fundings fresh later
  for d :: "'s FundingDeps" and fundings and fresh and later +
  fixes rt :: "'s Rt" and wl :: "'s WalletManagement" and moves :: "'s \<Rightarrow> FundingMoveRequest list"
    and wallet_up :: "'s \<Rightarrow> bool"
  assumes wallet: "fm_Wallet d = Some wl"
    and fund: "isl (fst (Fund wl q k s)) = (\<not> wallet_up s)"
      "moves (snd (Fund wl q k s)) = moves s @ [q]"
      "fundings (snd (Fund wl q k s)) = fundings s" "later s (snd (Fund wl q k s))"
    and store_frame: "moves (snd (CreateFunding (fm_Funding d) f s)) = moves s"
      "wallet_up (snd (CreateFunding (fm_Funding d) f s)) = wallet_up s"
      "moves (snd (UpdateFundingStatus (fm_Funding d) u st s)) = moves s"
    and idem: "fundings (snd (CheckAndMark (fm_Idem d) k ttl s)) = fundings s"
      "moves (snd (CheckAndMark (fm_Idem d) k ttl s)) = moves s"
      "wallet_up (snd (CheckAndMark (fm_Idem d) k ttl s)) = wallet_up s"
      "later s (snd (CheckAndMark (fm_Idem d) k ttl s))"
    and demand: "fundings (snd (demand_of d a s)) = fundings s" "moves (snd (demand_of d a s)) = moves s"
      "wallet_up (snd (demand_of d a s)) = wallet_up s" "fresh (snd (demand_of d a s)) = fresh s"
    and hook: "fm_OnFunding d = Some h \<Longrightarrow> fundings (h p s) = fundings s \<and> moves (h p s) = moves s \<and>
      wallet_up (h p s) = wallet_up s \<and> later s (h p s)"
    and metric: "fundings (Metric rt x s) = fundings s" "moves (Metric rt x s) = moves s"
begin

text \<open>
  A request within the policy is persisted under a new identifier, dispatched once to the
  wallet service for its amount, and recorded completed when the service accepted the move,
  rejected when it did not. The caller gets the request in both cases.
\<close>

lemma create_dispatches:
  assumes "fresh s" and amount: "0 < amount" "amount \<le> MaxFundingAmount"
  shows "\<exists>p uid t t' s'.
    CreateFundingRequest rt d wal asset amount src s = ((Some p, None), s') \<and> fundings s uid = None \<and>
    fundings s' = (fundings s)(uid \<mapsto> funding_status t' (if wallet_up s then FundingCompleted else FundingRejected)
      (new_funding uid t (funding_request wal asset amount src))) \<and>
    moves s' = moves s @ [\<lparr>fm_WalletID = wal, fm_Asset = asset, fm_Amount = amount, fm_Source = src\<rparr>]"
proof -
  let ?f = "funding_request wal asset amount src"
  let ?q = "\<lparr>fm_WalletID = wal, fm_Asset = asset, fm_Amount = amount, fm_Source = src\<rparr>"
  obtain dm s1 where d1: "demand_of d asset s = (dm, s1)" by fastforce
  note D = demand [where a = asset and s = s, unfolded d1 snd_conv]
  obtain p uid t s2 where c: "CreateFunding (fm_Funding d) ?f s1 = (Inr p, s2)" "fundings s uid = None"
      "\<forall>s'. later s2 s' \<longrightarrow> fr_ID (p s') = uid" "fundings s2 = (fundings s)(uid \<mapsto> new_funding uid t ?f)"
    using create_funding [of s1 ?f] assms(1) D by (cases "CreateFunding (fm_Funding d) ?f s1") auto
  define s3 where "s3 = (case fm_OnFunding d of None \<Rightarrow> s2 | Some h \<Rightarrow> h p s2)"
  have s3: "fundings s3 = fundings s2" "moves s3 = moves s" "wallet_up s3 = wallet_up s" "later s2 s3"
    using hook [of _ p s2] store_frame(1,2) [where f = ?f and s = s1] c(1) D later_refl
    by (auto simp: s3_def split: option.split)
  let ?k = "''fund:'' @ uid"
  obtain r4 s4 where k: "CheckAndMark (fm_Idem d) ?k (24 * hour) s3 = (r4, s4)" by fastforce
  have s4: "fundings s4 = fundings s2" "moves s4 = moves s" "wallet_up s4 = wallet_up s" "later s2 s4"
    using idem [where k = ?k and ttl = "24 * hour" and s = s3, unfolded k snd_conv] s3 later_trans by auto
  obtain r5 s5 where w: "Fund wl ?q ?k s4 = (r5, s5)" by fastforce
  have s5: "fundings s5 = fundings s2" "moves s5 = moves s @ [?q]" "isl r5 = (\<not> wallet_up s)" "later s2 s5"
    using fund [where q = ?q and k = ?k and s = s4, unfolded w fst_conv snd_conv] s4 later_trans by auto
  let ?st = "if wallet_up s then FundingCompleted else FundingRejected"
  have "fundings s5 uid = Some (new_funding uid t ?f)" using s5(1) c(4) by simp
  from update_funding [OF this, of ?st]
  obtain t' s6 where u: "UpdateFundingStatus (fm_Funding d) uid ?st s5 = (Inr (), s6)"
      "fundings s6 = (fundings s)(uid \<mapsto> funding_status t' ?st (new_funding uid t ?f))"
    using s5(1) c(4) by (cases "UpdateFundingStatus (fm_Funding d) uid ?st s5") auto
  have m: "moves s6 = moves s @ [?q]" using store_frame(3) [of uid ?st s5] u(1) s5(2) by simp
  have ids: "fr_ID (p s3) = uid" "fr_ID (p s5) = uid" using c(3) s3(4) s5(4) by blast+
  let ?x = "FundingRequests asset (if wallet_up s then ''ok'' else ''failed'')"
  have "CreateFundingRequest rt d wal asset amount src s = ((Some p, None), Metric rt ?x s6)"
    using amount d1 c(1) s3_def [symmetric] ids k w wallet s5(3) u(1)
    by (cases "wallet_up s") (simp_all add: CreateFundingRequest_def Let_def)
  with c(2) u(2) m show ?thesis by (auto simp: metric)
qed

end

section \<open>The manager on the in-memory stores\<close>

definition W_demand :: "string \<Rightarrow> 'x world \<Rightarrow> decimal \<times> 'x world" where
  "W_demand asset w =
     (let (n, m) = ProjectedDemand (w_clock w (w_reads w)) asset (w_proj w)
      in (n, w\<lparr>w_reads := Suc (w_reads w), w_proj := m\<rparr>))"

abbreviation W_manager ::
  "Config \<Rightarrow> (float64 \<Rightarrow> decimal) \<Rightarrow> 'n service WalletManagement option
   \<Rightarrow> (('n service, FundingRequest) ptr \<Rightarrow> 'n service \<Rightarrow> 'n service) option
   \<Rightarrow> (('n service, RebalancingJob) ptr \<Rightarrow> 'n service \<Rightarrow> 'n service) option \<Rightarrow> 'n service FundingDeps" where
  "W_manager cfg dec wal onF onR \<equiv>
     \<lparr>fm_Cfg = cfg, fm_Funding = W_funding dec, fm_Rebalance = W_rebalance dec, fm_Wallet = wal,
      fm_Idem = W_idem dec, fm_Projection = Some W_demand, fm_OnFunding = onF, fm_OnRebalance = onR\<rparr>"

abbreviation fund_moves :: "'n service \<Rightarrow> FundingMoveRequest list" where
  "fund_moves w \<equiv> fw_calls (x_wallet (w_ext w))"

abbreviation fund_up :: "'n service \<Rightarrow> bool" where
  "fund_up w \<equiv> fw_err (x_wallet (w_ext w)) = None"

lemma W_demand_fields [simp]:
  "w_funding (snd (W_demand a w)) = w_funding w" "w_ext (snd (W_demand a w)) = w_ext w"
  "w_ids (snd (W_demand a w)) = w_ids w" "w_idn (snd (W_demand a w)) = w_idn w"
  by (simp_all add: W_demand_def case_prod_beta)

lemma devWallet_simps:
  "isl (fst (Fund devWallet q k w)) = (\<not> fund_up w)"
  "fund_moves (snd (Fund devWallet q k w)) = fund_moves w @ [q]"
  "w_funding (snd (Fund devWallet q k w)) = w_funding w"
  by (simp_all add: devWallet_def fakeWallet_def in_slot_def FakeWallet_Fund_def case_prod_beta Let_def
      split: option.split)

text \<open>A hook that records the request elsewhere, as the application's outbox hook does.\<close>

definition funding_hook_ok :: "(('n service, FundingRequest) ptr \<Rightarrow> 'n service \<Rightarrow> 'n service) option \<Rightarrow> bool" where
  "funding_hook_ok onF \<longleftrightarrow>
     (case onF of None \<Rightarrow> True
      | Some h \<Rightarrow> \<forall>p w. w_funding (h p w) = w_funding w \<and> w_ext (h p w) = w_ext w)"

lemma manager_env_world:
  assumes "funding_hook_ok onF"
  shows "manager_env (W_manager cfg dec (Some devWallet) onF onR) (\<lambda>w. funding_map (w_funding w))
    (\<lambda>w. fst (NewV7 (world_rt dec) w) \<notin> fr_ID ` set (w_funding w))
    (\<lambda>w w'. prefix (map fr_ID (w_funding w)) (map fr_ID (w_funding w'))) (world_rt dec) devWallet
    fund_moves fund_up"
  unfolding manager_env_def
proof (intro conjI)
  show "funding_store (fm_Funding (W_manager cfg dec (Some devWallet) onF onR)) (\<lambda>w. funding_map (w_funding w))
      (\<lambda>w. fst (NewV7 (world_rt dec) w) \<notin> fr_ID ` set (w_funding w))
      (\<lambda>w w'. prefix (map fr_ID (w_funding w)) (map fr_ID (w_funding w')))"
    unfolding FundingDeps.simps by (rule wf.mem.funding_store_axioms)
qed (use assms in \<open>auto simp: manager_env_axioms_def devWallet_simps demand_of_def W_simps Let_def
      funding_hook_ok_def\<close>)

interpretation wmanager: manager_env "W_manager cfg dec (Some devWallet) None onR"
  "\<lambda>w. funding_map (w_funding w)" "\<lambda>w. fst (NewV7 (world_rt dec) w) \<notin> fr_ID ` set (w_funding w)"
  "\<lambda>w w'. prefix (map fr_ID (w_funding w)) (map fr_ID (w_funding w'))" "world_rt dec" devWallet
  fund_moves fund_up for cfg dec onR
  by (rule manager_env_world) (simp add: funding_hook_ok_def)

section \<open>Rebalancing on the in-memory stores\<close>

text \<open>
  A job within the policy is recorded and moved once; it ends completed, with no error, when
  the wallet service is up, and rejected, with the service's error, when it is not.
\<close>

definition rebalance_hook_ok :: "(('n service, RebalancingJob) ptr \<Rightarrow> 'n service \<Rightarrow> 'n service) option \<Rightarrow> bool" where
  "rebalance_hook_ok onR \<longleftrightarrow>
     (case onR of None \<Rightarrow> True
      | Some h \<Rightarrow> \<forall>p w. w_rebalance (h p w) = w_rebalance w \<and> w_ext (h p w) = w_ext w)"

lemma rebalance_dispatches:
  assumes "rebalance_hook_ok onR" and "0 < amount" and "amount \<le> MaxFundingAmount"
    and "w_ids w (w_idn w) \<notin> rj_ID ` set (w_rebalance w)"
    and "((q, e), w') = Rebalance (world_rt dec) (W_manager cfg dec (Some devWallet) onF onR) fr to asset amount why w"
  shows "\<exists>t t'. job_map (w_rebalance w') = (job_map (w_rebalance w))(w_ids w (w_idn w) \<mapsto>
      job_status t' (if fund_up w then RebalanceCompleted else RebalanceRejected)
        (new_job (w_ids w (w_idn w)) t (rebalancing_job fr to asset amount why)))"
    and "fund_moves w' = fund_moves w @ [\<lparr>fm_WalletID = to, fm_Asset = asset, fm_Amount = amount, fm_Source = fr\<rparr>]"
    and "e = fw_err (x_wallet (w_ext w))" and "q \<noteq> None"
proof -
  let ?u = "w_ids w (w_idn w)" and ?t = "w_clock w (w_reads w)"
  let ?j = "rebalancing_job fr to asset amount why"
  let ?rows = "w_rebalance w @ [new_job ?u ?t ?j]" and ?i = "length (w_rebalance w)"
  let ?st = "if fund_up w then RebalanceCompleted else RebalanceRejected"
  define s1 where "s1 = w\<lparr>w_reads := Suc (w_reads w), w_idn := Suc (w_idn w), w_rebalance := ?rows\<rparr>"
  define s2 where "s2 = (case onR of None \<Rightarrow> s1 | Some h \<Rightarrow> h (\<lambda>w. deref (w_rebalance w) (Alias ?i)) s1)"
  have s2: "w_rebalance s2 = ?rows" "w_ext s2 = w_ext w"
    using assms(1) by (auto simp: s2_def s1_def rebalance_hook_ok_def split: option.splits)
  let ?t2 = "w_clock s2 (Suc (w_reads s2))"
  have map1: "job_map ?rows = (job_map (w_rebalance w))(?u \<mapsto> new_job ?u ?t ?j)"
    using assms(4) by (simp add: rowmap_append)
  have map2: "job_map (snd (mrj_UpdateJobStatus ?t2 ?u st ?rows)) =
      (job_map (w_rebalance w))(?u \<mapsto> job_status ?t2 st (new_job ?u ?t ?j))" for st
    by (simp add: mrj_UpdateJobStatus_map map1)
  have res: "fst (mrj_UpdateJobStatus ?t2 ?u st ?rows) = Inr ()" for st
  proof -
    have "first_ix (\<lambda>r. rj_ID r = ?u) ?rows \<noteq> None" by (simp add: first_ix_None)
    then show ?thesis by (auto simp: mrj_UpdateJobStatus_def)
  qed
  have create: "CreateJob (W_rebalance dec) ?j w = (Inr (\<lambda>w. deref (w_rebalance w) (Alias ?i)), s1)"
    by (simp add: s1_def W_rebalance_simps mrj_CreateJob_def Let_def)
  define q0 where "q0 = \<lparr>fm_WalletID = to, fm_Asset = asset, fm_Amount = amount, fm_Source = fr\<rparr>"
  define f where "f = FakeWallet_Fund q0 (x_wallet (w_ext w))"
  define s3 where "s3 = snd (CheckAndMark (W_idem dec) (''rebal:'' @ ?u) 86400000000000 s2)"
  define s4 where "s4 = in_ext (x_wallet_update (\<lambda>_. snd f)) s3"
  have s3: "w_rebalance s3 = ?rows" "w_ext s3 = w_ext w" "w_clock s3 = w_clock s2" "w_reads s3 = Suc (w_reads s2)"
    by (simp_all add: s3_def W_idem_simps Let_def s2)
  have fund: "Fund devWallet q0 k s3 = (fst f, s4)" for k
    by (simp add: s4_def f_def devWallet_def fakeWallet_def in_slot_def s3 case_prod_beta)
  have upd: "UpdateJobStatus (W_rebalance dec) ?u st s4 =
      (Inr (), s4\<lparr>w_reads := Suc (Suc (w_reads s2)), w_rebalance := snd (mrj_UpdateJobStatus ?t2 ?u st ?rows)\<rparr>)" for st
    using res by (simp add: W_rebalance_simps Let_def s4_def s3)
  have f: "fst f = (case fw_err (x_wallet (w_ext w)) of Some e \<Rightarrow> Inl e | None \<Rightarrow> Inr (fw_result (x_wallet (w_ext w))))"
      "fw_calls (snd f) = fund_moves w @ [q0]"
    by (auto simp: f_def FakeWallet_Fund_def Let_def split: option.split)
  have s4: "x_wallet (w_ext s4) = snd f" by (simp add: s4_def)
  have row: "deref (w_rebalance s2) (Alias ?i) = new_job ?u ?t ?j" "deref (w_rebalance s4) (Alias ?i) = new_job ?u ?t ?j"
    by (simp_all add: s2 s4_def s3)
  have fid: "rj_ID (new_job ?u ?t ?j) = ?u" by (simp add: new_job_def rebalancing_job_def Let_def)
  have "Rebalance (world_rt dec) (W_manager cfg dec (Some devWallet) onF onR) fr to asset amount why w =
    (case fw_err (x_wallet (w_ext w)) of
       Some e \<Rightarrow> ((Some (\<lambda>w. deref (w_rebalance w) (Alias ?i)), Some e),
         Metric (world_rt dec) (RebalanceJobs asset ''failed'') (snd (UpdateJobStatus (W_rebalance dec) ?u RebalanceRejected s4)))
     | None \<Rightarrow> ((Some (\<lambda>w. deref (w_rebalance w) (Alias ?i)), None),
         Metric (world_rt dec) (RebalanceJobs asset ''ok'') (snd (UpdateJobStatus (W_rebalance dec) ?u RebalanceCompleted s4))))"
    using assms(2,3) unfolding Rebalance_def
    by (simp add: create s2_def [symmetric] row fid s3_def [symmetric] q0_def [symmetric] fund f(1) upd Let_def
        case_prod_beta del: append.simps deref.simps world_rt_simps split: option.split)
  then have w': "w_rebalance w' = snd (mrj_UpdateJobStatus ?t2 ?u ?st ?rows)" "q \<noteq> None"
      "fund_moves w' = fund_moves w @ [\<lparr>fm_WalletID = to, fm_Asset = asset, fm_Amount = amount, fm_Source = fr\<rparr>]"
      "e = fw_err (x_wallet (w_ext w))"
    using assms(5) f(2) s4 by (auto simp: upd q0_def split: option.splits)
  then show "\<exists>t t'. job_map (w_rebalance w') = (job_map (w_rebalance w))(?u \<mapsto> job_status t' ?st (new_job ?u t ?j))"
    by (intro exI [of _ ?t] exI [of _ ?t2]) (simp only: map2)
  show "fund_moves w' = fund_moves w @ [\<lparr>fm_WalletID = to, fm_Asset = asset, fm_Amount = amount, fm_Source = fr\<rparr>]"
    "e = fw_err (x_wallet (w_ext w))" "q \<noteq> None" by (fact w')+
qed

end
