(* ===== verification/App.thy ===== *)
theory App
  imports Consumer Executor Hedger Float_Tracker Emitter Funding
begin

text \<open>
  \<^verbatim>\<open>internal/app/app.go\<close>: the composition root. The first part models the decisions
  of \<open>Build\<close>: the defaults it applies and which implementation of each dependency it selects
  or why it refuses to start. The second part models the wiring: the callbacks it installs and
  the dependencies it hands to each component, over any implementation of the stores and the
  clients (\<open>Services\<close>). The third part is the wiring of development mode, on the in-memory
  stores and the fakes.
\<close>

section \<open>Asset pairs and lists\<close>

text \<open>Both loops stop at the first slash, as \<open>cut_at\<close> does.\<close>

definition fiatOf :: "string \<Rightarrow> string" where
  "fiatOf assetPair = (case cut_at CHR ''/'' assetPair of Some (a, f) \<Rightarrow> f | None \<Rightarrow> ''USD'')"

definition cryptoOf :: "string \<Rightarrow> string" where
  "cryptoOf assetPair = (case cut_at CHR ''/'' assetPair of Some (a, f) \<Rightarrow> a | None \<Rightarrow> assetPair)"

definition splitCSV :: "string \<Rightarrow> string list" where
  "splitCSV s = filter (\<lambda>p. p \<noteq> []) (map trim_space (split_on CHR '','' s))"

lemma pair_parts:
  "CHR ''/'' \<notin> set asset \<Longrightarrow> cryptoOf (asset @ ''/'' @ fiat) = asset \<and> fiatOf (asset @ ''/'' @ fiat) = fiat"
  by (simp add: cryptoOf_def fiatOf_def)

section \<open>The decisions of Build\<close>

definition build_defaults :: "Config \<Rightarrow> Config" where
  "build_defaults cfg =
     (let cfg = (if TxOrchEventTopic cfg = [] then cfg\<lparr>TxOrchEventTopic := ''tx.completed''\<rparr> else cfg);
          cfg = (if Port cfg = [] then cfg\<lparr>Port := ''8080''\<rparr> else cfg);
          cfg = (if BatchIntervalSeconds cfg \<le> 0 then cfg\<lparr>BatchIntervalSeconds := 30\<rparr> else cfg);
          cfg = (if BatchSizeThresholdUSD cfg \<le> 0 then cfg\<lparr>BatchSizeThresholdUSD := 50000\<rparr> else cfg)
      in cfg)"

text \<open>
  A dependency is reached over the network at an address, or is kept in memory (a fake
  client, an in-memory store).
\<close>

datatype dep = Remote string | InMemory

definition choose_dep :: "string \<Rightarrow> string \<Rightarrow> bool \<Rightarrow> error + dep" where
  "choose_dep what url devMode =
     (if url \<noteq> [] then Inr (Remote url)
      else if \<not> devMode
      then Inl (Errorf (what @ '' not set and DEV_MODE!=1; refusing to start in production mode''))
      else Inr InMemory)"

definition buildLiquidity :: "Config \<Rightarrow> bool \<Rightarrow> error + dep" where
  "buildLiquidity cfg devMode = choose_dep ''LIQUIDITY_ROUTING_URL'' (LiquidityRoutingURL cfg) devMode"

definition buildFX :: "Config \<Rightarrow> bool \<Rightarrow> error + dep" where
  "buildFX cfg devMode = choose_dep ''FX_HEDGING_URL'' (FXHedgingURL cfg) devMode"

definition buildWallet :: "Config \<Rightarrow> bool \<Rightarrow> error + dep" where
  "buildWallet cfg devMode = choose_dep ''WALLET_MGMT_URL'' (WalletMgmtURL cfg) devMode"

definition buildLedger :: "Config \<Rightarrow> bool \<Rightarrow> error + dep" where
  "buildLedger cfg devMode = choose_dep ''LEDGER_URL'' (LedgerURL cfg) devMode"

definition buildAudit :: "environ \<Rightarrow> bool \<Rightarrow> error + dep" where
  "buildAudit env devMode =
     (let brokers = Getenv env ''KAFKA_BROKERS''
      in if brokers \<noteq> [] then
           (case NewKafkaAudit (splitCSV brokers) of
              Some err \<Rightarrow> if devMode then Inr InMemory else Inl (Annotate ''audit kafka init'' err)
            | None \<Rightarrow> Inr (Remote brokers))
         else if devMode then Inr InMemory
         else Inl (Errorf ''KAFKA_BROKERS unset and DEV_MODE!=1; refusing to start in production mode''))"

record downstreamClients =
  dc_liquidity :: dep
  dc_fx :: dep
  dc_wallet :: dep
  dc_ledger :: dep
  dc_audit :: dep

definition bind_dep :: "error + 'a \<Rightarrow> ('a \<Rightarrow> error + 'b) \<Rightarrow> error + 'b" where
  "bind_dep r f = (case r of Inl e \<Rightarrow> Inl e | Inr a \<Rightarrow> f a)"

definition buildDownstreamClients :: "Config \<Rightarrow> environ \<Rightarrow> bool \<Rightarrow> error + downstreamClients" where
  "buildDownstreamClients cfg env devMode =
     bind_dep (buildLiquidity cfg devMode) (\<lambda>liq.
     bind_dep (buildFX cfg devMode) (\<lambda>fx.
     bind_dep (buildWallet cfg devMode) (\<lambda>w.
     bind_dep (buildLedger cfg devMode) (\<lambda>lg.
     bind_dep (buildAudit env devMode) (\<lambda>au.
       Inr \<lparr>dc_liquidity = liq, dc_fx = fx, dc_wallet = w, dc_ledger = lg, dc_audit = au\<rparr>)))))"

text \<open>
  Opening Postgres is a parameter. The key store falls back to memory by itself (\<open>Open\<close>), so
  it is no reason to refuse.
\<close>

definition build_store :: "(string \<Rightarrow> error option) \<Rightarrow> Config \<Rightarrow> bool \<Rightarrow> error + dep" where
  "build_store pg_open cfg devMode =
     (if DBURL cfg \<noteq> [] then
        (case pg_open (DBURL cfg) of Some e \<Rightarrow> Inl e | None \<Rightarrow> Inr (Remote (DBURL cfg)))
      else if \<not> devMode
      then Inl (Errorf ''DB_URL not set and DEV_MODE!=1; refusing to start in production mode'')
      else Inr InMemory)"

definition is_dev_mode :: "environ \<Rightarrow> bool" where
  "is_dev_mode env \<longleftrightarrow> Getenv env ''DEV_MODE'' = ''1''"

definition Build :: "(string \<Rightarrow> error option) \<Rightarrow> environ \<Rightarrow> Config \<Rightarrow> error + (Config \<times> dep \<times> downstreamClients)" where
  "Build pg_open env cfg0 =
     (let cfg = build_defaults cfg0; devMode = is_dev_mode env
      in bind_dep (build_store pg_open cfg devMode) (\<lambda>st.
         bind_dep (buildDownstreamClients cfg env devMode) (\<lambda>dc. Inr (cfg, st, dc))))"

lemma choose_dep_simps:
  "choose_dep what url devMode = Inr InMemory \<longleftrightarrow> url = [] \<and> devMode"
  "choose_dep what url False = Inr d \<longleftrightarrow> url \<noteq> [] \<and> d = Remote url"
  by (auto simp: choose_dep_def)

lemma build_defaults_fields:
  "0 < BatchIntervalSeconds (build_defaults cfg)" "0 < BatchSizeThresholdUSD (build_defaults cfg)"
  "TxOrchEventTopic (build_defaults cfg) \<noteq> []" "Port (build_defaults cfg) \<noteq> []"
  "DBURL (build_defaults cfg) = DBURL cfg" "LiquidityRoutingURL (build_defaults cfg) = LiquidityRoutingURL cfg"
  "FXHedgingURL (build_defaults cfg) = FXHedgingURL cfg" "WalletMgmtURL (build_defaults cfg) = WalletMgmtURL cfg"
  "LedgerURL (build_defaults cfg) = LedgerURL cfg"
  by (simp_all add: build_defaults_def Let_def)

lemma bind_dep_Inr: "bind_dep r f = Inr b \<longleftrightarrow> (\<exists>a. r = Inr a \<and> f a = Inr b)"
  by (cases r) (simp_all add: bind_dep_def)

text \<open>Outside development mode the service starts only with every dependency remote.\<close>

lemma Build_production:
  assumes "\<not> is_dev_mode env" and "Build pg_open env cfg = Inr (cfg', st, dc)"
  shows "st = Remote (DBURL cfg) \<and> DBURL cfg \<noteq> [] \<and> pg_open (DBURL cfg) = None \<and>
    dc_liquidity dc = Remote (LiquidityRoutingURL cfg) \<and> LiquidityRoutingURL cfg \<noteq> [] \<and>
    dc_fx dc = Remote (FXHedgingURL cfg) \<and> FXHedgingURL cfg \<noteq> [] \<and>
    dc_wallet dc = Remote (WalletMgmtURL cfg) \<and> WalletMgmtURL cfg \<noteq> [] \<and>
    dc_ledger dc = Remote (LedgerURL cfg) \<and> LedgerURL cfg \<noteq> [] \<and>
    dc_audit dc = Remote (Getenv env ''KAFKA_BROKERS'') \<and> splitCSV (Getenv env ''KAFKA_BROKERS'') \<noteq> []"
  using assms
  by (auto simp: Build_def buildDownstreamClients_def bind_dep_Inr build_store_def buildLiquidity_def buildFX_def
      buildWallet_def buildLedger_def buildAudit_def choose_dep_simps build_defaults_fields NewKafkaAudit_def Let_def
      split: if_splits option.splits)

section \<open>The wiring\<close>

record 's Services =
  sv_Batch :: "'s BatchStore"
  sv_Membership :: "'s MembershipStore"
  sv_Order :: "'s AggregateOrderStore"
  sv_Funding :: "'s FundingStore"
  sv_Float :: "'s FloatStore"
  sv_Rebalance :: "'s RebalancingStore"
  sv_Outbox :: "'s OutboxStore"
  sv_Idem :: "'s IdemStore"
  sv_liquidity :: "'s LiquidityRouting"
  sv_fx :: "'s FXHedging"
  sv_wallet :: "'s WalletManagement"
  sv_ledger :: "'s LedgerAccounting"
  sv_audit :: "'s AuditLog"
  sv_demand :: "string \<Rightarrow> 's \<Rightarrow> decimal \<times> 's"
  sv_marshal :: "Payload \<Rightarrow> string"
  sv_unmarshal :: "string \<Rightarrow> Payload"

definition app_emitter :: "'s Services \<Rightarrow> 's EmitDeps" where
  "app_emitter S = \<lparr>em_Outbox = sv_Outbox S, em_Ledger = Some (sv_ledger S), em_Audit = Some (sv_audit S),
     em_marshal = sv_marshal S, em_unmarshal = sv_unmarshal S\<rparr>"

text \<open>An event of the application: appended under its key, the error dropped.\<close>

definition app_event :: "'s Services \<Rightarrow> string \<Rightarrow> string \<Rightarrow> uuid \<Rightarrow> Payload \<Rightarrow> 's \<Rightarrow> 's" where
  "app_event S agg ev uid p s = snd (emit_append (app_emitter S) agg ev (Key agg ev uid) p s)"

definition onAdjust :: "'s Services \<Rightarrow> string \<Rightarrow> decimal \<Rightarrow> uuid \<Rightarrow> 's \<Rightarrow> 's" where
  "onAdjust S fiat amount batchID =
     app_event S AggFloat EvFloatAdjust batchID
       (no_payload\<lparr>pl_BatchID := batchID, pl_NotionalUSD := amount, pl_FiatCurrency := fiat\<rparr>)"

definition app_float :: "Config \<Rightarrow> 's Services \<Rightarrow> 's FloatDeps" where
  "app_float cfg S = \<lparr>fd_Cfg = cfg, fd_Floats = sv_Float S, fd_OnBreach = None, fd_OnAdjust = Some (onAdjust S)\<rparr>"

definition app_hedger :: "'s Services \<Rightarrow> 's HedgeDeps" where
  "app_hedger S = \<lparr>hd_FX = sv_fx S, hd_Orders = sv_Order S, hd_Idem = sv_Idem S\<rparr>"

definition onFill :: "'s Rt \<Rightarrow> Config \<Rightarrow> 's Services \<Rightarrow> Batch \<Rightarrow> ('s, AggregateOrder) ptr \<Rightarrow> 's \<Rightarrow> 's" where
  "onFill rt cfg S b ord s =
     (let fiat = fiatOf (b_AssetPair b);
          cryptoAsset = cryptoOf (b_AssetPair b);
          (_, s1) = float_OnAggregateFill rt (app_float cfg S) b ord fiat cryptoAsset s;
          (_, s2) = hedge_OnAggregateFill rt (app_hedger S) b ord fiat s1;
          (_, s3) = UpdateBatchStatus (sv_Batch S) (b_ID b) BatchExecuting BatchSettled None s2
      in app_event S AggAggregate EvAggregateExec (b_ID b)
           (no_payload\<lparr>pl_BatchID := b_ID b, pl_NotionalUSD := o_NotionalUSD (ord s3), pl_Asset := cryptoAsset,
              pl_FiatCurrency := fiat\<rparr>) s3)"

definition app_executor :: "'s Rt \<Rightarrow> Config \<Rightarrow> 's Services \<Rightarrow> 's ExecDeps" where
  "app_executor rt cfg S = \<lparr>xd_Batches = sv_Batch S, xd_Orders = sv_Order S, xd_Liquidity = sv_liquidity S,
     xd_Idem = sv_Idem S, xd_ExpectedPriceFor = Some (\<lambda>_. 50000), xd_OnFill = Some (onFill rt cfg S)\<rparr>"

definition onClose :: "'s Rt \<Rightarrow> Config \<Rightarrow> 's Services \<Rightarrow> Batch \<Rightarrow> CloseReason \<Rightarrow> 's \<Rightarrow> 's" where
  "onClose rt cfg S b reason s =
     (let s1 = app_event S AggBatch EvBatchClose (b_ID b)
            (no_payload\<lparr>pl_BatchID := b_ID b, pl_NotionalUSD := b_NotionalUSD b\<rparr>) s
      in snd (SubmitBatch rt (app_executor rt cfg S) (b_ID b) s1))"

definition app_scheduler :: "'s Rt \<Rightarrow> Config \<Rightarrow> 's Services \<Rightarrow> 's SchedDeps" where
  "app_scheduler rt cfg S = \<lparr>sd_Cfg = cfg, sd_Batches = sv_Batch S, sd_Memberships = sv_Membership S,
     sd_Lock = NewCadenceLock (sv_Idem S) (i64 (BatchIntervalSeconds cfg * second)),
     sd_OnClose = Some (onClose rt cfg S)\<rparr>"

definition onFunding :: "'s Services \<Rightarrow> ('s, FundingRequest) ptr \<Rightarrow> 's \<Rightarrow> 's" where
  "onFunding S fr s =
     app_event S AggFunding EvFunding (fr_ID (fr s))
       (no_payload\<lparr>pl_Asset := fr_Asset (fr s), pl_NotionalUSD := fr_Amount (fr s)\<rparr>) s"

definition onRebalance :: "'s Services \<Rightarrow> ('s, RebalancingJob) ptr \<Rightarrow> 's \<Rightarrow> 's" where
  "onRebalance S job s =
     app_event S AggRebalance EvRebalance (rj_ID (job s))
       (no_payload\<lparr>pl_Asset := rj_Asset (job s), pl_NotionalUSD := rj_Amount (job s)\<rparr>) s"

definition app_manager :: "Config \<Rightarrow> 's Services \<Rightarrow> 's FundingDeps" where
  "app_manager cfg S = \<lparr>fm_Cfg = cfg, fm_Funding = sv_Funding S, fm_Rebalance = sv_Rebalance S,
     fm_Wallet = Some (sv_wallet S), fm_Idem = sv_Idem S, fm_Projection = Some (sv_demand S),
     fm_OnFunding = Some (onFunding S), fm_OnRebalance = Some (onRebalance S)\<rparr>"

definition onBatchOpen :: "'s Services \<Rightarrow> Batch \<Rightarrow> 's \<Rightarrow> 's" where
  "onBatchOpen S b = app_event S AggBatch EvBatchOpen (b_ID b) (no_payload\<lparr>pl_BatchID := b_ID b\<rparr>)"

definition app_consumer :: "Config \<Rightarrow> 's Services \<Rightarrow> 's ConsumerDeps" where
  "app_consumer cfg S = \<lparr>cd_Topic = TxOrchEventTopic cfg, cd_Batches = sv_Batch S, cd_Memberships = sv_Membership S,
     cd_Idem = sv_Idem S, cd_DeadLetters = None, cd_OnBatchOpen = Some (onBatchOpen S)\<rparr>"

section \<open>Development mode\<close>

definition dev_services ::
  "(float64 \<Rightarrow> decimal) \<Rightarrow> (Payload \<Rightarrow> string) \<Rightarrow> (string \<Rightarrow> Payload) \<Rightarrow> 'n service Services" where
  "dev_services dec mar unm = \<lparr>sv_Batch = W_batch dec, sv_Membership = W_member dec, sv_Order = W_order dec,
     sv_Funding = W_funding dec, sv_Float = W_float dec, sv_Rebalance = W_rebalance dec, sv_Outbox = W_outbox dec,
     sv_Idem = W_idem dec, sv_liquidity = devLiquidity, sv_fx = devFX, sv_wallet = devWallet,
     sv_ledger = devLedger, sv_audit = devAudit, sv_demand = W_demand, sv_marshal = mar, sv_unmarshal = unm\<rparr>"

text \<open>The components of development mode are those of the previous theories.\<close>

lemma dev_components:
  "app_emitter (dev_services dec mar unm) = W_emit dec mar unm"
  "app_hedger (dev_services dec mar unm) = W_hedge dec devFX"
  "app_float cfg (dev_services dec mar unm) =
     W_floatdeps cfg dec None (Some (onAdjust (dev_services dec mar unm)))"
  "app_executor (world_rt dec) cfg (dev_services dec mar unm) =
     W_exec dec devLiquidity (Some (\<lambda>_. 50000)) (Some (onFill (world_rt dec) cfg (dev_services dec mar unm)))"
  "app_scheduler (world_rt dec) cfg (dev_services dec mar unm) =
     W_sched cfg dec (i64 (BatchIntervalSeconds cfg * second))
       (Some (onClose (world_rt dec) cfg (dev_services dec mar unm)))"
  "app_manager cfg (dev_services dec mar unm) =
     W_manager cfg dec (Some devWallet) (Some (onFunding (dev_services dec mar unm)))
       (Some (onRebalance (dev_services dec mar unm)))"
  "app_consumer cfg (dev_services dec mar unm) =
     W_cons dec (TxOrchEventTopic cfg) None (Some (onBatchOpen (dev_services dec mar unm)))"
  by (simp_all add: app_emitter_def app_hedger_def app_float_def app_executor_def app_scheduler_def
      app_manager_def app_consumer_def dev_services_def)

text \<open>An application event on the state: one append to the outbox, nothing else.\<close>

lemma app_event_dev:
  "app_event (dev_services dec mar unm) agg ev uid p w =
     w\<lparr>w_reads := Suc (w_reads w), w_idn := Suc (w_idn w),
        w_outbox := snd (ob_Append (w_ids w (w_idn w)) (w_clock w (w_reads w))
          \<lparr>oe_ID = [], oe_Aggregate = agg, oe_EventType = ev, oe_DedupKey = Key agg ev uid,
           oe_Payload = mar (p\<lparr>pl_Aggregate := agg, pl_EventType := ev\<rparr>), oe_CreatedAt = zero_time,
           oe_EmittedAt = zero_time\<rparr> (w_outbox w))\<rparr>"
  by (simp add: app_event_def emit_append_def dev_components W_outbox_simps Let_def)

lemma onBatchOpen_benign: "benign_hook (Some (onBatchOpen (dev_services dec mar unm)))"
  by (simp add: benign_hook_def benign_def onBatchOpen_def app_event_dev)

lemma funding_hooks_ok:
  "funding_hook_ok (Some (onFunding (dev_services dec mar unm)))"
  "rebalance_hook_ok (Some (onRebalance (dev_services dec mar unm)))"
  by (simp_all add: funding_hook_ok_def rebalance_hook_ok_def onFunding_def onRebalance_def app_event_dev)

text \<open>The manager of the application dispatches what it accepts.\<close>

interpretation wappmanager: manager_env "app_manager cfg (dev_services dec mar unm)"
  "\<lambda>w. funding_map (w_funding w)" "\<lambda>w. fst (NewV7 (world_rt dec) w) \<notin> fr_ID ` set (w_funding w)"
  "\<lambda>w w'. prefix (map fr_ID (w_funding w)) (map fr_ID (w_funding w'))" "world_rt dec" devWallet
  fund_moves fund_up for cfg dec mar unm
  unfolding dev_components by (rule manager_env_world [OF funding_hooks_ok(1)])

end
