(* ===== verification/Gotime.thy ===== *)
theory Gotime
  imports Prelude
begin

text \<open>
  The calendar of \<^verbatim>\<open>time.Parse(time.RFC3339, s)\<close>, the part of the Go standard library with
  which \<^verbatim>\<open>internal/api/api.go\<close> reads the bounds of a query. As the library does, an
  hour may have one digit, a fraction of a second may follow the seconds although the layout
  has none (its first nine digits count), and an offset may reach 24 hours or 60 minutes.
\<close>

section \<open>Digits\<close>

definition is_digit :: "char \<Rightarrow> bool" where
  "is_digit c \<longleftrightarrow> CHR ''0'' \<le> c \<and> c \<le> CHR ''9''"

definition digit_of :: "char \<Rightarrow> int" where
  "digit_of c = int (of_char c) - 48"

definition atoi :: "string \<Rightarrow> int" where
  "atoi s = foldl (\<lambda>n c. 10 * n + digit_of c) 0 s"

fun getnum :: "bool \<Rightarrow> string \<Rightarrow> (int \<times> string) option" where
  "getnum fixed [] = None"
| "getnum fixed [a] = (if is_digit a \<and> \<not> fixed then Some (digit_of a, []) else None)"
| "getnum fixed (a # b # s) =
     (if \<not> is_digit a then None
      else if is_digit b then Some (10 * digit_of a + digit_of b, s)
      else if fixed then None else Some (digit_of a, b # s))"

definition getyear :: "string \<Rightarrow> (int \<times> string) option" where
  "getyear s = (if 4 \<le> length s \<and> list_all is_digit (take 4 s) then Some (atoi (take 4 s), drop 4 s) else None)"

fun expect :: "char \<Rightarrow> string \<Rightarrow> string option" where
  "expect c [] = None"
| "expect c (x # s) = (if x = c then Some s else None)"

definition fraction :: "string \<Rightarrow> int \<times> string" where
  "fraction s =
     (case s of
        c # d # r \<Rightarrow>
          if c \<in> {CHR ''.'', CHR '',''} \<and> is_digit d then
            let ds = takeWhile is_digit (d # r); n = take 9 ds
            in (atoi n * 10 ^ (9 - length n), dropWhile is_digit (d # r))
          else (0, s)
      | _ \<Rightarrow> (0, s))"

definition zone :: "string \<Rightarrow> (int \<times> string) option" where
  "zone s =
     (if s \<noteq> [] \<and> hd s = CHR ''Z'' then Some (0, tl s)
      else if length s < 6 \<or> s ! 3 \<noteq> CHR '':'' then None
      else case (getnum True [s ! 1, s ! 2], getnum True [s ! 4, s ! 5]) of
             (Some (hr, _), Some (mm, _)) \<Rightarrow>
               if hr > 24 \<or> mm > 60 then None
               else if hd s = CHR ''+'' then Some ((hr * 60 + mm) * 60, drop 6 s)
               else if hd s = CHR ''-'' then Some (- ((hr * 60 + mm) * 60), drop 6 s)
               else None
           | _ \<Rightarrow> None)"

section \<open>The calendar\<close>

definition is_leap :: "int \<Rightarrow> bool" where
  "is_leap y \<longleftrightarrow> 4 dvd y \<and> (\<not> 100 dvd y \<or> 400 dvd y)"

definition days_in :: "int \<Rightarrow> int \<Rightarrow> int" where
  "days_in y m = (if m = 2 then if is_leap y then 29 else 28 else if m \<in> {4, 6, 9, 11} then 30 else 31)"

definition days_to_year :: "int \<Rightarrow> int" where
  "days_to_year y = (y - 1) * 365 + (y - 1) div 4 - (y - 1) div 100 + (y - 1) div 400"

definition days_to_month :: "int \<Rightarrow> int \<Rightarrow> int" where
  "days_to_month y m = sum_list (map (days_in y) [1..m - 1])"

text \<open>The days since 1 January of the year 1, and the instant.\<close>

definition day_number :: "int \<Rightarrow> int \<Rightarrow> int \<Rightarrow> int" where
  "day_number y m d = days_to_year y + days_to_month y m + (d - 1)"

definition instant :: "int \<Rightarrow> int \<Rightarrow> int \<Rightarrow> int \<Rightarrow> int \<Rightarrow> int \<Rightarrow> int \<Rightarrow> int \<Rightarrow> time" where
  "instant y m d hh mi ss ns off =
     (((day_number y m d * 24 + hh) * 60 + mi) * 60 + ss - off) * second + ns"

definition parse_date :: "string \<Rightarrow> ((int \<times> int \<times> int) \<times> string) option" where
  "parse_date s =
     Option.bind (getyear s) (\<lambda>(y, s).
     Option.bind (expect CHR ''-'' s) (\<lambda>s.
     Option.bind (getnum True s) (\<lambda>(m, s).
     if m \<le> 0 \<or> 12 < m then None else
     Option.bind (expect CHR ''-'' s) (\<lambda>s.
     Option.bind (getnum True s) (\<lambda>(d, s). Some ((y, m, d), s))))))"

definition parse_clock :: "string \<Rightarrow> ((int \<times> int \<times> int \<times> int) \<times> string) option" where
  "parse_clock s =
     Option.bind (getnum False s) (\<lambda>(hh, s).
     if 24 \<le> hh then None else
     Option.bind (expect CHR '':'' s) (\<lambda>s.
     Option.bind (getnum True s) (\<lambda>(mi, s).
     if 60 \<le> mi then None else
     Option.bind (expect CHR '':'' s) (\<lambda>s.
     Option.bind (getnum True s) (\<lambda>(ss, s).
     if 60 \<le> ss then None else
     (let (ns, s) = fraction s in Some ((hh, mi, ss, ns), s)))))))"

definition ParseRFC3339 :: "string \<Rightarrow> time option" where
  "ParseRFC3339 s =
     Option.bind (parse_date s) (\<lambda>((y, m, d), s).
     Option.bind (expect CHR ''T'' s) (\<lambda>s.
     Option.bind (parse_clock s) (\<lambda>((hh, mi, ss, ns), s).
     Option.bind (zone s) (\<lambda>(off, s).
     if s \<noteq> [] \<or> d < 1 \<or> days_in y m < d then None
     else Some (instant y m d hh mi ss ns off)))))"

text \<open>\<open>t, _ := time.Parse(...)\<close>: the zero instant when the text is not a time.\<close>

definition parse_or_zero :: "string \<Rightarrow> time" where
  "parse_or_zero s = (case ParseRFC3339 s of None \<Rightarrow> zero_time | Some t \<Rightarrow> t)"

section \<open>Facts\<close>

text \<open>The days of the months add up to the distance between years.\<close>

lemma upto_12: "[1..12::int] = [1, 2, 3, 4, 5, 6, 7, 8, 9, 10, 11, 12]"
  by (simp add: upto_rec1)

lemma year_length: "days_to_month y 13 = (if is_leap y then 366 else 365)"
  by (simp add: days_to_month_def upto_12 days_in_def)

lemma parse_examples:
  "ParseRFC3339 ''0001-01-01T00:00:00Z'' = Some 0"
  "ParseRFC3339 ''1970-01-01T00:00:00Z'' = Some (62135596800 * second)"
  "ParseRFC3339 ''2024-02-29T23:59:59.5+01:00'' = ParseRFC3339 ''2024-02-29T22:59:59,500Z''"
  "ParseRFC3339 ''2023-02-29T00:00:00Z'' = None"
  "ParseRFC3339 [] = None"
  by code_simp+

end
