(* ===== verification/Api.thy ===== *)
theory Api
  imports App Gotime
begin

text \<open>
  \<^verbatim>\<open>internal/api/api.go\<close>: the REST handlers and their router. A request is its method,
  its path, the first value of each query parameter and its body; a response is its status,
  its content type and the value encoded as JSON. The composed services are the records of
  the earlier theories, \<open>None\<close> for a nil one. The parsers of third-party packages
  (\<^verbatim>\<open>uuid.Parse\<close>, and the JSON decoder applied to the type with \<open>decimal.Decimal\<close>) are
  arguments. The status texts of a response are those the handlers write.

  The router is \<^verbatim>\<open>http.ServeMux\<close>: a path that is not clean is redirected, an exact
  pattern or else the longest pattern ending in a slash that starts the path is chosen, and
  any other path is not found. Paths with percent escapes are outside the model.
\<close>

section \<open>Requests and responses\<close>

record Request =
  rq_Method :: string
  rq_Path :: string
  rq_Query :: "string \<Rightarrow> string"
  rq_Body :: string

record FundingBody =
  fb_WalletID :: string
  fb_Asset :: string
  fb_Amount :: decimal
  fb_SourceVenue :: string

datatype body =
    BodyStatus string
  | BodyError string
  | BodyBatches "Batch list"
  | BodyDetail Batch "Membership list" "AggregateOrder option"
  | BodyBatch Batch
  | BodyMembers "Membership list"
  | BodyFloats "FloatPosition list"
  | BodyFloat FloatPosition
  | BodyOrders "AggregateOrder list"
  | BodyFundings "FundingRequest list"
  | BodyFunding FundingRequest
  | BodyJobs "RebalancingJob list"
  | BodyNone

record Response =
  rs_ContentType :: string
  rs_Code :: int
  rs_Body :: body

record 's ApiDeps =
  ad_Batches :: "'s BatchStore option"
  ad_Members :: "'s MembershipStore option"
  ad_Orders :: "'s AggregateOrderStore option"
  ad_Scheduler :: "'s SchedDeps option"
  ad_Float :: "'s FloatDeps option"
  ad_Funding :: "'s FundingDeps option"

record Parsers =
  uuid_Parse :: "string \<Rightarrow> uuid option"
  decode_funding :: "string \<Rightarrow> FundingBody option"

abbreviation StatusOK :: int where "StatusOK \<equiv> 200"
abbreviation StatusCreated :: int where "StatusCreated \<equiv> 201"
abbreviation StatusMovedPermanently :: int where "StatusMovedPermanently \<equiv> 301"
abbreviation StatusBadRequest :: int where "StatusBadRequest \<equiv> 400"
abbreviation StatusForbidden :: int where "StatusForbidden \<equiv> 403"
abbreviation StatusNotFound :: int where "StatusNotFound \<equiv> 404"
abbreviation StatusMethodNotAllowed :: int where "StatusMethodNotAllowed \<equiv> 405"
abbreviation StatusConflict :: int where "StatusConflict \<equiv> 409"
abbreviation StatusInternalServerError :: int where "StatusInternalServerError \<equiv> 500"
abbreviation StatusServiceUnavailable :: int where "StatusServiceUnavailable \<equiv> 503"

definition writeJSON :: "int \<Rightarrow> body \<Rightarrow> Response" where
  "writeJSON code v = \<lparr>rs_ContentType = ''application/json'', rs_Code = code, rs_Body = v\<rparr>"

definition writeError :: "int \<Rightarrow> string \<Rightarrow> Response" where
  "writeError code msg = writeJSON code (BodyError msg)"

text \<open>The answer to a call that returns a value or an error, which is internal.\<close>

definition answer :: "('a \<Rightarrow> body) \<Rightarrow> (error + 'a) \<times> 's \<Rightarrow> Response \<times> 's" where
  "answer f r =
     (case r of
        (Inl e, s) \<Rightarrow> (writeError StatusInternalServerError (error_str e), s)
      | (Inr x, s) \<Rightarrow> (writeJSON StatusOK (f x), s))"

definition not_allowed :: Response where
  "not_allowed = writeError StatusMethodNotAllowed ''method not allowed''"

section \<open>Handlers\<close>

definition healthz :: "'s \<Rightarrow> Response \<times> 's" where
  "healthz s = (writeJSON StatusOK (BodyStatus ''ok''), s)"

definition readyz :: "'s \<Rightarrow> Response \<times> 's" where
  "readyz s = (writeJSON StatusOK (BodyStatus ''ready''), s)"

definition handleBatches :: "'s BatchStore \<Rightarrow> Request \<Rightarrow> 's \<Rightarrow> Response \<times> 's" where
  "handleBatches B r s =
     (if rq_Method r \<noteq> ''GET'' then (not_allowed, s)
      else answer BodyBatches
        (ListBatches B (parse_or_zero (rq_Query r ''from'')) (parse_or_zero (rq_Query r ''to'')) s))"

definition handleBatchClose :: "'s Rt \<Rightarrow> 's ApiDeps \<Rightarrow> Request \<Rightarrow> uuid \<Rightarrow> 's \<Rightarrow> Response \<times> 's" where
  "handleBatchClose rt d r uid s =
     (if rq_Method r \<noteq> ''POST'' then (not_allowed, s)
      else case ad_Scheduler d of
        None \<Rightarrow> (writeError StatusServiceUnavailable ''scheduler not configured'', s)
      | Some sched \<Rightarrow>
          (case CloseBatch rt sched uid s of
             (Inl e, s1) \<Rightarrow>
               (if e = ErrNotOpen then writeError StatusConflict (error_str e)
                else if IsNotFound e then writeError StatusNotFound ''batch not found''
                else writeError StatusInternalServerError (error_str e), s1)
           | (Inr b, s1) \<Rightarrow> (writeJSON StatusOK (BodyBatch b), s1)))"

definition handleBatchMemberships :: "'s ApiDeps \<Rightarrow> Request \<Rightarrow> uuid \<Rightarrow> 's \<Rightarrow> Response \<times> 's" where
  "handleBatchMemberships d r uid s =
     (if rq_Method r \<noteq> ''GET'' then (not_allowed, s)
      else case ad_Members d of
        None \<Rightarrow> (writeError StatusServiceUnavailable ''membership store not configured'', s)
      | Some M \<Rightarrow> answer BodyMembers (ListMemberships M uid s))"

text \<open>The order and the members of a batch; their errors are dropped.\<close>

definition batch_order :: "'s ApiDeps \<Rightarrow> uuid \<Rightarrow> 's \<Rightarrow> ('s, AggregateOrder) ptr option \<times> 's" where
  "batch_order d uid s =
     (case ad_Orders d of
        None \<Rightarrow> (None, s)
      | Some orders \<Rightarrow>
          (case GetOrderByBatch orders uid s of (Inl e, s1) \<Rightarrow> (None, s1) | (Inr p, s1) \<Rightarrow> (Some p, s1)))"

definition batch_members :: "'s ApiDeps \<Rightarrow> uuid \<Rightarrow> 's \<Rightarrow> Membership list \<times> 's" where
  "batch_members d uid s =
     (case ad_Members d of
        None \<Rightarrow> ([], s)
      | Some M \<Rightarrow>
          (case ListMemberships M uid s of (Inl e, s1) \<Rightarrow> ([], s1) | (Inr ms, s1) \<Rightarrow> (ms, s1)))"

definition batch_detail :: "'s ApiDeps \<Rightarrow> 's BatchStore \<Rightarrow> Request \<Rightarrow> uuid \<Rightarrow> 's \<Rightarrow> Response \<times> 's" where
  "batch_detail d B r uid s =
     (if rq_Method r \<noteq> ''GET'' then (not_allowed, s)
      else case GetBatch B uid s of
        (Inl e, s1) \<Rightarrow>
          (if IsNotFound e then writeError StatusNotFound ''batch not found''
           else writeError StatusInternalServerError (error_str e), s1)
      | (Inr b, s1) \<Rightarrow>
          let (order, s2) = batch_order d uid s1; (members, s3) = batch_members d uid s2
          in (writeJSON StatusOK (BodyDetail b members (map_option (\<lambda>p. p s3) order)), s3))"

definition handleBatchByID ::
  "'s Rt \<Rightarrow> Parsers \<Rightarrow> 's ApiDeps \<Rightarrow> 's BatchStore \<Rightarrow> Request \<Rightarrow> 's \<Rightarrow> Response \<times> 's" where
  "handleBatchByID rt ps d B r s =
     (let parts = split_on CHR ''/'' (drop (length ''/v1/batches/'') (rq_Path r))
      in if parts = [] \<or> hd parts = [] then (writeError StatusBadRequest ''missing batch id'', s)
         else case uuid_Parse ps (hd parts) of
           None \<Rightarrow> (writeError StatusBadRequest ''invalid batch id'', s)
         | Some uid \<Rightarrow>
             if 2 \<le> length parts \<and> parts ! 1 = ''close'' then handleBatchClose rt d r uid s
             else if 2 \<le> length parts \<and> parts ! 1 = ''memberships'' then handleBatchMemberships d r uid s
             else batch_detail d B r uid s)"

definition handleFloatList :: "'s FloatDeps \<Rightarrow> Request \<Rightarrow> 's \<Rightarrow> Response \<times> 's" where
  "handleFloatList fl r s =
     (if rq_Method r \<noteq> ''GET'' then (not_allowed, s) else answer BodyFloats (float_List fl s))"

definition handleFloat :: "'s FloatDeps \<Rightarrow> Request \<Rightarrow> 's \<Rightarrow> Response \<times> 's" where
  "handleFloat fl r s =
     (if rq_Method r \<noteq> ''GET'' then (not_allowed, s)
      else let fiat = drop (length ''/v1/float/'') (rq_Path r)
        in if fiat = [] then (writeError StatusBadRequest ''missing fiat currency'', s)
           else answer BodyFloat (float_Get fl fiat s))"

definition handleAggregateOrders :: "'s AggregateOrderStore \<Rightarrow> Request \<Rightarrow> 's \<Rightarrow> Response \<times> 's" where
  "handleAggregateOrders orders r s =
     (if rq_Method r \<noteq> ''GET'' then (not_allowed, s)
      else answer BodyOrders (ListOrders orders (rq_Query r ''status'') s))"

text \<open>The refusal of a funding request, chosen by the text of the error.\<close>

definition funding_refusal :: "error \<Rightarrow> Response" where
  "funding_refusal e =
     (if error_str e = error_str ErrInvalidAmount then writeError StatusBadRequest (error_str e)
      else if error_str e = error_str ErrPolicyViolation then writeError StatusForbidden (error_str e)
      else writeError StatusInternalServerError (error_str e))"

definition handleFunding :: "'s Rt \<Rightarrow> Parsers \<Rightarrow> 's FundingDeps \<Rightarrow> Request \<Rightarrow> 's \<Rightarrow> Response \<times> 's" where
  "handleFunding rt ps fm r s =
     (if rq_Method r = ''GET'' then answer BodyFundings (manager_ListFunding fm (rq_Query r ''status'') s)
      else if rq_Method r \<noteq> ''POST'' then (not_allowed, s)
      else case decode_funding ps (rq_Body r) of
        None \<Rightarrow> (writeError StatusBadRequest ''malformed json'', s)
      | Some q \<Rightarrow>
          (case CreateFundingRequest rt fm (fb_WalletID q) (fb_Asset q) (fb_Amount q) (fb_SourceVenue q) s of
             ((fr, Some e), s1) \<Rightarrow> (funding_refusal e, s1)
           | ((Some fr, None), s1) \<Rightarrow> (writeJSON StatusCreated (BodyFunding (fr s1)), s1)
           | ((None, None), s1) \<Rightarrow> (writeJSON StatusCreated BodyNone, s1)))"

definition handleRebalancing :: "'s FundingDeps \<Rightarrow> Request \<Rightarrow> 's \<Rightarrow> Response \<times> 's" where
  "handleRebalancing fm r s =
     (if rq_Method r \<noteq> ''GET'' then (not_allowed, s)
      else answer BodyJobs (manager_ListJobs fm (rq_Query r ''status'') s))"

section \<open>The router\<close>

text \<open>A clean path: it starts with a slash and has no empty, \<open>.\<close> or \<open>..\<close> element inside.\<close>

definition clean_path :: "string \<Rightarrow> bool" where
  "clean_path p \<longleftrightarrow>
     p \<noteq> [] \<and> hd p = CHR ''/'' \<and>
     (let parts = split_on CHR ''/'' (tl p)
      in list_all (\<lambda>x. x \<noteq> []) (butlast parts) \<and> list_all (\<lambda>x. x \<noteq> ''.'' \<and> x \<noteq> ''..'') parts)"

definition pattern_matches :: "string \<Rightarrow> string \<Rightarrow> bool" where
  "pattern_matches p path \<longleftrightarrow> path = p \<or> p \<noteq> [] \<and> last p = CHR ''/'' \<and> prefix p path"

text \<open>The longest registered pattern that matches; an exact one is the longest.\<close>

definition mux_match :: "(string \<times> 'h) list \<Rightarrow> string \<Rightarrow> (string \<times> 'h) option" where
  "mux_match routes path =
     (case filter (\<lambda>(p, h). pattern_matches p path) routes of
        [] \<Rightarrow> None
      | m # ms \<Rightarrow> Some (foldl (\<lambda>a b. if length (fst a) < length (fst b) then b else a) m ms))"

definition NewRouter ::
  "'s Rt \<Rightarrow> Parsers \<Rightarrow> 's ApiDeps \<Rightarrow> (string \<times> (Request \<Rightarrow> 's \<Rightarrow> Response \<times> 's)) list" where
  "NewRouter rt ps d =
     [(''/healthz'', \<lambda>r. healthz), (''/readyz'', \<lambda>r. readyz)] @
     (case ad_Batches d of None \<Rightarrow> []
      | Some B \<Rightarrow> [(''/v1/batches'', handleBatches B), (''/v1/batches/'', handleBatchByID rt ps d B)]) @
     (case ad_Float d of None \<Rightarrow> []
      | Some fl \<Rightarrow> [(''/v1/float'', handleFloatList fl), (''/v1/float/'', handleFloat fl)]) @
     (case ad_Funding d of None \<Rightarrow> []
      | Some fm \<Rightarrow> [(''/v1/funding-requests'', handleFunding rt ps fm),
                    (''/v1/rebalancing-jobs'', handleRebalancing fm)]) @
     (case ad_Orders d of None \<Rightarrow> []
      | Some orders \<Rightarrow> [(''/v1/aggregate-orders'', handleAggregateOrders orders)])"

definition ServeHTTP ::
  "(string \<times> (Request \<Rightarrow> 's \<Rightarrow> Response \<times> 's)) list \<Rightarrow> Request \<Rightarrow> 's \<Rightarrow> Response \<times> 's" where
  "ServeHTTP routes r s =
     (if rq_Method r \<noteq> ''CONNECT'' \<and> \<not> clean_path (rq_Path r)
      then (\<lparr>rs_ContentType = (if rq_Method r \<in> {''GET'', ''HEAD''} then ''text/html; charset=utf-8'' else []),
              rs_Code = StatusMovedPermanently, rs_Body = BodyNone\<rparr>, s)
      else case mux_match routes (rq_Path r) of
        None \<Rightarrow> (\<lparr>rs_ContentType = ''text/plain; charset=utf-8'', rs_Code = StatusNotFound, rs_Body = BodyNone\<rparr>, s)
      | Some (p, h) \<Rightarrow> h r s)"

text \<open>The dependencies the application hands to the router.\<close>

definition app_api :: "'s Rt \<Rightarrow> Config \<Rightarrow> 's Services \<Rightarrow> 's ApiDeps" where
  "app_api rt cfg S = \<lparr>ad_Batches = Some (sv_Batch S), ad_Members = Some (sv_Membership S),
     ad_Orders = Some (sv_Order S), ad_Scheduler = Some (app_scheduler rt cfg S),
     ad_Float = Some (app_float cfg S), ad_Funding = Some (app_manager cfg S)\<rparr>"

text \<open>The outer router: the API, the push endpoint of the event bus and the metrics.\<close>

datatype root_target = RootApi | RootEvents | RootMetrics

definition root_routes :: "(string \<times> root_target) list" where
  "root_routes = [(''/'', RootApi), (''/v1/events/'', RootEvents), (''/metrics'', RootMetrics)]"

definition dev_serve ::
  "(float64 \<Rightarrow> decimal) \<Rightarrow> (Payload \<Rightarrow> string) \<Rightarrow> (string \<Rightarrow> Payload) \<Rightarrow> Config \<Rightarrow> Parsers
   \<Rightarrow> Request \<Rightarrow> 'n service \<Rightarrow> Response \<times> 'n service" where
  "dev_serve dec mar unm cfg ps =
     ServeHTTP (NewRouter (world_rt dec) ps (app_api (world_rt dec) cfg (dev_services dec mar unm)))"

end
