(* ===== verification/Pipeline.thy ===== *)
theory Pipeline
  imports App
begin

text \<open>
  The close of a batch from end to end, in development mode: the scheduler closes the batch,
  the close hook records the event and submits the parent order, the fill hook adds the float,
  hedges the exposure, settles the batch and records its events. Each stage is first run on
  the state; the last section composes them.
\<close>

section \<open>The fill hook\<close>

abbreviation pending_keys :: "'x world \<Rightarrow> string list" where
  "pending_keys w \<equiv> map oe_DedupKey (filter is_pending (ot_rows (w_outbox w)))"

abbreviation seen_event :: "'x world \<Rightarrow> string \<Rightarrow> bool" where
  "seen_event w \<equiv> ot_seen (w_outbox w)"

abbreviation seen_key :: "'x world \<Rightarrow> string \<rightharpoonup> time" where
  "seen_key w \<equiv> ms_seen (w_idem w)"

text \<open>An event whose key is new is appended, pending.\<close>

lemma app_event_fields [simp]:
  "w_batch (app_event (dev_services dec mar unm) agg ev uid p w) = w_batch w"
  "w_order (app_event (dev_services dec mar unm) agg ev uid p w) = w_order w"
  "w_float (app_event (dev_services dec mar unm) agg ev uid p w) = w_float w"
  "w_member (app_event (dev_services dec mar unm) agg ev uid p w) = w_member w"
  "w_funding (app_event (dev_services dec mar unm) agg ev uid p w) = w_funding w"
  "w_idem (app_event (dev_services dec mar unm) agg ev uid p w) = w_idem w"
  "w_ext (app_event (dev_services dec mar unm) agg ev uid p w) = w_ext w"
  "w_clock (app_event (dev_services dec mar unm) agg ev uid p w) = w_clock w"
  "w_metrics (app_event (dev_services dec mar unm) agg ev uid p w) = w_metrics w"
  by (simp_all add: app_event_dev)

lemma app_event_outbox [simp]:
  "ot_seen (w_outbox (app_event (dev_services dec mar unm) agg ev uid p w)) k \<longleftrightarrow> k = Key agg ev uid \<or> seen_event w k"
  "\<not> seen_event w (Key agg ev uid) \<Longrightarrow>
    pending_keys (app_event (dev_services dec mar unm) agg ev uid p w) = pending_keys w @ [Key agg ev uid]"
  by (auto simp: app_event_dev ob_Append_def Let_def IsZero_def)

lemma slippage_fields [simp]:
  "w_batch (observe_slippage (world_rt dec) d b fill w) = w_batch w"
  "w_order (observe_slippage (world_rt dec) d b fill w) = w_order w"
  "w_float (observe_slippage (world_rt dec) d b fill w) = w_float w"
  "w_outbox (observe_slippage (world_rt dec) d b fill w) = w_outbox w"
  "w_ext (observe_slippage (world_rt dec) d b fill w) = w_ext w"
  by (simp_all add: observe_slippage_def Let_def split: option.split)

text \<open>The float stage.\<close>

lemma float_stage:
  assumes "\<And>t. w_order t = w_order w \<Longrightarrow> ord t = r" and "\<not> seen_event w (Key AggFloat EvFloatAdjust (b_ID b))"
    and w': "(e, w') = float_OnAggregateFill (world_rt dec) (app_float cfg (dev_services dec mar unm)) b ord fiat asset w"
  shows "e = None" "w_batch w' = w_batch w" "w_order w' = w_order w" "w_idem w' = w_idem w" "w_ext w' = w_ext w"
    "short_of c (w_float w') = short_of c (w_float w) + (if c = fiat then o_NotionalUSD r else 0)"
    "long_of c (w_float w') = long_of c (w_float w) + (if c = fiat then o_TotalFilled r else 0)"
    "seen_event w' k \<longleftrightarrow> k = Key AggFloat EvFloatAdjust (b_ID b) \<or> seen_event w k"
    "pending_keys w' = pending_keys w @ [Key AggFloat EvFloatAdjust (b_ID b)]"
proof -
  show "e = None" "w_batch w' = w_batch w" "w_order w' = w_order w" "w_idem w' = w_idem w" "w_ext w' = w_ext w"
    "short_of c (w_float w') = short_of c (w_float w) + (if c = fiat then o_NotionalUSD r else 0)"
    "long_of c (w_float w') = long_of c (w_float w) + (if c = fiat then o_TotalFilled r else 0)"
    "seen_event w' k \<longleftrightarrow> k = Key AggFloat EvFloatAdjust (b_ID b) \<or> seen_event w k"
    "pending_keys w' = pending_keys w @ [Key AggFloat EvFloatAdjust (b_ID b)]"
    using w' assms(1,2)
    by (simp_all add: float_OnAggregateFill_def dev_components W_simps Let_def enforceBounds_quiet onAdjust_def
        mf_AddFloat_short mf_AddFloat_long fill_position_def)
qed

text \<open>The hedge stage, with the service up.\<close>

definition services_up :: "'n service \<Rightarrow> bool" where
  "services_up w \<longleftrightarrow> fk_err (x_liq (w_ext w)) = None \<and> \<not> fk_dupErr (x_liq (w_ext w)) \<and>
     fk_err (x_fx (w_ext w)) = None \<and> \<not> fk_dupErr (x_fx (w_ext w))"

lemma hedge_stage:
  assumes ord: "\<And>t. w_order t = w_order w \<Longrightarrow> ord t = r" and row: "order_map (w_order w) (b_ID b) = Some r"
    and "0 < o_NotionalUSD r" and "seen_key w (hedge_key (b_ID b)) = None" and up: "services_up w"
    and w': "(e, w') = hedge_OnAggregateFill (world_rt dec) (app_hedger (dev_services dec mar unm)) b ord fiat w"
  shows "w_batch w' = w_batch w" "w_float w' = w_float w" "w_outbox w' = w_outbox w"
    "liq_calls w' = liq_calls w"
    "\<exists>t. order_map (w_order w') = (order_map (w_order w))(b_ID b \<mapsto>
       settled_order t (hr_HedgedNotional (fk_result (x_fx (w_ext w)))) r)"
    "map o_BatchID (w_order w') = map o_BatchID (w_order w)"
proof -
  obtain i where i: "i < length (w_order w)" "first_ix (\<lambda>x. o_BatchID x = b_ID b) (w_order w) = Some i"
      "r = w_order w ! i" "o_BatchID (w_order w ! i) = b_ID b"
    using rowmap_Some_row [OF row] by auto
  show "w_batch w' = w_batch w" "w_float w' = w_float w" "w_outbox w' = w_outbox w"
    "liq_calls w' = liq_calls w"
    "\<exists>t. order_map (w_order w') = (order_map (w_order w))(b_ID b \<mapsto>
       settled_order t (hr_HedgedNotional (fk_result (x_fx (w_ext w)))) r)"
    "map o_BatchID (w_order w') = map o_BatchID (w_order w)"
    using assms(3,4) up w' ord i
    by (auto simp: hedge_OnAggregateFill_def dev_components W_simps Let_def ms_CheckAndMark_def services_up_def
        devFX_def fakeFX_def in_slot_def FakeFX_SubmitExposure_def fake_call_def mo_SettleOrder_def
        rowmap_modify keys_update)
qed

text \<open>The whole hook: the batch is settled, the order hedged, the float and the outbox grown.\<close>

lemma fill_stage:
  assumes ord: "\<And>t. ord t = w_order t ! i" and i: "first_ix (\<lambda>x. o_BatchID x = b_ID b) (w_order w) = Some i"
    and pos: "0 < o_NotionalUSD (w_order w ! i)" and "seen_key w (hedge_key (b_ID b)) = None" and up: "services_up w"
    and b1: "batch_map (w_batch w) (b_ID b) = Some b1" "b_Status b1 = BatchExecuting"
    and "\<not> seen_event w (Key AggFloat EvFloatAdjust (b_ID b))"
    and "\<not> seen_event w (Key AggAggregate EvAggregateExec (b_ID b))"
    and w': "w' = onFill (world_rt dec) cfg (dev_services dec mar unm) b ord w"
  shows "\<exists>t. batch_map (w_batch w') = (batch_map (w_batch w))(b_ID b \<mapsto> transitioned t BatchSettled None b1)"
    "\<exists>t. order_map (w_order w') = (order_map (w_order w))(b_ID b \<mapsto>
       settled_order t (hr_HedgedNotional (fk_result (x_fx (w_ext w)))) (w_order w ! i))"
    "short_of c (w_float w') = short_of c (w_float w) +
       (if c = fiatOf (b_AssetPair b) then o_NotionalUSD (w_order w ! i) else 0)"
    "long_of c (w_float w') = long_of c (w_float w) +
       (if c = fiatOf (b_AssetPair b) then o_TotalFilled (w_order w ! i) else 0)"
    "liq_calls w' = liq_calls w"
    "pending_keys w' = pending_keys w @
       [Key AggFloat EvFloatAdjust (b_ID b), Key AggAggregate EvAggregateExec (b_ID b)]"
proof -
  let ?S = "dev_services dec mar unm" and ?fiat = "fiatOf (b_AssetPair b)"
  obtain e1 w1 where 1: "(e1, w1) = float_OnAggregateFill (world_rt dec) (app_float cfg ?S) b ord ?fiat (cryptoOf (b_AssetPair b)) w"
    by (metis surj_pair)
  obtain e2 w2 where 2: "(e2, w2) = hedge_OnAggregateFill (world_rt dec) (app_hedger ?S) b ord ?fiat w1"
    by (metis surj_pair)
  have ordr: "w_order t = w_order w \<Longrightarrow> ord t = w_order w ! i" for t using ord by simp
  note f = float_stage [OF ordr assms(8) 1]
  have ordr1: "w_order t = w_order w1 \<Longrightarrow> ord t = w_order w ! i" for t using ord f(3) by simp
  have row: "order_map (w_order w1) (b_ID b) = Some (w_order w ! i)" using i f(3) by (simp add: rowmap_def)
  have "services_up w1" "seen_key w1 (hedge_key (b_ID b)) = None"
    using up assms(4) f(4,5) by (simp_all add: services_up_def)
  note h = hedge_stage [OF ordr1 row pos this(2,1) 2]
  let ?t = "w_clock w2 (w_reads w2)"
  have b2: "batch_map (w_batch w2) (b_ID b) = Some b1" using b1(1) f(2) h(1) by simp
  let ?w3 = "w2\<lparr>w_reads := Suc (w_reads w2),
      w_batch := snd (mb_UpdateBatchStatus ?t (b_ID b) BatchExecuting BatchSettled None (w_batch w2))\<rparr>"
  have w3: "w' = app_event ?S AggAggregate EvAggregateExec (b_ID b)
      (no_payload\<lparr>pl_BatchID := b_ID b, pl_NotionalUSD := o_NotionalUSD (ord ?w3),
         pl_Asset := cryptoOf (b_AssetPair b), pl_FiatCurrency := ?fiat\<rparr>) ?w3"
    using 1 [symmetric] 2 [symmetric] unfolding w' onFill_def
    by (simp add: Let_def) (simp add: dev_services_def W_simps Let_def)
  have ev: "Key AggAggregate EvAggregateExec (b_ID b) \<noteq> Key AggFloat EvFloatAdjust (b_ID b)"
    by (simp add: Key_inject event_kinds_def event_names)
  have seen: "\<not> seen_event ?w3 (Key AggAggregate EvAggregateExec (b_ID b))"
    using assms(9) f(8) h(3) ev by simp
  have "batch_map (w_batch w') = (batch_map (w_batch w2))(b_ID b \<mapsto> transitioned ?t BatchSettled None b1)"
    using b2 b1(2) by (simp add: w3 mb_UpdateBatchStatus_map batch_map_transition)
  then show "\<exists>t. batch_map (w_batch w') = (batch_map (w_batch w))(b_ID b \<mapsto> transitioned t BatchSettled None b1)"
    using f(2) h(1) by auto
  show "\<exists>t. order_map (w_order w') = (order_map (w_order w))(b_ID b \<mapsto>
       settled_order t (hr_HedgedNotional (fk_result (x_fx (w_ext w)))) (w_order w ! i))"
    using h(5) f(3,5) by (simp add: w3)
  show "short_of c (w_float w') = short_of c (w_float w) +
       (if c = fiatOf (b_AssetPair b) then o_NotionalUSD (w_order w ! i) else 0)"
    "long_of c (w_float w') = long_of c (w_float w) +
       (if c = fiatOf (b_AssetPair b) then o_TotalFilled (w_order w ! i) else 0)"
    "liq_calls w' = liq_calls w"
    using f(6,7) [of c] f(5) h(2,4) by (simp_all add: w3)
  have "pending_keys w' = pending_keys ?w3 @ [Key AggAggregate EvAggregateExec (b_ID b)]"
    unfolding w3 by (rule app_event_outbox(2) [OF seen])
  then show "pending_keys w' = pending_keys w @
       [Key AggFloat EvFloatAdjust (b_ID b), Key AggAggregate EvAggregateExec (b_ID b)]"
    using f(9) h(3) by simp
qed

section \<open>The submission\<close>

text \<open>A first submission of a closed batch, with the service up: the state the hook starts from.\<close>

definition fill_for :: "'n service \<Rightarrow> FillResult" where
  "fill_for w = primary_route (fk_result (x_liq (w_ext w)))"

lemma submit_stage:
  assumes b: "batch_map (w_batch w) uid = Some b" "b_Status b = BatchClosed"
    and none: "order_map (w_order w) uid = None" and key: "seen_key w (agg_key uid) = None" and up: "services_up w"
    and w': "w' = snd (SubmitBatch (world_rt dec) (app_executor (world_rt dec) cfg (dev_services dec mar unm)) uid w)"
  shows "\<exists>v i. w' = onFill (world_rt dec) cfg (dev_services dec mar unm) b (\<lambda>t. w_order t ! i) v \<and>
    first_ix (\<lambda>x. o_BatchID x = uid) (w_order v) = Some i \<and>
    (\<exists>t. order_map (w_order v) = (order_map (w_order w))(uid \<mapsto> w_order v ! i) \<and>
       w_order v ! i = filled_order (fill_FillPrice (fill_for w)) (fill_TotalFilled (fill_for w))
         (fill_VenueRoutes (fill_for w)) (defaulted_order (w_ids w (w_idn w)) t (parent_order b))) \<and>
    (\<exists>t. batch_map (w_batch v) = (batch_map (w_batch w))(uid \<mapsto> transitioned t BatchExecuting None b)) \<and>
    w_float v = w_float w \<and> w_outbox v = w_outbox w \<and> liq_calls v = liq_calls w @ [parent_request b] \<and>
    x_fx (w_ext v) = x_fx (w_ext w) \<and> services_up v \<and>
    (\<forall>k. k \<noteq> agg_key uid \<longrightarrow> seen_key v k = seen_key w k)"
proof -
  let ?S = "dev_services dec mar unm" and ?i = "length (w_order w)"
  have uid: "b_ID b = uid" using rowmap_SomeD [OF b(1)] by simp
  let ?o = "defaulted_order (w_ids w (w_idn w)) (w_clock w (w_reads w)) (parent_order b)"
  have none': "order_map (w_order w) (o_BatchID (parent_order b)) = None" using none uid by simp
  have oc: "order_created b w = (Alias ?i, w_order w @ [?o])"
    unfolding order_created_def by (rule mo_CreateOrder_new(1) [OF none'])
  let ?row = "filled_order (fill_FillPrice (fill_for w)) (fill_TotalFilled (fill_for w)) (fill_VenueRoutes (fill_for w)) ?o"
  have ix: "first_ix (\<lambda>x. o_BatchID x = uid) (w_order w @ [?o]) = Some ?i"
    using none uid by (auto simp: first_ix_append rowmap_def)
  have ix2: "first_ix (\<lambda>x. o_BatchID x = uid) (w_order w @ [?row]) = Some ?i"
    using none uid by (auto simp: first_ix_append rowmap_def)
  have map2: "order_map (w_order w @ [?row]) = (order_map (w_order w))(uid \<mapsto> ?row)"
    using none uid by (auto simp: rowmap_append rowmap_None)
  let ?t = "w_clock w (Suc (w_reads w))"
  have bm: "batch_map (snd (mb_UpdateBatchStatus ?t uid BatchClosed BatchExecuting None (w_batch w))) =
      (batch_map (w_batch w))(uid \<mapsto> transitioned ?t BatchExecuting None b)"
    using b by (simp add: mb_UpdateBatchStatus_map batch_map_transition)
  obtain m where m: "ms_CheckAndMark (w_clock w (Suc (Suc (w_reads w)))) (agg_key uid) (24 * hour) (w_idem w) = (True, m)"
      "\<forall>k. k \<noteq> agg_key uid \<longrightarrow> ms_seen m k = seen_key w k"
    using key by (auto simp: ms_CheckAndMark_def)
  obtain x where x: "FakeLiquidity_SubmitAggregate (parent_request b) (agg_key uid) (x_liq (w_ext w)) = (Inr (fill_for w), x)"
      "fk_calls x = liq_calls w @ [parent_request b]" "fk_err x = None" "\<not> fk_dupErr x"
    using up by (auto simp: FakeLiquidity_SubmitAggregate_def fake_call_def services_up_def fill_for_def)
  define v0 where "v0 = put_order (w_order w @ [?row]) (in_ext (x_liq_update (\<lambda>_. x))
      (put_idem m ((prepared b w)\<lparr>w_reads := Suc (Suc (Suc (w_reads w)))\<rparr>)))"
  define v where "v = observe_slippage (world_rt dec) (app_executor (world_rt dec) cfg ?S) b (fill_for w) v0"
  have "claim_and_submit (world_rt dec) (app_executor (world_rt dec) cfg ?S) b (prepared b w) =
      (Inr (\<lambda>t. w_order t ! ?i), onFill (world_rt dec) cfg ?S b (\<lambda>t. w_order t ! ?i) v)"
    using m(1) x(1) oc ix uid
    by (simp add: claim_and_submit_def dev_components W_simps Let_def devLiquidity_def fakeLiquidity_def in_slot_def
        mo_UpdateOrderFill_def v_def v0_def)
  then have "w' = onFill (world_rt dec) cfg ?S b (\<lambda>t. w_order t ! ?i) v"
    using b oc by (simp add: w' dev_components SubmitBatch_world)
  moreover have "w_order v = w_order w @ [?row]" "w_float v = w_float w" "w_outbox v = w_outbox w"
      "w_batch v = snd (mb_UpdateBatchStatus ?t uid BatchClosed BatchExecuting None (w_batch w))"
      "liq_calls v = liq_calls w @ [parent_request b]" "x_fx (w_ext v) = x_fx (w_ext w)" "services_up v"
      "\<forall>k. k \<noteq> agg_key uid \<longrightarrow> seen_key v k = seen_key w k"
    using x m(2) up uid by (simp_all add: v_def v0_def prepared_def with_order_def services_up_def)
  ultimately show ?thesis using ix2 map2 bm by (intro exI [of _ v] exI [of _ ?i]) auto
qed

section \<open>The close\<close>

lemma close_stage:
  assumes b: "batch_map (w_batch w) uid = Some b" "b_Status b = BatchOpen"
    and w': "(r, w') = close_batch (world_rt dec) (W_sched cfg dec ttl (Some hook)) uid reason w"
  shows "\<exists>t v. let b' = transitioned t BatchClosed (Some (set_notional (notional_of uid (mt_rows (w_member w))))) b in
    r = Inr b' \<and> w' = hook b' reason v \<and> batch_map (w_batch v) = (batch_map (w_batch w))(uid \<mapsto> b') \<and>
    w_member v = w_member w \<and> w_order v = w_order w \<and> w_float v = w_float w \<and> w_outbox v = w_outbox w \<and>
    w_idem v = w_idem w \<and> w_ext v = w_ext w"
proof -
  let ?n = "notional_of uid (mt_rows (w_member w))" and ?t = "w_clock w (w_reads w)"
  let ?b = "transitioned ?t BatchClosed (Some (set_notional ?n)) b"
  let ?rows = "snd (mb_UpdateBatchStatus ?t uid BatchOpen BatchClosed (Some (set_notional ?n)) (w_batch w))"
  have u: "fst (mb_UpdateBatchStatus ?t uid BatchOpen BatchClosed (Some (set_notional ?n)) (w_batch w)) = Inr (Some ?b)"
    and m: "batch_map ?rows = (batch_map (w_batch w))(uid \<mapsto> ?b)"
    using b by (simp_all add: mb_UpdateBatchStatus_map batch_map_transition)
  define s4 where "s4 = Metric (world_rt dec) (BatchesClosed (b_AssetPair b) (CloseReason_str reason))
      (w\<lparr>w_reads := Suc (w_reads w), w_batch := ?rows\<rparr>)"
  define v where "v = Metric (world_rt dec)
      (CloseLatency (b_AssetPair b) (Since (fst (Now (world_rt dec) s4)) (b_OpenedAt ?b))) (snd (Now (world_rt dec) s4))"
  have v: "close_batch (world_rt dec) (W_sched cfg dec ttl (Some hook)) uid reason w = (Inr ?b, hook ?b reason v)"
    using b u by (simp add: close_batch_def W_simps mb_GetBatch_map mm_SumNotional_eq value_or_zero_def Let_def
        v_def s4_def)
  have f: "w_batch v = ?rows" "w_member v = w_member w" "w_order v = w_order w" "w_float v = w_float w"
      "w_outbox v = w_outbox w" "w_idem v = w_idem w" "w_ext v = w_ext w"
    by (simp_all add: v_def s4_def)
  from w' v m f show ?thesis by (auto simp: Let_def intro!: exI [of _ ?t] exI [of _ v])
qed

lemma transitioned_notional:
  "b_NotionalUSD (transitioned t st (Some (set_notional n)) b) = n"
  "b_NotionalUSD (transitioned t st None b) = b_NotionalUSD b"
  "b_AssetPair (transitioned t st (Some (set_notional n)) b) = b_AssetPair b"
  "b_AssetPair (transitioned t st None b) = b_AssetPair b"
  "b_ID (transitioned t st (Some (set_notional n)) b) = b_ID b" "b_ID (transitioned t st None b) = b_ID b"
  "b_Status (transitioned t st (Some (set_notional n)) b) = st" "b_Status (transitioned t st None b) = st"
  by (simp_all add: transitioned_def set_notional_def Let_def)

text \<open>
  The capital movement of a batch: closing it settles it, with one parent order for the sum of
  its members, hedged, the same amount added to the float of its currency and the filled
  amount to its crypto leg, and one event for each step in the outbox.
\<close>

lemma close_end_to_end:
  assumes b: "batch_map (w_batch w) uid = Some b" "b_Status b = BatchOpen"
    and n: "n = notional_of uid (mt_rows (w_member w))" "0 < n"
    and fresh: "order_map (w_order w) uid = None" "seen_key w (agg_key uid) = None" "seen_key w (hedge_key uid) = None"
      "\<not> seen_event w (Key AggBatch EvBatchClose uid)" "\<not> seen_event w (Key AggFloat EvFloatAdjust uid)"
      "\<not> seen_event w (Key AggAggregate EvAggregateExec uid)"
    and up: "services_up w"
    and w': "(r, w') = close_batch (world_rt dec) (app_scheduler (world_rt dec) cfg (dev_services dec mar unm)) uid reason w"
  shows "\<exists>b'. batch_map (w_batch w') uid = Some b' \<and> b_Status b' = BatchSettled \<and> b_NotionalUSD b' = n"
    and "\<exists>ord. order_map (w_order w') uid = Some ord \<and> o_Status ord = AggregateSettled \<and> o_NotionalUSD ord = n \<and>
      o_TotalFilled ord = fill_TotalFilled (fk_result (x_liq (w_ext w))) \<and>
      o_HedgedNotional ord = hr_HedgedNotional (fk_result (x_fx (w_ext w)))"
    and "short_of c (w_float w') = short_of c (w_float w) + (if c = fiatOf (b_AssetPair b) then n else 0)"
    and "long_of c (w_float w') = long_of c (w_float w) +
      (if c = fiatOf (b_AssetPair b) then fill_TotalFilled (fk_result (x_liq (w_ext w))) else 0)"
    and "liq_calls w' = liq_calls w @
      [\<lparr>ao_AssetPair = b_AssetPair b, ao_Side = ''BUY'', ao_NotionalUSD = n, ao_TotalTarget = n\<rparr>]"
    and "pending_keys w' = pending_keys w @ [Key AggBatch EvBatchClose uid, Key AggFloat EvFloatAdjust uid,
      Key AggAggregate EvAggregateExec uid]"
proof -
  let ?S = "dev_services dec mar unm"
  have uid: "b_ID b = uid" using rowmap_SomeD [OF b(1)] by simp
  from close_stage [OF b w' [unfolded dev_components]]
  obtain t v bc where bc: "bc = transitioned t BatchClosed (Some (set_notional n)) b"
    and v: "r = Inr bc" "w' = onClose (world_rt dec) cfg ?S bc reason v"
      "batch_map (w_batch v) = (batch_map (w_batch w))(uid \<mapsto> bc)"
      "w_order v = w_order w" "w_float v = w_float w" "w_outbox v = w_outbox w" "w_idem v = w_idem w" "w_ext v = w_ext w"
    unfolding n(1) Let_def by blast
  have bcf: "b_ID bc = uid" "b_Status bc = BatchClosed" "b_NotionalUSD bc = n" "b_AssetPair bc = b_AssetPair b"
    using uid by (simp_all add: bc transitioned_notional)
  define u where "u = app_event ?S AggBatch EvBatchClose uid
      (no_payload\<lparr>pl_BatchID := uid, pl_NotionalUSD := n\<rparr>) v"
  have keys: "Key AggFloat EvFloatAdjust uid \<noteq> Key AggBatch EvBatchClose uid"
      "Key AggAggregate EvAggregateExec uid \<noteq> Key AggBatch EvBatchClose uid"
    by (simp_all add: Key_inject event_kinds_def event_names)
  have pk: "pending_keys u = pending_keys w @ [Key AggBatch EvBatchClose uid]"
    unfolding u_def using app_event_outbox(2) [of v AggBatch EvBatchClose uid] v(6) fresh(4) by simp
  have us: "services_up u" "seen_key u (agg_key uid) = None" "seen_key u (hedge_key uid) = None"
      "batch_map (w_batch u) uid = Some bc" "order_map (w_order u) uid = None" "x_fx (w_ext u) = x_fx (w_ext w)"
      "fill_for u = fill_for w" "w_float u = w_float w" "liq_calls u = liq_calls w"
      "\<not> seen_event u (Key AggFloat EvFloatAdjust uid)" "\<not> seen_event u (Key AggAggregate EvAggregateExec uid)"
    using up fresh v keys by (simp_all add: u_def services_up_def fill_for_def)
  have "w' = snd (SubmitBatch (world_rt dec) (app_executor (world_rt dec) cfg ?S) uid u)"
    using v(2) bcf by (simp add: onClose_def u_def)
  from submit_stage [OF us(4) bcf(2) us(5,2,1) this]
  obtain x i t1 t2 where x: "w' = onFill (world_rt dec) cfg ?S bc (\<lambda>t. w_order t ! i) x"
      "first_ix (\<lambda>x. o_BatchID x = uid) (w_order x) = Some i"
      "w_order x ! i = filled_order (fill_FillPrice (fill_for u)) (fill_TotalFilled (fill_for u))
         (fill_VenueRoutes (fill_for u)) (defaulted_order (w_ids u (w_idn u)) t1 (parent_order bc))"
      "batch_map (w_batch x) = (batch_map (w_batch u))(uid \<mapsto> transitioned t2 BatchExecuting None bc)"
      "w_float x = w_float u" "w_outbox x = w_outbox u" "liq_calls x = liq_calls u @ [parent_request bc]"
      "x_fx (w_ext x) = x_fx (w_ext u)" "services_up x"
      "\<forall>k. k \<noteq> agg_key uid \<longrightarrow> seen_key x k = seen_key u k" by blast
  have hk: "hedge_key uid \<noteq> agg_key uid" by (simp add: hedge_key_def agg_key_def)
  have ordf: "o_NotionalUSD (w_order x ! i) = n"
      "o_TotalFilled (w_order x ! i) = fill_TotalFilled (fk_result (x_liq (w_ext w)))"
    using bcf us(7) by (simp_all add: x(3) fill_for_def primary_route_def)
  have pos: "0 < o_NotionalUSD (w_order x ! i)" using ordf n(2) by simp
  have "batch_map (w_batch x) (b_ID bc) = Some (transitioned t2 BatchExecuting None bc)" using x(4) bcf by simp
  note f = fill_stage [OF refl x(2) [folded bcf(1)] pos _ x(9) this _ _ _ x(1), unfolded bcf(1,4) transitioned_notional]
  have pre: "seen_key x (hedge_key uid) = None" "\<not> seen_event x (Key AggFloat EvFloatAdjust uid)"
      "\<not> seen_event x (Key AggAggregate EvAggregateExec uid)"
    using x(6,10) hk us(3,10,11) by simp_all
  note g = f [OF pre(1) refl pre(2,3)]
  show "\<exists>b'. batch_map (w_batch w') uid = Some b' \<and> b_Status b' = BatchSettled \<and> b_NotionalUSD b' = n"
    using g(1) bcf by (auto simp: transitioned_notional)
  show "\<exists>ord. order_map (w_order w') uid = Some ord \<and> o_Status ord = AggregateSettled \<and> o_NotionalUSD ord = n \<and>
      o_TotalFilled ord = fill_TotalFilled (fk_result (x_liq (w_ext w))) \<and>
      o_HedgedNotional ord = hr_HedgedNotional (fk_result (x_fx (w_ext w)))"
    using g(2) ordf x(8) us(6) by auto
  show "short_of c (w_float w') = short_of c (w_float w) + (if c = fiatOf (b_AssetPair b) then n else 0)"
    "long_of c (w_float w') = long_of c (w_float w) +
      (if c = fiatOf (b_AssetPair b) then fill_TotalFilled (fk_result (x_liq (w_ext w))) else 0)"
    using g(3,4) [of c] ordf x(5) us(8) by simp_all
  show "liq_calls w' = liq_calls w @
      [\<lparr>ao_AssetPair = b_AssetPair b, ao_Side = ''BUY'', ao_NotionalUSD = n, ao_TotalTarget = n\<rparr>]"
    using g(5) x(7) us(9) bcf by (simp add: parent_request_def)
  show "pending_keys w' = pending_keys w @ [Key AggBatch EvBatchClose uid, Key AggFloat EvFloatAdjust uid,
      Key AggAggregate EvAggregateExec uid]"
    using g(6) x(6) pk by simp
qed

end
