(* ===== verification/Stages.thy ===== *)
theory Stages
  imports Pipeline "HOL-Library.Multiset"
begin

text \<open>
  The stages of a close in every case, whatever the downstream services answer and whatever
  amount the batch holds: which tables each stage changes and by how much. The fill hook
  always settles the batch and grows the float, hedged or not; a submission refused by
  liquidity-routing leaves the batch executing, with its order and its request.
\<close>

section \<open>What the close path leaves alone\<close>

definition untouched :: "'n service \<Rightarrow> 'n service \<Rightarrow> bool" where
  "untouched w w' \<longleftrightarrow> w_member w' = w_member w \<and> w_funding w' = w_funding w \<and>
     w_rebalance w' = w_rebalance w \<and> w_proj w' = w_proj w \<and> w_ids w' = w_ids w \<and>
     w_clock w' = w_clock w \<and> w_idn w \<le> w_idn w' \<and>
     x_ledger (w_ext w') = x_ledger (w_ext w) \<and> x_audit (w_ext w') = x_audit (w_ext w)"

lemma untouched_trans: "untouched u v \<Longrightarrow> untouched v w \<Longrightarrow> untouched u w"
  by (auto simp: untouched_def)

text \<open>
  The outbox in order: consistent, and every entry marked as emitted is in both the ledger and
  the audit log. \<open>tidy\<close> steps keep it so.
\<close>

definition posted :: "'n service \<Rightarrow> bool" where
  "posted w \<longleftrightarrow> outbox_ok w \<and>
     (\<forall>e \<in> set (ot_rows (w_outbox w)). is_pending e \<or> in_ledger w (oe_DedupKey e) \<and> in_audit w (oe_DedupKey e))"

definition tidy :: "'n service \<Rightarrow> 'n service \<Rightarrow> bool" where
  "tidy w w' \<longleftrightarrow> (posted w \<longrightarrow> posted w')"

lemma tidy_trans: "tidy u v \<Longrightarrow> tidy v w \<Longrightarrow> tidy u w"
  by (simp add: tidy_def)

lemma tidy_same: "untouched w w' \<Longrightarrow> w_outbox w' = w_outbox w \<Longrightarrow> tidy w w'"
  using outbox_ok_frame [of w w'] by (simp add: tidy_def posted_def untouched_def)

lemma tidy_event: "tidy w (app_event (dev_services dec mar unm) agg ev uid p w)"
proof -
  let ?e = "\<lparr>oe_ID = [], oe_Aggregate = agg, oe_EventType = ev, oe_DedupKey = Key agg ev uid,
      oe_Payload = mar (p\<lparr>pl_Aggregate := agg, pl_EventType := ev\<rparr>), oe_CreatedAt = zero_time,
      oe_EmittedAt = zero_time\<rparr>"
  have e: "app_event (dev_services dec mar unm) agg ev uid p w = snd (Append (W_outbox dec) ?e w)"
    by (simp add: app_event_dev W_outbox_simps Let_def)
  have "set (ot_rows (w_outbox (snd (Append (W_outbox dec) ?e w)))) \<subseteq>
      set (ot_rows (w_outbox w)) \<union> {x. is_pending x}"
    by (auto simp: W_outbox_simps Let_def ob_Append_def IsZero_def)
  moreover have "w_ext (snd (Append (W_outbox dec) ?e w)) = w_ext w" by (simp add: W_outbox_simps Let_def)
  ultimately show ?thesis using outbox_ok_append [of w dec ?e] unfolding e by (auto simp: tidy_def posted_def)
qed

text \<open>The keys ever claimed, and what an order owes to the batch and the venue.\<close>

abbreviation known_keys :: "'x world \<Rightarrow> string set" where
  "known_keys w \<equiv> dom (ms_seen (w_idem w))"

definition order_view :: "AggregateOrder \<Rightarrow> uuid \<times> decimal \<times> decimal" where
  "order_view r = (o_BatchID r, o_NotionalUSD r, o_TotalFilled r)"

lemma order_view_settled [simp]: "order_view (settled_order t h r) = order_view r"
  by (simp add: order_view_def)

lemma map_update_same: "i < length xs \<Longrightarrow> f y = f (xs ! i) \<Longrightarrow> map f (xs[i := y]) = map f xs"
  by (metis list_update_id map_update)

lemma known_keys_claim: "dom (ms_seen (snd (ms_CheckAndMark now k ttl m))) = insert k (dom (ms_seen m))"
  by (auto simp: ms_CheckAndMark_def split: option.splits if_splits)

lemma app_event_more [simp]:
  "w_ids (app_event (dev_services dec mar unm) agg ev uid p w) = w_ids w"
  "w_idn (app_event (dev_services dec mar unm) agg ev uid p w) = Suc (w_idn w)"
  "w_rebalance (app_event (dev_services dec mar unm) agg ev uid p w) = w_rebalance w"
  "w_proj (app_event (dev_services dec mar unm) agg ev uid p w) = w_proj w"
  by (simp_all add: app_event_dev)

lemma untouched_steps [simp]:
  "untouched w (Metric (world_rt dec) x v) = untouched w v"
  "untouched w (put_order t v) = untouched w v" "untouched w (put_float f v) = untouched w v"
  by (simp_all add: untouched_def)

lemma slippage_untouched [simp]:
  "untouched w (observe_slippage (world_rt dec) d b fill v) = untouched w v"
  by (auto simp: observe_slippage_def Let_def untouched_def split: option.split)

section \<open>The float and hedge stages\<close>

lemma float_any:
  assumes "\<And>t. w_order t = w_order w \<Longrightarrow> ord t = r"
    and w': "w' = snd (float_OnAggregateFill (world_rt dec) (app_float cfg (dev_services dec mar unm)) b ord fiat asset w)"
  shows "w_batch w' = w_batch w" "w_order w' = w_order w" "w_idem w' = w_idem w" "w_ext w' = w_ext w"
    "short_of c (w_float w') = short_of c (w_float w) + (if c = fiat then o_NotionalUSD r else 0)"
    "seen_event w' k \<longleftrightarrow> k = Key AggFloat EvFloatAdjust (b_ID b) \<or> seen_event w k" "untouched w w'" "tidy w w'"
proof -
  show "w_batch w' = w_batch w" "w_order w' = w_order w" "w_idem w' = w_idem w" "w_ext w' = w_ext w"
    "short_of c (w_float w') = short_of c (w_float w) + (if c = fiat then o_NotionalUSD r else 0)"
    "seen_event w' k \<longleftrightarrow> k = Key AggFloat EvFloatAdjust (b_ID b) \<or> seen_event w k" "untouched w w'"
    using assms
    by (simp_all add: float_OnAggregateFill_def dev_components W_simps Let_def enforceBounds_quiet onAdjust_def
        mf_AddFloat_short fill_position_def untouched_def)
  define v where "v = snd (AddFloat (W_float dec) (fill_position cfg (w_clock w (w_reads w)) b r fiat asset)
    (w\<lparr>w_reads := Suc (w_reads w)\<rparr>))"
  have v: "untouched w v" "w_outbox v = w_outbox w" by (simp_all add: v_def W_float_simps Let_def untouched_def)
  obtain ms where "w' = (onAdjust (dev_services dec mar unm) fiat (o_NotionalUSD r) (b_ID b) v)\<lparr>w_metrics := ms\<rparr>"
    using assms by (simp add: float_OnAggregateFill_def dev_components W_simps Let_def enforceBounds_quiet v_def)
  moreover have "tidy u (u\<lparr>w_metrics := ms\<rparr>)" for u
    by (rule tidy_same) (simp_all add: untouched_def)
  ultimately show "tidy w w'"
    using tidy_trans [OF tidy_same [OF v] tidy_trans [OF tidy_event]] unfolding onAdjust_def by metis
qed

lemma settle_views:
  "map order_view (snd (mo_SettleOrder t uid h rows)) = map order_view rows"
  by (auto simp: mo_SettleOrder_def map_update_same split: option.split dest: first_ix_SomeD)

lemma hedge_any:
  assumes w': "w' = snd (hedge_OnAggregateFill (world_rt dec) (app_hedger (dev_services dec mar unm)) b ord fiat w)"
  shows "w_batch w' = w_batch w" "w_float w' = w_float w" "w_outbox w' = w_outbox w"
    "liq_calls w' = liq_calls w" "map order_view (w_order w') = map order_view (w_order w)"
    "known_keys w' = insert (hedge_key (b_ID b)) (known_keys w)" "untouched w w'" "tidy w w'"
proof -
  note keys = known_keys_claim [of "w_clock w (w_reads w)" "hedge_key (b_ID b)" "24 * hour" "w_idem w"]
  show o: "w_outbox w' = w_outbox w" and u: "untouched w w'"
    and "w_batch w' = w_batch w" "w_float w' = w_float w"
    "liq_calls w' = liq_calls w" "map order_view (w_order w') = map order_view (w_order w)"
    "known_keys w' = insert (hedge_key (b_ID b)) (known_keys w)"
    using keys
    by (simp_all add: w' hedge_OnAggregateFill_def dev_components W_simps Let_def devFX_def fakeFX_def in_slot_def
        case_prod_beta settle_views untouched_def split: sum.split)
  show "tidy w w'" by (rule tidy_same [OF u o])
qed

text \<open>A row found by its identifier, and the same row after a change that keeps identifiers.\<close>

abbreviation batch_at :: "uuid \<Rightarrow> BatchTable \<Rightarrow> nat \<Rightarrow> Batch \<Rightarrow> bool" where
  "batch_at uid rows j b \<equiv> first_ix (\<lambda>x. b_ID x = uid) rows = Some j \<and> rows ! j = b"

lemma batch_at_map: "batch_at uid rows j b \<Longrightarrow> batch_map rows uid = Some b \<and> b_ID b = uid \<and> j < length rows"
  using first_ix_SomeD [of "\<lambda>x. b_ID x = uid" rows j] by (auto simp: rowmap_def)

lemma batch_at_update:
  "batch_at uid rows j b \<Longrightarrow> b_ID b' = uid \<Longrightarrow> batch_at uid (rows[j := b']) j b'"
  using first_ix_SomeD [of "\<lambda>x. b_ID x = uid" rows j] by (simp add: first_ix_update)

lemma update_at:
  assumes "batch_at uid rows j b" and "b_Status b = from" and "CanTransitionTo from to"
  shows "mb_UpdateBatchStatus now uid from to mu rows =
    (Inr (Some (transitioned now to mu b)), rows[j := transitioned now to mu b])"
  using assms batch_at_map [OF assms(1)] by (auto simp: mb_UpdateBatchStatus_map)

lemma transitioned_None: "to \<noteq> BatchClosed \<Longrightarrow> transitioned now to None b = b\<lparr>b_Status := to\<rparr>"
  by (simp add: transitioned_def)

lemma fill_any:
  assumes ord: "\<And>t. ord t = w_order t ! i" and i: "i < length (w_order w)"
    and b1: "batch_at (b_ID b) (w_batch w) j b1" "b_Status b1 = BatchExecuting"
    and w': "w' = onFill (world_rt dec) cfg (dev_services dec mar unm) b ord w"
  shows "w_batch w' = (w_batch w)[j := b1\<lparr>b_Status := BatchSettled\<rparr>]"
    "map order_view (w_order w') = map order_view (w_order w)"
    "short_of c (w_float w') = short_of c (w_float w) +
       (if c = fiatOf (b_AssetPair b) then o_NotionalUSD (w_order w ! i) else 0)"
    "seen_event w' k \<longleftrightarrow> k = Key AggFloat EvFloatAdjust (b_ID b) \<or>
       k = Key AggAggregate EvAggregateExec (b_ID b) \<or> seen_event w k"
    "liq_calls w' = liq_calls w" "known_keys w' = insert (hedge_key (b_ID b)) (known_keys w)"
    "untouched w w'" "tidy w w'"
proof -
  let ?S = "dev_services dec mar unm" and ?fiat = "fiatOf (b_AssetPair b)"
  define w1 where "w1 = snd (float_OnAggregateFill (world_rt dec) (app_float cfg ?S) b ord ?fiat (cryptoOf (b_AssetPair b)) w)"
  define w2 where "w2 = snd (hedge_OnAggregateFill (world_rt dec) (app_hedger ?S) b ord ?fiat w1)"
  have ordr: "w_order t = w_order w \<Longrightarrow> ord t = w_order w ! i" for t using ord by simp
  note f = float_any [OF ordr w1_def] and h = hedge_any [OF w2_def]
  let ?t = "w_clock w2 (w_reads w2)"
  let ?w3 = "w2\<lparr>w_reads := Suc (w_reads w2),
      w_batch := snd (mb_UpdateBatchStatus ?t (b_ID b) BatchExecuting BatchSettled None (w_batch w2))\<rparr>"
  have w3: "w' = app_event ?S AggAggregate EvAggregateExec (b_ID b)
      (no_payload\<lparr>pl_BatchID := b_ID b, pl_NotionalUSD := o_NotionalUSD (ord ?w3),
         pl_Asset := cryptoOf (b_AssetPair b), pl_FiatCurrency := ?fiat\<rparr>) ?w3"
    unfolding w' onFill_def w2_def w1_def
    by (simp add: Let_def case_prod_beta) (simp add: dev_services_def W_simps Let_def)
  have b2: "batch_at (b_ID b) (w_batch w2) j b1" using b1(1) f(1) h(1) by simp
  show "w_batch w' = (w_batch w)[j := b1\<lparr>b_Status := BatchSettled\<rparr>]"
    using update_at [OF b2 b1(2)] f(1) h(1) by (simp add: w3 transitioned_None)
  show "map order_view (w_order w') = map order_view (w_order w)" using h(5) f(2) by (simp add: w3)
  show "short_of c (w_float w') = short_of c (w_float w) +
       (if c = fiatOf (b_AssetPair b) then o_NotionalUSD (w_order w ! i) else 0)"
    using f(5) h(2) by (simp add: w3)
  show "seen_event w' k \<longleftrightarrow> k = Key AggFloat EvFloatAdjust (b_ID b) \<or>
       k = Key AggAggregate EvAggregateExec (b_ID b) \<or> seen_event w k"
    using f(6) h(3) by (auto simp: w3)
  show "liq_calls w' = liq_calls w" "known_keys w' = insert (hedge_key (b_ID b)) (known_keys w)"
    using f(3,4) h(4,6) by (simp_all add: w3)
  have "untouched w2 w'" by (simp add: w3 untouched_def)
  with f(7) h(7) show "untouched w w'" by (blast intro: untouched_trans)
  have "tidy w2 ?w3" by (rule tidy_same) (simp_all add: untouched_def)
  then have "tidy w2 w'" unfolding w3 by (rule tidy_trans [OF _ tidy_event])
  with f(8) h(8) show "tidy w w'" by (blast intro: tidy_trans)
qed

section \<open>The submission stage\<close>

text \<open>
  The first submission of a closed batch: its order is appended, its request sent, and the
  batch is executing; a fill settles it and grows the float, a refusal leaves it there.
\<close>

lemma submit_any:
  assumes b: "batch_at uid (w_batch w) j b" "b_Status b = BatchClosed"
    and none: "order_map (w_order w) uid = None" and key: "agg_key uid \<notin> known_keys w"
    and w': "w' = snd (SubmitBatch (world_rt dec) (app_executor (world_rt dec) cfg (dev_services dec mar unm)) uid w)"
  shows "\<exists>st tf. st \<in> {BatchExecuting, BatchSettled} \<and> w_batch w' = (w_batch w)[j := b\<lparr>b_Status := st\<rparr>] \<and>
    map order_view (w_order w') = map order_view (w_order w) @ [(uid, b_NotionalUSD b, tf)] \<and>
    liq_calls w' = liq_calls w @ [parent_request b] \<and>
    (\<forall>c. short_of c (w_float w') = short_of c (w_float w) +
       (if st = BatchSettled \<and> c = fiatOf (b_AssetPair b) then b_NotionalUSD b else 0)) \<and>
    (\<forall>k. seen_event w' k \<longleftrightarrow> st = BatchSettled \<and> (k = Key AggFloat EvFloatAdjust uid \<or>
       k = Key AggAggregate EvAggregateExec uid) \<or> seen_event w k) \<and>
    known_keys w' \<subseteq> insert (agg_key uid) (insert (hedge_key uid) (known_keys w)) \<and> untouched w w' \<and> tidy w w'"
proof -
  let ?S = "dev_services dec mar unm" and ?i = "length (w_order w)"
  let ?d = "app_executor (world_rt dec) cfg ?S"
  have uid: "b_ID b = uid" and bm: "batch_map (w_batch w) uid = Some b" using batch_at_map [OF b(1)] by simp_all
  let ?o = "defaulted_order (w_ids w (w_idn w)) (w_clock w (w_reads w)) (parent_order b)"
  have none': "order_map (w_order w) (o_BatchID (parent_order b)) = None" using none uid by simp
  have oc: "order_created b w = (Alias ?i, w_order w @ [?o])"
    unfolding order_created_def by (rule mo_CreateOrder_new(1) [OF none'])
  have ix: "first_ix (\<lambda>x. o_BatchID x = uid) (w_order w @ [?o]) = Some ?i"
    using none uid by (auto simp: first_ix_append rowmap_def)
  have bt: "w_batch (prepared b w) = (w_batch w)[j := b\<lparr>b_Status := BatchExecuting\<rparr>]"
    using update_at [OF b, of BatchExecuting] uid by (simp add: prepared_def transitioned_None)
  have unt: "untouched w (prepared b w)" by (simp add: prepared_def with_order_def untouched_def)
  obtain m where m: "ms_CheckAndMark (w_clock w (Suc (Suc (w_reads w)))) (agg_key uid) (24 * hour) (w_idem w) = (True, m)"
      "dom (ms_seen m) = insert (agg_key uid) (known_keys w)"
    using key known_keys_claim [of "w_clock w (Suc (Suc (w_reads w)))" "agg_key uid" "24 * hour" "w_idem w"]
    by (auto simp: ms_CheckAndMark_def domIff)
  define x where "x = snd (FakeLiquidity_SubmitAggregate (parent_request b) (agg_key uid) (x_liq (w_ext w)))"
  have x: "fk_calls x = liq_calls w @ [parent_request b]"
    by (simp add: x_def FakeLiquidity_SubmitAggregate_def case_prod_beta split: sum.split)
  define u where "u = in_ext (x_liq_update (\<lambda>_. x)) (put_idem m ((prepared b w)\<lparr>w_reads := Suc (Suc (Suc (w_reads w)))\<rparr>))"
  have u: "w_batch u = w_batch (prepared b w)" "w_order u = w_order w @ [?o]" "w_float u = w_float w"
      "w_outbox u = w_outbox w" "liq_calls u = liq_calls w @ [parent_request b]" "w_idem u = m" "untouched w u"
    using unt by (simp_all add: u_def oc x untouched_def)
  have sub: "SubmitBatch (world_rt dec) ?d uid w = claim_and_submit (world_rt dec) ?d b (prepared b w)"
    using bm b(2) oc by (simp add: dev_components SubmitBatch_world)
  show ?thesis
  proof (cases "fst (FakeLiquidity_SubmitAggregate (parent_request b) (agg_key uid) (x_liq (w_ext w)))")
    case (Inl e)
    then have "claim_and_submit (world_rt dec) ?d b (prepared b w) = (Inl e, u)"
      using m(1) uid
      by (simp add: claim_and_submit_def dev_components W_simps Let_def devLiquidity_def fakeLiquidity_def
          in_slot_def case_prod_beta x_def u_def)
    then have "w' = u" by (simp add: w' sub)
    moreover have "tidy w u" by (rule tidy_same [OF u(7,4)])
    ultimately show ?thesis
      using u bt m(2) by (intro exI [of _ BatchExecuting] exI [of _ "o_TotalFilled ?o"]) (auto simp: order_view_def uid)
  next
    case (Inr fill)
    let ?row = "filled_order (fill_FillPrice fill) (fill_TotalFilled fill) (fill_VenueRoutes fill) ?o"
    define v where "v = observe_slippage (world_rt dec) ?d b fill (put_order (w_order w @ [?row]) u)"
    have "claim_and_submit (world_rt dec) ?d b (prepared b w) =
        (Inr (\<lambda>t. w_order t ! ?i), onFill (world_rt dec) cfg ?S b (\<lambda>t. w_order t ! ?i) v)"
      using m(1) Inr oc ix uid
      by (simp add: claim_and_submit_def dev_components W_simps Let_def devLiquidity_def fakeLiquidity_def
          in_slot_def case_prod_beta mo_UpdateOrderFill_def v_def u_def x_def)
    then have w'': "w' = onFill (world_rt dec) cfg ?S b (\<lambda>t. w_order t ! ?i) v" by (simp add: w' sub)
    have v: "w_batch v = (w_batch w)[j := b\<lparr>b_Status := BatchExecuting\<rparr>]" "w_order v = w_order w @ [?row]"
        "w_float v = w_float w" "w_outbox v = w_outbox w" "liq_calls v = liq_calls w @ [parent_request b]"
        "known_keys v = insert (agg_key uid) (known_keys w)" "untouched w v"
      using u bt m(2) by (simp_all add: v_def)
    have at: "batch_at (b_ID b) (w_batch v) j (b\<lparr>b_Status := BatchExecuting\<rparr>)"
      using batch_at_update [OF b(1), of "b\<lparr>b_Status := BatchExecuting\<rparr>"] uid by (simp add: v(1))
    have len: "?i < length (w_order v)" by (simp add: v(2))
    note f = fill_any [OF refl len at _ w'', simplified]
    show ?thesis
      using f(1-6) untouched_trans [OF v(7) f(7)] tidy_trans [OF tidy_same [OF v(7,4)] f(8)] batch_at_map [OF b(1)]
      by (intro exI [of _ BatchSettled] exI [of _ "fill_TotalFilled fill"]) (auto simp: v uid order_view_def nth_append)
  qed
qed

section \<open>The close\<close>

text \<open>A batch that is not open: an error, and nothing changes.\<close>

lemma close_refused:
  assumes "\<And>b. batch_map (w_batch w) uid = Some b \<Longrightarrow> b_Status b \<noteq> BatchOpen"
  shows "snd (close_batch (world_rt dec) (app_scheduler (world_rt dec) cfg (dev_services dec mar unm)) uid reason w) = w"
  using assms by (auto simp: close_batch_def dev_components W_simps mb_GetBatch_map split: option.split)

text \<open>An open batch, in every case: its row, its order, its request, its float, its events.\<close>

lemma close_any:
  assumes b: "batch_at uid (w_batch w) j b" "b_Status b = BatchOpen"
    and n: "n = notional_of uid (mt_rows (w_member w))"
    and none: "order_map (w_order w) uid = None" and key: "agg_key uid \<notin> known_keys w"
    and w': "w' = snd (close_batch (world_rt dec) (app_scheduler (world_rt dec) cfg (dev_services dec mar unm)) uid reason w)"
  shows "\<exists>b' tf. b_Status b' \<in> {BatchExecuting, BatchSettled} \<and> w_batch w' = (w_batch w)[j := b'] \<and>
    b_ID b' = uid \<and> b_AssetPair b' = b_AssetPair b \<and> b_NotionalUSD b' = n \<and>
    map order_view (w_order w') = map order_view (w_order w) @ [(uid, n, tf)] \<and>
    liq_calls w' = liq_calls w @ [parent_request b'] \<and>
    (\<forall>c. short_of c (w_float w') = short_of c (w_float w) +
       (if b_Status b' = BatchSettled \<and> c = fiatOf (b_AssetPair b) then n else 0)) \<and>
    (\<forall>k. seen_event w' k \<longleftrightarrow> k = Key AggBatch EvBatchClose uid \<or>
       b_Status b' = BatchSettled \<and> (k = Key AggFloat EvFloatAdjust uid \<or>
       k = Key AggAggregate EvAggregateExec uid) \<or> seen_event w k) \<and>
    known_keys w' \<subseteq> insert (agg_key uid) (insert (hedge_key uid) (known_keys w)) \<and> untouched w w' \<and> tidy w w'"
proof -
  let ?S = "dev_services dec mar unm" and ?t = "w_clock w (w_reads w)"
  let ?bc = "transitioned ?t BatchClosed (Some (set_notional n)) b"
  have uid: "b_ID b = uid" and bm: "batch_map (w_batch w) uid = Some b" using batch_at_map [OF b(1)] by simp_all
  have up: "mb_UpdateBatchStatus t uid BatchOpen BatchClosed mu (w_batch w) =
      (Inr (Some (transitioned t BatchClosed mu b)), (w_batch w)[j := transitioned t BatchClosed mu b])" for t mu
    using update_at [OF b, of BatchClosed] by simp
  define s4 where "s4 = Metric (world_rt dec) (BatchesClosed (b_AssetPair b) (CloseReason_str reason))
      (w\<lparr>w_reads := Suc (w_reads w), w_batch := (w_batch w)[j := ?bc]\<rparr>)"
  define v where "v = Metric (world_rt dec)
      (CloseLatency (b_AssetPair b) (Since (fst (Now (world_rt dec) s4)) (b_OpenedAt ?bc))) (snd (Now (world_rt dec) s4))"
  define u where "u = app_event ?S AggBatch EvBatchClose uid
      (no_payload\<lparr>pl_BatchID := uid, pl_NotionalUSD := n\<rparr>) v"
  have bc: "b_ID ?bc = uid" "b_Status ?bc = BatchClosed" "b_NotionalUSD ?bc = n" "b_AssetPair ?bc = b_AssetPair b"
    using uid by (simp_all add: transitioned_notional)
  have "w' = onClose (world_rt dec) cfg ?S ?bc reason v"
    using bm b(2) by (simp add: w' close_batch_def dev_components W_simps mb_GetBatch_map mm_SumNotional_eq
        value_or_zero_def Let_def up n [symmetric] v_def s4_def)
  then have w'': "w' = snd (SubmitBatch (world_rt dec) (app_executor (world_rt dec) cfg ?S) uid u)"
    using bc by (simp add: onClose_def u_def)
  have v: "w_batch v = (w_batch w)[j := ?bc]" "w_order v = w_order w" "w_float v = w_float w"
      "w_outbox v = w_outbox w" "w_idem v = w_idem w" "w_ext v = w_ext w" "untouched w v"
    by (simp_all add: v_def s4_def untouched_def)
  then have u: "w_batch u = (w_batch w)[j := ?bc]" "w_order u = w_order w" "w_float u = w_float w"
      "seen_event u k \<longleftrightarrow> k = Key AggBatch EvBatchClose uid \<or> seen_event w k"
      "w_idem u = w_idem w" "w_ext u = w_ext w" "untouched w u" for k
    by (simp_all add: u_def untouched_def)
  have at: "batch_at uid (w_batch u) j ?bc" using batch_at_update [OF b(1) bc(1)] by (simp add: u(1))
  have "order_map (w_order u) uid = None" "agg_key uid \<notin> known_keys u" using none key u by simp_all
  from submit_any [OF at bc(2) this w'']
  obtain st tf where st: "st \<in> {BatchExecuting, BatchSettled}"
    "w_batch w' = (w_batch w)[j := ?bc\<lparr>b_Status := st\<rparr>]"
    "map order_view (w_order w') = map order_view (w_order w) @ [(uid, n, tf)]"
    "liq_calls w' = liq_calls w @ [parent_request ?bc]"
    "\<forall>c. short_of c (w_float w') = short_of c (w_float w) +
       (if st = BatchSettled \<and> c = fiatOf (b_AssetPair b) then n else 0)"
    "\<forall>k. seen_event w' k \<longleftrightarrow> st = BatchSettled \<and> (k = Key AggFloat EvFloatAdjust uid \<or>
       k = Key AggAggregate EvAggregateExec uid) \<or> k = Key AggBatch EvBatchClose uid \<or> seen_event w k"
    "known_keys w' \<subseteq> insert (agg_key uid) (insert (hedge_key uid) (known_keys w))" "untouched u w'" "tidy u w'"
    unfolding u(1-6) bc list_update_overwrite by blast
  have "untouched w w'" using u(7) st(8) by (rule untouched_trans)
  moreover have "tidy w u" unfolding u_def by (rule tidy_trans [OF tidy_same [OF v(7,4)] tidy_event])
  then have "tidy w w'" using st(9) by (rule tidy_trans)
  ultimately show ?thesis
    using st bc by (intro exI [of _ "?bc\<lparr>b_Status := st\<rparr>"] exI [of _ tf]) (auto simp: parent_request_def)
qed

text \<open>The fill hook of the application sends no request and leaves the submission keys alone.\<close>

lemma onFill_ok: "fill_hook_ok (Some (onFill (world_rt dec) cfg (dev_services dec mar unm)))"
proof -
  let ?S = "dev_services dec mar unm"
  have fl: "liq_calls w' = liq_calls w \<and> w_clock w' = w_clock w \<and> w_idem w' = w_idem w"
    if "w' = snd (float_OnAggregateFill (world_rt dec) (app_float cfg ?S) b ord fiat asset w)" for w w' b ord fiat asset
    using that
    by (simp add: float_OnAggregateFill_def dev_components W_simps Let_def enforceBounds_quiet onAdjust_def)
  have he: "liq_calls w' = liq_calls w \<and> w_clock w' = w_clock w \<and>
      seen_key w' (agg_key uid) = seen_key w (agg_key uid)"
    if "w' = snd (hedge_OnAggregateFill (world_rt dec) (app_hedger ?S) b ord fiat w)" for w w' b ord fiat uid
  proof -
    have "agg_key uid \<noteq> hedge_key (b_ID b)" by (simp add: agg_key_def hedge_key_def)
    with that hedge_any(4,7) [OF that] show ?thesis
      by (simp add: hedge_OnAggregateFill_def dev_components W_simps Let_def devFX_def fakeFX_def in_slot_def
          case_prod_beta ms_CheckAndMark_def split: sum.split option.split)
  qed
  have "liq_calls (onFill (world_rt dec) cfg ?S b ord w) = liq_calls w \<and>
      w_clock (onFill (world_rt dec) cfg ?S b ord w) = w_clock w \<and>
      seen_key (onFill (world_rt dec) cfg ?S b ord w) (agg_key uid) = seen_key w (agg_key uid)" for b ord w uid
    using he [OF refl, of b ord "fiatOf (b_AssetPair b)"
        "snd (float_OnAggregateFill (world_rt dec) (app_float cfg ?S) b ord (fiatOf (b_AssetPair b)) (cryptoOf (b_AssetPair b)) w)" uid]
      fl [OF refl, of b ord "fiatOf (b_AssetPair b)" "cryptoOf (b_AssetPair b)" w]
    unfolding onFill_def
    by (simp add: Let_def case_prod_beta) (simp add: dev_services_def W_batch_simps Let_def)
  then show ?thesis by (auto simp: fill_hook_ok_def)
qed

end
