(* ===== verification/Lifecycle.thy ===== *)
theory Lifecycle
  imports Stages
begin

text \<open>
  The service as a transition system: its steps are the operations the loops, the HTTP routes
  and the bus perform, in any order, with the downstream services answering anything. The
  invariant of the reachable states (\<open>books\<close>) is the reconciliation of the service's books:
  the batches, the members, the parent orders, the requests sent to liquidity-routing, the
  float and the recorded events all tell the same story.
\<close>

section \<open>Quiet steps\<close>

text \<open>
  The transactions that have been claimed, the batches whose submission or hedge has been
  claimed, and the events of a batch.
\<close>

definition claimed_txs :: "'x world \<Rightarrow> string set" where
  "claimed_txs w = {tx. ''tx:'' @ tx \<in> known_keys w}"

definition claimed_batches :: "'x world \<Rightarrow> uuid set" where
  "claimed_batches w = {uid. agg_key uid \<in> known_keys w \<or> hedge_key uid \<in> known_keys w}"

definition batch_events :: "'x world \<Rightarrow> uuid \<Rightarrow> bool \<times> bool \<times> bool \<times> bool" where
  "batch_events w = (\<lambda>uid.
     (seen_event w (Key AggBatch EvBatchOpen uid), seen_event w (Key AggBatch EvBatchClose uid),
      seen_event w (Key AggFloat EvFloatAdjust uid), seen_event w (Key AggAggregate EvAggregateExec uid)))"

text \<open>
  A calm step concerns no batch: the books it leaves are the books it found. A quiet step is a
  calm one that claims no transaction either.
\<close>

definition calm :: "'n service \<Rightarrow> 'n service \<Rightarrow> bool" where
  "calm w w' \<longleftrightarrow> w_batch w' = w_batch w \<and> w_member w' = w_member w \<and> w_order w' = w_order w \<and>
     liq_calls w' = liq_calls w \<and> (\<forall>c. short_of c (w_float w') = short_of c (w_float w)) \<and>
     w_ids w' = w_ids w \<and> w_clock w' = w_clock w \<and> w_idn w \<le> w_idn w' \<and>
     claimed_batches w' = claimed_batches w \<and> batch_events w' = batch_events w \<and> tidy w w'"

definition quiet :: "'n service \<Rightarrow> 'n service \<Rightarrow> bool" where
  "quiet w w' \<longleftrightarrow> calm w w' \<and> claimed_txs w' = claimed_txs w"

lemma quiet_refl [simp]: "quiet w w"
  by (simp add: quiet_def calm_def tidy_def)

lemma quiet_trans [trans]: "quiet u v \<Longrightarrow> quiet v w \<Longrightarrow> quiet u w"
  by (auto simp: quiet_def calm_def tidy_def)

lemma quiet_calm: "quiet w w' \<Longrightarrow> calm w w'"
  by (simp add: quiet_def)

lemma tidy_frame:
  assumes "w_outbox w' = w_outbox w" "w_ids w' = w_ids w" "w_clock w' = w_clock w" "w_idn w \<le> w_idn w'"
    "\<And>k. in_ledger w k \<Longrightarrow> in_ledger w' k" "\<And>k. in_audit w k \<Longrightarrow> in_audit w' k"
  shows "tidy w w'"
  using outbox_ok_frame [of w w'] assms by (auto simp: tidy_def posted_def)

lemma quietI:
  assumes "w_batch w' = w_batch w" "w_member w' = w_member w" "w_order w' = w_order w"
    "liq_calls w' = liq_calls w" "w_ids w' = w_ids w" "w_clock w' = w_clock w" "w_idn w \<le> w_idn w'"
    "\<And>c. short_of c (w_float w') = short_of c (w_float w)"
    "known_keys w' = known_keys w" "w_outbox w' = w_outbox w"
    "\<And>k. in_ledger w k \<Longrightarrow> in_ledger w' k" "\<And>k. in_audit w k \<Longrightarrow> in_audit w' k"
  shows "quiet w w'"
  using assms tidy_frame [of w' w] by (simp add: quiet_def calm_def claimed_txs_def claimed_batches_def batch_events_def)

text \<open>Keys of other components never clash with those of a batch.\<close>

lemma calm_claim:
  assumes "k = ''tx:'' @ x \<or> k = ''cadence:'' @ x \<or> k = ''fund:'' @ x \<or> k = ''rebal:'' @ x"
  shows "calm w (snd (CheckAndMark (W_idem dec) k ttl w))"
proof -
  have "agg_key uid \<noteq> k \<and> hedge_key uid \<noteq> k" for uid
    using assms by (elim disjE) (simp_all add: agg_key_def hedge_key_def)
  moreover have "tidy w (snd (CheckAndMark (W_idem dec) k ttl w))"
    by (rule tidy_frame) (simp_all add: W_idem_simps Let_def)
  ultimately show ?thesis
    by (auto simp: calm_def claimed_batches_def batch_events_def W_idem_simps Let_def known_keys_claim)
qed

lemma quiet_claim:
  assumes "k = ''cadence:'' @ x \<or> k = ''fund:'' @ x \<or> k = ''rebal:'' @ x"
  shows "quiet w (snd (CheckAndMark (W_idem dec) k ttl w))"
proof -
  have "''tx:'' @ tx \<noteq> k" for tx using assms by (elim disjE) simp_all
  then have "claimed_txs (snd (CheckAndMark (W_idem dec) k ttl w)) = claimed_txs w"
    by (auto simp: claimed_txs_def W_idem_simps Let_def known_keys_claim)
  then show ?thesis using calm_claim [of k x w dec ttl] assms unfolding quiet_def by blast
qed

lemma quiet_event:
  assumes "(agg, ev) \<in> {(AggFunding, EvFunding), (AggRebalance, EvRebalance)}"
  shows "quiet w (app_event (dev_services dec mar unm) agg ev uid p w)"
proof -
  have "(agg, ev) \<in> event_kinds" using assms by (auto simp: event_kinds_def)
  then have "Key AggBatch EvBatchOpen u \<noteq> Key agg ev uid" "Key AggBatch EvBatchClose u \<noteq> Key agg ev uid"
    "Key AggFloat EvFloatAdjust u \<noteq> Key agg ev uid" "Key AggAggregate EvAggregateExec u \<noteq> Key agg ev uid" for u
    using assms by (auto simp: Key_inject event_kinds_def event_names)
  then show ?thesis by (auto simp: quiet_def calm_def claimed_txs_def claimed_batches_def batch_events_def tidy_event)
qed

lemma quiet_fields [simp]:
  "quiet w (w\<lparr>w_metrics := ms\<rparr>)" "quiet w (w\<lparr>w_reads := n\<rparr>)" "quiet w (Metric (world_rt dec) x w)"
  "quiet w (put_funding fs w)" "quiet w (put_rebalance js w)"
  "quiet w (w\<lparr>w_reads := n, w_funding := fs\<rparr>)" "quiet w (w\<lparr>w_reads := n, w_rebalance := js\<rparr>)"
  by (auto intro: quietI)

section \<open>The quiet operations\<close>

lemma shouldClose_quiet: "quiet w (snd (shouldClose (world_rt dec) (W_sched cfg dec ttl hook) b w))"
  by (simp add: shouldClose_world Let_def)

lemma acquire_quiet: "quiet w (snd (Acquire (NewCadenceLock (W_idem dec) ttl) p w))"
  using quiet_claim [of "''cadence:'' @ p"] by (auto simp: Acquire_def NewCadenceLock_def)

lemma seen_mark [simp]: "ot_seen (snd (ob_MarkEmitted now uid s)) = ot_seen s"
  by (auto simp: ob_MarkEmitted_def split: option.split)

text \<open>
  The dispatcher marks an entry only after both downstreams have accepted it. The entries it
  works on are a snapshot; their identifiers and keys are still those of the table.
\<close>

abbreviation entry_names :: "'x world \<Rightarrow> (uuid \<times> string) set" where
  "entry_names w \<equiv> (\<lambda>e. (oe_ID e, oe_DedupKey e)) ` set (ot_rows (w_outbox w))"

lemma mark_names: "map (\<lambda>e. (oe_ID e, oe_DedupKey e)) (ot_rows (snd (ob_MarkEmitted now uid s))) =
    map (\<lambda>e. (oe_ID e, oe_DedupKey e)) (ot_rows s)"
  by (auto simp: ob_MarkEmitted_def map_update_same split: option.split dest: first_ix_SomeD)

lemma mark_tidy:
  assumes "(uid, k) \<in> entry_names w" and "in_ledger w k" and "in_audit w k"
  shows "tidy w (snd (MarkEmitted (W_outbox dec) uid w))"
  unfolding tidy_def
proof
  assume w: "posted w"
  let ?w = "snd (MarkEmitted (W_outbox dec) uid w)" and ?rows = "ot_rows (w_outbox w)"
  have ids: "distinct (map oe_ID ?rows)" using w by (simp add: posted_def outbox_ok_def outbox_inv_def)
  from assms(1) obtain e where e: "e \<in> set ?rows" "oe_ID e = uid" "oe_DedupKey e = k" by auto
  have "first_ix (\<lambda>r. oe_ID r = uid) ?rows \<noteq> None" using e by (auto simp: first_ix_None)
  then obtain i where i: "first_ix (\<lambda>r. oe_ID r = uid) ?rows = Some i" by blast
  have at: "i < length ?rows" "oe_ID (?rows ! i) = uid" using first_ix_SomeD [OF i] by simp_all
  have "?rows ! i = e" using ids at e(1,2) by (metis distinct_map inj_onD nth_mem)
  then have "ot_rows (w_outbox ?w) = ?rows[i := e\<lparr>oe_EmittedAt := w_clock w (w_reads w)\<rparr>]"
    using i by (simp add: W_outbox_simps Let_def ob_MarkEmitted_def)
  then have "set (ot_rows (w_outbox ?w)) \<subseteq> insert (e\<lparr>oe_EmittedAt := w_clock w (w_reads w)\<rparr>) (set ?rows)"
    by (simp add: set_update_subset_insert)
  moreover have "w_ext ?w = w_ext w" by (simp add: W_outbox_simps Let_def)
  ultimately show "posted ?w"
    using w outbox_ok_mark [of w dec uid] e(3) assms(2,3) by (auto simp: posted_def)
qed

lemma dispatch_entry_quiet:
  assumes "(oe_ID ent, oe_DedupKey ent) \<in> entry_names w"
    and w': "w' = snd (dispatch_entry (world_rt dec) (app_emitter (dev_services dec mar unm)) ent w)"
  shows "quiet w w' \<and> entry_names w' = entry_names w"
proof -
  let ?d = "W_emit dec mar unm" and ?p = "unm (oe_Payload ent)" and ?k = "oe_DedupKey ent"
  define w1 where "w1 = snd (post_ledger (world_rt dec) ?d ?p ?k w)"
  define w2 where "w2 = snd (emit_audit (world_rt dec) ?d ?p ?k w1)"
  define w3 where "w3 = snd (MarkEmitted (W_outbox dec) (oe_ID ent) w2)"
  have q1: "quiet w w1" by (rule quietI) (simp_all add: w1_def post_ledger_world Let_def fake_call_keys)
  have q2: "quiet w1 w2" by (rule quietI) (simp_all add: w2_def emit_audit_world Let_def fake_call_keys)
  have o: "w_outbox w1 = w_outbox w" "w_outbox w2 = w_outbox w"
    by (simp_all add: w1_def w2_def post_ledger_world emit_audit_world Let_def)
  have w': "w' = (if \<not> fst (post_ledger (world_rt dec) ?d ?p ?k w) then w1
      else if \<not> fst (emit_audit (world_rt dec) ?d ?p ?k w1) then w2 else w3)"
    by (simp add: w' dispatch_entry_def dev_components w1_def w2_def w3_def case_prod_beta Let_def split: sum.split)
  show ?thesis
  proof (cases "fst (post_ledger (world_rt dec) ?d ?p ?k w) \<and> fst (emit_audit (world_rt dec) ?d ?p ?k w1)")
    case False
    then show ?thesis using w' q1 quiet_trans [OF q1 q2] o by (auto split: if_splits)
  next
    case True
    then have "in_ledger w2 ?k" "in_audit w2 ?k"
      using fake_call_keys(2) [of "ledger_post ?p" ?k "x_ledger (w_ext w)"]
        fake_call_keys(2) [of "audit_event ?p" ?k "x_audit (w_ext w1)"]
      by (simp_all add: w1_def w2_def post_ledger_world emit_audit_world Let_def)
    then have "tidy w2 w3" unfolding w3_def using assms(1) o(2) by (intro mark_tidy) simp_all
    then have "quiet w2 w3"
      by (simp add: quiet_def calm_def claimed_txs_def claimed_batches_def batch_events_def w3_def W_outbox_simps Let_def
          seen_mark)
    moreover have "entry_names w3 = entry_names w"
      using mark_names [of "w_clock w2 (w_reads w2)" "oe_ID ent" "w_outbox w"] o(2)
      by (simp add: w3_def W_outbox_simps Let_def flip: set_map)
    ultimately show ?thesis using True w' quiet_trans [OF quiet_trans [OF q1 q2]] by simp
  qed
qed

lemma pending_loop_subset: "set (ob_pending_loop rows n out) \<subseteq> set out \<union> set rows"
  by (induction rows n out rule: ob_pending_loop.induct) (auto simp: Let_def)

lemma dispatch_quiet:
  "quiet w (snd (Dispatch (world_rt dec) (app_emitter (dev_services dec mar unm)) limit w))"
proof -
  let ?d = "app_emitter (dev_services dec mar unm)"
  have loop: "(\<lambda>e. (oe_ID e, oe_DedupKey e)) ` set ents \<subseteq> entry_names w \<Longrightarrow>
      quiet w (snd (dispatch_loop (world_rt dec) ?d ents n w))" for ents n w
  proof (induction ents arbitrary: n w)
    case (Cons e ents)
    have "(oe_ID e, oe_DedupKey e) \<in> entry_names w" using Cons.prems by simp
    from dispatch_entry_quiet [OF this refl, of dec mar unm] Cons.prems
    have "quiet w (snd (dispatch_entry (world_rt dec) ?d e w))"
      "(\<lambda>e. (oe_ID e, oe_DedupKey e)) ` set ents \<subseteq> entry_names (snd (dispatch_entry (world_rt dec) ?d e w))" by simp_all
    with Cons.IH show ?case by (auto simp: Let_def case_prod_beta intro: quiet_trans)
  qed simp
  have "(\<lambda>e. (oe_ID e, oe_DedupKey e)) ` set (ob_ListPending limit (w_outbox w)) \<subseteq> entry_names w"
    unfolding ob_ListPending_def using pending_loop_subset [of "ot_rows (w_outbox w)" limit "[]"] by auto
  from loop [OF this] show ?thesis
    by (simp add: Dispatch_def dev_components W_outbox_simps Let_def case_prod_beta)
qed

lemma settle_float_quiet:
  "quiet w (snd (SettleFloat (W_float dec) uid w))"
  by (rule quietI) (simp_all add: W_simps Let_def mf_SettleFloat_short)

lemma sweep_quiet:
  "quiet w (snd (SweepMatured (world_rt dec) (app_float cfg (dev_services dec mar unm)) w))"
proof -
  let ?d = "app_float cfg (dev_services dec mar unm)"
  have loop: "quiet w (snd (sweep_loop ?d ps n w))" for ps n w
  proof (induction ps arbitrary: n w)
    case (Cons p ps)
    have "quiet w (snd (SettleFloat (fd_Floats ?d) (fp_ID p) w))"
      by (simp add: dev_components settle_float_quiet)
    from quiet_trans [OF this] Cons show ?case by (auto simp: Let_def case_prod_beta split: sum.split)
  qed simp
  have bounds: "quiet v (enforceBounds (world_rt dec) ?d fiat v)" for v fiat
    by (simp add: dev_components enforceBounds_quiet)
  let ?ps = "mf_ListMaturedFloat (w_clock w (w_reads w)) (w_float w)"
  have "snd (SweepMatured (world_rt dec) ?d w) =
      (let (n, v) = sweep_loop ?d ?ps 0 (w\<lparr>w_reads := Suc (w_reads w)\<rparr>)
       in if n > 0 then enforceBounds (world_rt dec) ?d (fp_FiatCurrency (hd ?ps)) v else v)"
    by (simp add: SweepMatured_def dev_components W_simps Let_def case_prod_beta)
  moreover have "quiet w (snd (sweep_loop ?d ?ps 0 (w\<lparr>w_reads := Suc (w_reads w)\<rparr>)))"
    by (rule quiet_trans [OF _ loop]) simp
  ultimately show ?thesis
    using bounds by (auto simp: Let_def case_prod_beta intro: quiet_trans)
qed

section \<open>Funding and rebalancing are quiet\<close>

lemma demand_quiet: "quiet w (snd (W_demand a w))"
  by (rule quietI) (simp_all add: W_demand_def Let_def case_prod_beta)

lemma funding_store_quiet:
  "quiet w (snd (CreateFunding (W_funding dec) f w))" "quiet w (snd (UpdateFundingStatus (W_funding dec) uid st w))"
  "quiet w (snd (CreateJob (W_rebalance dec) j w))" "quiet w (snd (UpdateJobStatus (W_rebalance dec) uid js w))"
  by (rule quietI; simp add: W_simps Let_def)+

lemma wallet_quiet: "quiet w (snd (Fund devWallet q k w))"
  by (rule quietI) (simp_all add: devWallet_def fakeWallet_def in_slot_def case_prod_beta)

lemma create_quiet:
  "quiet w (snd (CreateFundingRequest (world_rt dec) (app_manager cfg (dev_services dec mar unm)) wal asset amount src w))"
    (is "quiet w (snd ?r)")
proof (cases "0 < amount \<and> amount \<le> MaxFundingAmount")
  case False
  then show ?thesis by (auto simp: CreateFundingRequest_def)
next
  case True
  let ?S = "dev_services dec mar unm" and ?f = "funding_request wal asset amount src"
  define s1 where "s1 = snd (W_demand asset w)"
  define fr where "fr = projr (fst (CreateFunding (W_funding dec) ?f s1))"
  define s2 where "s2 = snd (CreateFunding (W_funding dec) ?f s1)"
  define s3 where "s3 = onFunding ?S fr s2"
  define s4 where "s4 = snd (CheckAndMark (W_idem dec) (''fund:'' @ fr_ID (fr s3)) (24 * hour) s3)"
  define q where "q = \<lparr>fm_WalletID = wal, fm_Asset = asset, fm_Amount = amount, fm_Source = src\<rparr>"
  define s5 where "s5 = snd (Fund devWallet q (''fund:'' @ fr_ID (fr s3)) s4)"
  note defs = s5_def q_def s4_def s3_def s2_def fr_def s1_def
  have "quiet w s1" by (simp add: s1_def demand_quiet)
  also have "quiet s1 s2" by (simp add: s2_def funding_store_quiet)
  also have "quiet s2 s3" by (simp add: s3_def onFunding_def quiet_event)
  also have "quiet s3 s4" by (simp add: s4_def quiet_claim)
  also have "quiet s4 s5" by (simp add: s5_def wallet_quiet)
  finally have q5: "quiet w s5" .
  have "\<exists>st x. snd ?r = snd (UpdateFundingStatus (W_funding dec) (fr_ID (fr s5)) st s5) \<or>
      snd ?r = Metric (world_rt dec) x (snd (UpdateFundingStatus (W_funding dec) (fr_ID (fr s5)) st s5))"
  proof -
    have "CreateFunding (W_funding dec) ?f s1 = (Inr fr, s2)" by (simp add: defs W_funding_simps Let_def)
    then have r: "?r =
       (let (failed, s5) = (isl (fst (Fund devWallet q (''fund:'' @ fr_ID (fr s3)) s4)), s5)
        in if failed then
             let (_, s6) = UpdateFundingStatus (W_funding dec) (fr_ID (fr s5)) FundingRejected s5
             in ((Some fr, None), Metric (world_rt dec) (FundingRequests asset ''failed'') s6)
           else
             (case UpdateFundingStatus (W_funding dec) (fr_ID (fr s5)) FundingCompleted s5 of
                (Inl e, s6) \<Rightarrow> ((Some fr, Some e), s6)
              | (Inr _, s6) \<Rightarrow> ((Some fr, None), Metric (world_rt dec) (FundingRequests asset ''ok'') s6)))"
      using True
      by (simp add: CreateFundingRequest_def dev_components demand_of_def s1_def [symmetric] s3_def [symmetric]
          s4_def s5_def q_def Let_def case_prod_beta)
    show ?thesis
      unfolding r by (simp add: Let_def case_prod_beta split: sum.split) blast
  qed
  then show ?thesis
    using quiet_trans [OF q5 funding_store_quiet(2)] quiet_trans [OF _ quiet_fields(3)] by metis
qed

lemma rebalance_quiet:
  "quiet w (snd (Rebalance (world_rt dec) (app_manager cfg (dev_services dec mar unm)) fr to asset amount why w))"
    (is "quiet w (snd ?r)")
proof (cases "0 < amount \<and> amount \<le> MaxFundingAmount")
  case False
  then show ?thesis by (auto simp: Rebalance_def)
next
  case True
  let ?S = "dev_services dec mar unm" and ?j = "rebalancing_job fr to asset amount why"
  define job where "job = projr (fst (CreateJob (W_rebalance dec) ?j w))"
  define s1 where "s1 = snd (CreateJob (W_rebalance dec) ?j w)"
  define s2 where "s2 = onRebalance ?S job s1"
  define s3 where "s3 = snd (CheckAndMark (W_idem dec) (''rebal:'' @ rj_ID (job s2)) (24 * hour) s2)"
  define q where "q = \<lparr>fm_WalletID = to, fm_Asset = asset, fm_Amount = amount, fm_Source = fr\<rparr>"
  define s4 where "s4 = snd (Fund devWallet q (''rebal:'' @ rj_ID (job s2)) s3)"
  have "quiet w s1" by (simp add: s1_def funding_store_quiet)
  also have "quiet s1 s2" by (simp add: s2_def onRebalance_def quiet_event)
  also have "quiet s2 s3" by (simp add: s3_def quiet_claim)
  also have "quiet s3 s4" by (simp add: s4_def wallet_quiet)
  finally have q4: "quiet w s4" .
  have "CreateJob (W_rebalance dec) ?j w = (Inr job, s1)" by (simp add: job_def s1_def W_rebalance_simps Let_def)
  then have r: "?r =
     (let (failure, s4) = (case fst (Fund devWallet q (''rebal:'' @ rj_ID (job s2)) s3) of
           Inl e \<Rightarrow> Some e | Inr _ \<Rightarrow> None, s4)
      in (case failure of
            Some e \<Rightarrow>
              let (_, s5) = UpdateJobStatus (W_rebalance dec) (rj_ID (job s4)) RebalanceRejected s4
              in ((Some job, Some e), Metric (world_rt dec) (RebalanceJobs asset ''failed'') s5)
          | None \<Rightarrow>
              (case UpdateJobStatus (W_rebalance dec) (rj_ID (job s4)) RebalanceCompleted s4 of
                 (Inl e, s5) \<Rightarrow> ((Some job, Some e), s5)
               | (Inr _, s5) \<Rightarrow> ((Some job, None), Metric (world_rt dec) (RebalanceJobs asset ''ok'') s5))))"
    using True
    by (simp add: Rebalance_def dev_components s2_def [symmetric] s3_def s4_def q_def Let_def case_prod_beta
        split: sum.split)
  have "\<exists>st x. snd ?r = snd (UpdateJobStatus (W_rebalance dec) (rj_ID (job s4)) st s4) \<or>
      snd ?r = Metric (world_rt dec) x (snd (UpdateJobStatus (W_rebalance dec) (rj_ID (job s4)) st s4))"
    unfolding r by (simp add: Let_def case_prod_beta split: sum.split option.split) blast
  then show ?thesis
    using quiet_trans [OF q4 funding_store_quiet(4)] quiet_trans [OF _ quiet_fields(3)] by metis
qed

lemma topup_quiet:
  "quiet w (checkAndRebalance (world_rt dec) (app_manager cfg (dev_services dec mar unm)) asset wal w)"
  using demand_quiet [of w asset] create_quiet [of _ dec cfg mar unm wal asset _ "''rebalance-loop''"]
  by (auto simp: checkAndRebalance_def demand_of_def dev_components(6) Let_def case_prod_beta
      intro: quiet_trans split: option.split)

section \<open>The books\<close>

text \<open>
  The batches that have been closed; what the service owes and is owed for them. \<open>settled_total\<close>
  is the notional of the settled batches of a currency.
\<close>

definition closed_batches :: "BatchTable \<Rightarrow> Batch multiset" where
  "closed_batches rows = filter_mset (\<lambda>b. b_Status b \<noteq> BatchOpen) (mset rows)"

definition settled_total :: "string \<Rightarrow> BatchTable \<Rightarrow> decimal" where
  "settled_total c rows =
     (\<Sum>b\<in>#closed_batches rows. if b_Status b = BatchSettled \<and> fiatOf (b_AssetPair b) = c then b_NotionalUSD b else 0)"

text \<open>
  The books: the tables agree; no batch rests closed but not submitted; each closed batch has
  one order, for its notional, and one request was sent for it, and there are no others; the
  float of each currency is the notional of its settled batches; only closed batches were
  claimed; and the events recorded for a batch are those of the steps it has made.
\<close>

definition books :: "'n service \<Rightarrow> bool" where
  "books w \<longleftrightarrow>
     core_inv w \<and>
     (\<forall>b \<in># closed_batches (w_batch w). b_Status b \<noteq> BatchClosed) \<and>
     image_mset (\<lambda>r. (o_BatchID r, o_NotionalUSD r)) (mset (w_order w)) =
       image_mset (\<lambda>b. (b_ID b, b_NotionalUSD b)) (closed_batches (w_batch w)) \<and>
     mset (liq_calls w) = image_mset parent_request (closed_batches (w_batch w)) \<and>
     (\<forall>c. short_of c (w_float w) = settled_total c (w_batch w)) \<and>
     claimed_batches w \<subseteq> b_ID ` set_mset (closed_batches (w_batch w)) \<and>
     (\<forall>uid. batch_events w uid =
        (uid \<in> b_ID ` set (w_batch w), uid \<in> b_ID ` set_mset (closed_batches (w_batch w)),
         \<exists>b \<in># closed_batches (w_batch w). b_ID b = uid \<and> b_Status b = BatchSettled,
         \<exists>b \<in># closed_batches (w_batch w). b_ID b = uid \<and> b_Status b = BatchSettled))"

lemma booksD:
  assumes "books w"
  shows "core_inv w" and "\<forall>b \<in># closed_batches (w_batch w). b_Status b \<noteq> BatchClosed"
    and "image_mset (\<lambda>r. (o_BatchID r, o_NotionalUSD r)) (mset (w_order w)) =
       image_mset (\<lambda>b. (b_ID b, b_NotionalUSD b)) (closed_batches (w_batch w))"
    and "mset (liq_calls w) = image_mset parent_request (closed_batches (w_batch w))"
    and "short_of c (w_float w) = settled_total c (w_batch w)"
    and "claimed_batches w \<subseteq> b_ID ` set_mset (closed_batches (w_batch w))"
    and "batch_events w uid =
        (uid \<in> b_ID ` set (w_batch w), uid \<in> b_ID ` set_mset (closed_batches (w_batch w)),
         \<exists>b \<in># closed_batches (w_batch w). b_ID b = uid \<and> b_Status b = BatchSettled,
         \<exists>b \<in># closed_batches (w_batch w). b_ID b = uid \<and> b_Status b = BatchSettled)"
  using assms by (simp_all add: books_def)

lemma core_inv_calm: "core_inv w \<Longrightarrow> calm w w' \<Longrightarrow> core_inv w'"
  by (force simp: core_inv_def calm_def ids_used_def)

lemma books_calm:
  assumes "books w" and "calm w w'"
  shows "books w'"
  using assms core_inv_calm [OF booksD(1) [OF assms(1)] assms(2)] by (simp add: books_def calm_def)

lemmas books_quiet = books_calm [OF _ quiet_calm]

lemma books_new: "inj ids \<Longrightarrow> books (NewAll clock ids (NewOutside net))"
  by (simp add: books_def core_inv_new) (simp add: NewAll_def closed_batches_def NewOutside_def NewFake_def
      NewOutboxStore_def NewMem_def claimed_batches_def batch_events_def settled_total_def short_of_def)

text \<open>
  Progress: the books are in order after the step, a closed batch and its members are never
  touched again, and neither a membership nor a request is ever retracted.
\<close>

definition progress :: "'n service \<Rightarrow> 'n service \<Rightarrow> bool" where
  "progress w w' \<longleftrightarrow> books w' \<and> closed_batches (w_batch w) \<subseteq># closed_batches (w_batch w') \<and>
     (\<forall>uid \<in> b_ID ` set_mset (closed_batches (w_batch w)).
        mm_ListMemberships uid (w_member w') = mm_ListMemberships uid (w_member w)) \<and> tidy w w' \<and>
     prefix (mt_rows (w_member w)) (mt_rows (w_member w')) \<and> prefix (liq_calls w) (liq_calls w')"

lemma progress_refl: "books w \<Longrightarrow> progress w w"
  by (simp add: progress_def tidy_def)

lemma progress_trans [trans]:
  assumes "progress u v" and "progress v w"
  shows "progress u w"
proof -
  let ?C = "\<lambda>w. b_ID ` set_mset (closed_batches (w_batch w))" and ?L = "\<lambda>uid w. mm_ListMemberships uid (w_member w)"
  have sub: "?C u \<subseteq> ?C v" using assms(1) by (intro image_mono set_mset_mono) (simp add: progress_def)
  have "\<forall>x \<in> ?C u. ?L x v = ?L x u" "\<forall>x \<in> ?C v. ?L x w = ?L x v"
    using assms by (simp_all add: progress_def)
  then have "\<forall>x \<in> ?C u. ?L x w = ?L x u" using sub by fastforce
  moreover have "closed_batches (w_batch u) \<subseteq># closed_batches (w_batch v)"
    "closed_batches (w_batch v) \<subseteq># closed_batches (w_batch w)" using assms by (simp_all add: progress_def)
  then have "closed_batches (w_batch u) \<subseteq># closed_batches (w_batch w)" by (rule subset_mset.order_trans)
  moreover have "prefix (mt_rows (w_member u)) (mt_rows (w_member v))"
    "prefix (mt_rows (w_member v)) (mt_rows (w_member w))" using assms by (simp_all add: progress_def)
  then have "prefix (mt_rows (w_member u)) (mt_rows (w_member w))" by (rule prefix_order.order_trans)
  moreover have "prefix (liq_calls u) (liq_calls v)" "prefix (liq_calls v) (liq_calls w)"
    using assms by (simp_all add: progress_def)
  then have "prefix (liq_calls u) (liq_calls w)" by (rule prefix_order.order_trans)
  moreover have "tidy u w" using assms tidy_trans [of u v w] by (simp add: progress_def)
  ultimately show ?thesis using assms(2) by (simp add: progress_def)
qed

lemma progress_books: "progress w w' \<Longrightarrow> books w'"
  by (simp add: progress_def)

lemma progress_calm: "books w \<Longrightarrow> calm w w' \<Longrightarrow> progress w w'"
  using books_calm [of w w'] by (simp add: progress_def calm_def)

lemmas progress_quiet = progress_calm [OF _ quiet_calm]

section \<open>The close keeps the books\<close>

lemma closed_update:
  assumes "j < length rows" and "b_Status (rows ! j) = BatchOpen" and "b_Status b' \<noteq> BatchOpen"
  shows "closed_batches (rows[j := b']) = add_mset b' (closed_batches rows)"
  using assms by (simp add: closed_batches_def mset_update)

lemma closed_set: "set_mset (closed_batches rows) = {b \<in> set rows. b_Status b \<noteq> BatchOpen}"
  by (auto simp: closed_batches_def)

lemma core_inv_close:
  assumes inv: "core_inv w" and b: "batch_at uid (w_batch w) j b" "b_Status b = BatchOpen"
    and b': "w_batch w' = (w_batch w)[j := b']" "b_ID b' = uid" "b_AssetPair b' = b_AssetPair b"
      "b_NotionalUSD b' = notional_of uid (mt_rows (w_member w))" "b_Status b' \<noteq> BatchOpen"
    and unt: "untouched w w'"
  shows "core_inv w'"
proof -
  note at = batch_at_map [OF b(1)]
  have map': "batch_map (w_batch w') = (batch_map (w_batch w))(uid \<mapsto> b')"
    using b(1) b'(1,2) by (simp add: rowmap_update)
  have ids: "map b_ID (w_batch w') = map b_ID (w_batch w)" using at b b'(1,2) by (simp add: map_update_same)
  obtain us vs where "filter (\<lambda>b. b_Status b = BatchOpen) (w_batch w) = us @ w_batch w ! j # vs"
      "filter (\<lambda>b. b_Status b = BatchOpen) (w_batch w') = us @ vs"
    using filter_update_drop [of j "w_batch w" "\<lambda>b. b_Status b = BatchOpen" b'] at b b' by auto
  then have "batch_inv (w_batch w')" using ids core_invD(2) [OF inv] by (simp add: batch_inv_def)
  moreover have "b_ID ` set (w_batch w') = b_ID ` set (w_batch w)" using ids by (metis list.set_map)
  moreover have "ids_used w \<subseteq> ids_used w'" using unt by (fastforce simp: ids_used_def untouched_def)
  moreover have "members_placed (w_batch w') (mt_rows (w_member w))"
    using core_invD(5) [OF inv] at b'(3) by (fastforce simp: members_placed_def map')
  moreover have "notionals_agree (w_batch w') (mt_rows (w_member w))"
    using core_invD(6) [OF inv] b'(4) by (simp add: notionals_agree_def map')
  ultimately show ?thesis using inv unt by (auto simp: core_inv_def untouched_def)
qed

lemma close_events:
  assumes "\<And>k. seen_event w' k \<longleftrightarrow> k = Key AggBatch EvBatchClose uid \<or>
     P \<and> (k = Key AggFloat EvFloatAdjust uid \<or> k = Key AggAggregate EvAggregateExec uid) \<or> seen_event w k"
  shows "batch_events w' u = (case batch_events w u of (x, y, z, v) \<Rightarrow>
     (x, y \<or> u = uid, z \<or> P \<and> u = uid, v \<or> P \<and> u = uid))"
  by (auto simp: batch_events_def assms Key_inject event_kinds_def event_names)

lemma open_not_closed:
  assumes "core_inv w" and "batch_at uid (w_batch w) j b" and "b_Status b = BatchOpen"
  shows "uid \<notin> b_ID ` set_mset (closed_batches (w_batch w))"
proof
  assume "uid \<in> b_ID ` set_mset (closed_batches (w_batch w))"
  then obtain x where x: "x \<in> set (w_batch w)" "b_ID x = uid" "b_Status x \<noteq> BatchOpen" by (auto simp: closed_set)
  have "distinct (map b_ID (w_batch w))" using core_invD(2) [OF assms(1)] by (simp add: batch_inv_def)
  from rowmap_in_set [OF this x(1)] batch_at_map [OF assms(2)] x(2,3) assms(3) show False by simp
qed

lemma settled_total_add:
  "closed_batches rows' = add_mset b' (closed_batches rows) \<Longrightarrow>
   settled_total c rows' = settled_total c rows +
     (if b_Status b' = BatchSettled \<and> fiatOf (b_AssetPair b') = c then b_NotionalUSD b' else 0)"
  by (simp add: settled_total_def)

text \<open>An open batch has no order yet, and its submission has not been claimed.\<close>

lemma books_fresh:
  assumes "books w" and b: "batch_at uid (w_batch w) j b" "b_Status b = BatchOpen"
  shows "order_map (w_order w) uid = None" and "agg_key uid \<notin> known_keys w"
proof -
  note B = booksD [OF assms(1)]
  have fresh: "uid \<notin> b_ID ` set_mset (closed_batches (w_batch w))" by (rule open_not_closed [OF B(1) b])
  have "uid \<notin> o_BatchID ` set (w_order w)"
  proof
    assume "uid \<in> o_BatchID ` set (w_order w)"
    then have "uid \<in> fst ` set_mset (image_mset (\<lambda>r. (o_BatchID r, o_NotionalUSD r)) (mset (w_order w)))" by force
    with fresh show False unfolding B(3) by force
  qed
  then show "order_map (w_order w) uid = None" by (simp add: rowmap_None)
  show "agg_key uid \<notin> known_keys w" using B(6) fresh by (auto simp: claimed_batches_def)
qed

lemma close_progress:
  assumes "books w"
    and w': "w' = snd (close_batch (world_rt dec) (app_scheduler (world_rt dec) cfg (dev_services dec mar unm)) uid reason w)"
  shows "progress w w'"
proof (cases "\<exists>b. batch_map (w_batch w) uid = Some b \<and> b_Status b = BatchOpen")
  case False
  then have "w' = w" unfolding w' by (intro close_refused) auto
  with assms(1) show ?thesis by (simp add: progress_refl)
next
  case True
  then obtain b where bm: "batch_map (w_batch w) uid = Some b" and opn: "b_Status b = BatchOpen" by blast
  obtain j where b: "batch_at uid (w_batch w) j b" "b_Status b = BatchOpen"
    using rowmap_Some_ix [OF bm] opn by blast
  note B = booksD [OF assms(1)] and at = batch_at_map [OF b(1)]
  note none = books_fresh(1) [OF assms(1) b] and key = books_fresh(2) [OF assms(1) b]
  define n where "n = notional_of uid (mt_rows (w_member w))"
  from close_any [OF b n_def none key w']
  obtain b' tf where c: "b_Status b' \<in> {BatchExecuting, BatchSettled}" "w_batch w' = (w_batch w)[j := b']"
    "b_ID b' = uid" "b_AssetPair b' = b_AssetPair b" "b_NotionalUSD b' = n"
    "map order_view (w_order w') = map order_view (w_order w) @ [(uid, n, tf)]"
    "liq_calls w' = liq_calls w @ [parent_request b']"
    "\<forall>c. short_of c (w_float w') = short_of c (w_float w) +
       (if b_Status b' = BatchSettled \<and> c = fiatOf (b_AssetPair b) then n else 0)"
    "\<forall>k. seen_event w' k \<longleftrightarrow> k = Key AggBatch EvBatchClose uid \<or>
       b_Status b' = BatchSettled \<and> (k = Key AggFloat EvFloatAdjust uid \<or>
       k = Key AggAggregate EvAggregateExec uid) \<or> seen_event w k"
    "known_keys w' \<subseteq> insert (agg_key uid) (insert (hedge_key uid) (known_keys w))" "untouched w w'" "tidy w w'"
    by (elim exE conjE)
  have closed: "closed_batches (w_batch w') = add_mset b' (closed_batches (w_batch w))"
    using at b c(1,2) by (auto simp: closed_update)
  have ids: "b_ID ` set (w_batch w') = b_ID ` set (w_batch w)"
    using at b(1) c(2,3) map_update_same [of j "w_batch w" b_ID b'] by (metis list.set_map)
  have view: "map (\<lambda>r. (o_BatchID r, o_NotionalUSD r)) rows = map (\<lambda>(u, n, _). (u, n)) (map order_view rows)" for rows
    by (simp add: order_view_def)
  have orders: "image_mset (\<lambda>r. (o_BatchID r, o_NotionalUSD r)) (mset (w_order w')) =
      add_mset (uid, n) (image_mset (\<lambda>r. (o_BatchID r, o_NotionalUSD r)) (mset (w_order w)))"
    unfolding mset_map [symmetric] view c(6) by simp
  have "core_inv w'" using core_inv_close [OF B(1) b c(2-4) c(5) [unfolded n_def] _ c(11)] c(1) by auto
  moreover have "\<forall>x \<in># closed_batches (w_batch w'). b_Status x \<noteq> BatchClosed"
    using B(2) c(1) by (auto simp: closed)
  moreover have "image_mset (\<lambda>r. (o_BatchID r, o_NotionalUSD r)) (mset (w_order w')) =
      image_mset (\<lambda>b. (b_ID b, b_NotionalUSD b)) (closed_batches (w_batch w'))"
    by (simp add: orders closed B(3) c(3,5))
  moreover have "mset (liq_calls w') = image_mset parent_request (closed_batches (w_batch w'))"
    by (simp add: c(7) closed B(4))
  moreover have "short_of x (w_float w') = settled_total x (w_batch w')" for x
    by (auto simp: c(4,5) c(8) [rule_format] settled_total_add [OF closed] B(5))
  moreover have "claimed_batches w' \<subseteq> insert uid (claimed_batches w)"
    using c(10) by (auto simp: claimed_batches_def agg_key_def hedge_key_def)
  then have "claimed_batches w' \<subseteq> b_ID ` set_mset (closed_batches (w_batch w'))"
    using B(6) c(3) unfolding closed by auto
  moreover have "batch_events w' u =
     (u \<in> b_ID ` set (w_batch w'), u \<in> b_ID ` set_mset (closed_batches (w_batch w')),
      \<exists>x \<in># closed_batches (w_batch w'). b_ID x = u \<and> b_Status x = BatchSettled,
      \<exists>x \<in># closed_batches (w_batch w'). b_ID x = u \<and> b_Status x = BatchSettled)" for u
    using close_events [OF c(9) [rule_format], of u] c(3) unfolding B(7) ids closed by auto
  ultimately have "books w'" unfolding books_def by blast
  then show ?thesis using c(7,11,12) by (simp add: progress_def closed untouched_def)
qed

section \<open>The consumer keeps the books\<close>

lemma open_closed: "closed_batches (snd (mb_OpenBatch uid now p rows)) = closed_batches rows"
  by (auto simp: mb_OpenBatch_def closed_batches_def Let_def split: option.split)

lemma open_set:
  "b_ID ` set (snd (mb_OpenBatch uid now p rows)) =
   insert (b_ID (fst (mb_OpenBatch uid now p rows))) (b_ID ` set rows)"
  by (auto simp: mb_OpenBatch_def Let_def split: option.split dest: first_ix_Some_in)

lemma joined_rows:
  assumes "distinct (map b_ID rows)" and "uid \<notin> b_ID ` set rows"
    and "(b, rows1) = mb_OpenBatch uid now p rows" and "rows2 = snd (mb_SetBatchNotional (b_ID b) x rows1)"
  shows "closed_batches rows2 = closed_batches rows" and "b_ID ` set rows2 = insert (b_ID b) (b_ID ` set rows)"
proof -
  have b: "b = fst (mb_OpenBatch uid now p rows)" and rows1: "rows1 = snd (mb_OpenBatch uid now p rows)"
    using assms(3) by (metis fst_conv, metis snd_conv)
  have opn: "b_Status b = BatchOpen" using mb_OpenBatch_open [of p uid now rows] by (simp add: b isOpenFor_def)
  have "batch_map rows1 (b_ID b) = Some b" unfolding b rows1 by (simp add: mb_OpenBatch_map [OF assms(1,2)])
  then obtain i where i: "first_ix (\<lambda>r. b_ID r = b_ID b) rows1 = Some i" "rows1 ! i = b" "i < length rows1"
    using rowmap_Some_ix first_ix_SomeD by metis
  have "rows2 = rows1[i := b\<lparr>b_NotionalUSD := x\<rparr>]" using i by (simp add: assms(4) mb_SetBatchNotional_def)
  then have "closed_batches rows2 = closed_batches rows1"
    using i opn by (simp add: closed_batches_def mset_update)
  then show "closed_batches rows2 = closed_batches rows" by (simp add: rows1 open_closed)
  have "b_ID ` set rows2 = b_ID ` set rows1"
    unfolding assms(4) using mb_SetBatchNotional_ids [of "b_ID b" x rows1] by (metis list.set_map)
  then show "b_ID ` set rows2 = insert (b_ID b) (b_ID ` set rows)" by (simp add: rows1 b open_set)
qed

lemma opened_not_closed:
  assumes "distinct (map b_ID rows)" and "uid \<notin> b_ID ` set rows" and "(b, rows1) = mb_OpenBatch uid now p rows"
  shows "b_ID b \<notin> b_ID ` set_mset (closed_batches rows)"
proof
  assume "b_ID b \<in> b_ID ` set_mset (closed_batches rows)"
  then obtain x where x: "x \<in> set rows" "b_ID x = b_ID b" "b_Status x \<noteq> BatchOpen" by (auto simp: closed_set)
  have b: "b = fst (mb_OpenBatch uid now p rows)" using assms(3) by (metis fst_conv)
  have "batch_map rows (b_ID b) = Some x" using rowmap_in_set [OF assms(1) x(1)] x(2) by simp
  from mb_OpenBatch_existing [OF assms(1,2) this [unfolded b]] have "b = x" by (simp add: b)
  with x(3) mb_OpenBatch_open [of p uid now rows] show False by (simp add: b isOpenFor_def)
qed

lemma join_records:
  assumes "\<not> mt_byTx (w_member w) (ev_TxID ev)"
    and w': "w' = join_batch (world_rt dec) (app_consumer cfg (dev_services dec mar unm)) ev pair w"
  shows "seen_event w' k \<longleftrightarrow> seen_event w k \<or>
      k = Key AggBatch EvBatchOpen (b_ID (fst (opened pair w))) \<and>
      mm_ListMemberships (b_ID (fst (opened pair w))) (w_member w) = []"
    and "liq_calls w' = liq_calls w"
  using assms(1) unfolding w'
  by (auto simp: join_batch_def dev_components W_simps Let_def opened_def mm_AddMembership_cases event_membership_def
      value_or_zero_def onBatchOpen_def)

lemma join_tidy:
  assumes "\<not> mt_byTx (w_member w) (ev_TxID ev)"
    and w': "w' = join_batch (world_rt dec) (app_consumer cfg (dev_services dec mar unm)) ev pair w"
  shows "tidy w w'"
proof -
  let ?fire = "mm_ListMemberships (b_ID (fst (opened pair w))) (w_member w) = []"
  define u where "u = w\<lparr>w_batch := snd (opened pair w), w_reads := Suc (Suc (w_reads w)), w_idn := Suc (Suc (w_idn w)),
         w_member := \<lparr>mt_rows = mt_rows (w_member w) @ [joined ev pair w],
                         mt_byTx = (mt_byTx (w_member w))(ev_TxID ev := True)\<rparr>\<rparr>"
  define v where "v = (if ?fire then onBatchOpen (dev_services dec mar unm) (fst (opened pair w)) u else u)"
  have "w' = v\<lparr>w_batch := snd (mb_SetBatchNotional (b_ID (fst (opened pair w)))
      (mm_SumNotional (b_ID (fst (opened pair w))) (w_member v)) (w_batch v)),
      w_metrics := w_metrics v @ [EventsConsumed pair ''ok'']\<rparr>"
    using assms(1) unfolding w' v_def u_def
    by (simp add: join_batch_def dev_components W_simps Let_def opened_def joined_def mm_AddMembership_cases
        value_or_zero_def event_membership_def)
  then have "tidy v w'" by (intro tidy_frame) simp_all
  moreover have "tidy u v" using tidy_event [of u dec mar unm] by (simp add: v_def onBatchOpen_def tidy_def)
  moreover have "tidy w u" by (rule tidy_frame) (simp_all add: u_def)
  ultimately show ?thesis by (blast intro: tidy_trans)
qed

lemma join_progress:
  assumes "books w" and new: "\<not> mt_byTx (w_member w) (ev_TxID ev)"
    and pair: "pair = ev_Asset ev @ ''/'' @ ev_FiatCurrency ev"
    and w': "w' = join_batch (world_rt dec) (app_consumer cfg (dev_services dec mar unm)) ev pair w"
  shows "progress w w'"
proof -
  let ?bid = "b_ID (fst (opened pair w))"
  note B = booksD [OF assms(1)] and r = join_records [OF new w']
  note t = join_batch_tables [OF onBatchOpen_benign new w' [unfolded dev_components]]
  have dist: "distinct (map b_ID (w_batch w))" using core_invD(2) [OF B(1)] by (simp add: batch_inv_def)
  have fresh: "w_ids w (w_idn w) \<notin> b_ID ` set (w_batch w)"
    using next_id_fresh [OF core_invD(1) [OF B(1)]] core_invD(4) [OF B(1)] by blast
  have ob: "(fst (opened pair w), snd (opened pair w)) =
      mb_OpenBatch (w_ids w (w_idn w)) (w_clock w (w_reads w)) pair (w_batch w)" by (simp add: opened_def)
  note rows = joined_rows [OF dist fresh ob t(2)]
  have "core_inv w'"
    by (rule join_batch_core_inv [OF B(1) onBatchOpen_benign new pair w' [unfolded dev_components]])
  moreover
  have seen: "?bid \<in> b_ID ` set (w_batch w) \<or> mm_ListMemberships ?bid (w_member w) = []"
  proof (cases "mm_ListMemberships ?bid (w_member w) = []")
    case False
    then obtain m where "m \<in> set (mt_rows (w_member w))" "m_BatchID m = ?bid"
      by (auto simp: mm_ListMemberships_empty)
    then obtain b where "batch_map (w_batch w) ?bid = Some b"
      using core_invD(5) [OF B(1)] by (auto simp: members_placed_def)
    from rowmap_SomeD [OF this] show ?thesis by (metis imageI)
  qed simp
  have "batch_events w' u =
     (u \<in> b_ID ` set (w_batch w'), u \<in> b_ID ` set_mset (closed_batches (w_batch w')),
      \<exists>x \<in># closed_batches (w_batch w'). b_ID x = u \<and> b_Status x = BatchSettled,
      \<exists>x \<in># closed_batches (w_batch w'). b_ID x = u \<and> b_Status x = BatchSettled)" for u
  proof -
    have "batch_events w' u = (case batch_events w u of (x, y, z, v) \<Rightarrow>
        (x \<or> u = ?bid \<and> mm_ListMemberships ?bid (w_member w) = [], y, z, v))"
      by (auto simp: batch_events_def r(1) Key_inject event_kinds_def event_names)
    then show ?thesis using seen unfolding B(7) rows by auto
  qed
  moreover have "claimed_batches w' = claimed_batches w" by (simp add: claimed_batches_def t(5))
  moreover have "settled_total c (w_batch w') = settled_total c (w_batch w)" for c
    by (simp add: settled_total_def rows(1))
  ultimately have "books w'"
    unfolding books_def using B(2-6) by (simp add: rows(1) t(6,7) r(2))
  moreover have "?bid \<notin> b_ID ` set_mset (closed_batches (w_batch w))"
    by (rule opened_not_closed [OF dist fresh ob])
  ultimately show ?thesis
    using join_tidy [OF new w'] by (auto simp: progress_def rows(1) t(1) r(2) mm_ListMemberships_def)
qed

lemma handle_progress:
  assumes "books w"
  shows "progress w (handle (world_rt dec) (app_consumer cfg (dev_services dec mar unm)) ev w)"
proof -
  have "marked ev w = snd (CheckAndMark (W_idem dec) (''tx:'' @ ev_TxID ev) (24 * hour) w)"
    by (simp add: marked_def W_idem_simps Let_def)
  then have q: "calm w (marked ev w)" by (simp add: calm_claim)
  note m = progress_calm [OF assms q]
  consider "ev_TxID ev = [] \<or> ev_Asset ev = []"
    | "ev_TxID ev \<noteq> []" "ev_Asset ev \<noteq> []" "claimed ev w \<or> mt_byTx (w_member w) (ev_TxID ev)"
    | "ev_TxID ev \<noteq> []" "ev_Asset ev \<noteq> []" "\<not> claimed ev w" "\<not> mt_byTx (w_member w) (ev_TxID ev)" by blast
  then show ?thesis
  proof cases
    case 1
    then show ?thesis
      using progress_quiet [OF assms quiet_fields(1)]
      by (simp add: dev_components handle_invalid deadLetter_def Let_def)
  next
    case 2
    then show ?thesis
      using progress_trans [OF m progress_quiet [OF progress_books [OF m] quiet_fields(1)]]
      by (simp add: dev_components handle_world)
  next
    case 3
    then show ?thesis
      using progress_trans [OF m join_progress [OF progress_books [OF m] _ refl refl]]
      by (simp add: dev_components handle_world)
  qed
qed

section \<open>The service\<close>

lemma loop_progress:
  assumes "books w"
  shows "progress w (tick_loop (world_rt dec) (app_scheduler (world_rt dec) cfg (dev_services dec mar unm)) bs w)"
  using assms
proof (induction bs arbitrary: w)
  case Nil
  then show ?case by (simp add: progress_refl)
next
  case (Cons b bs)
  let ?d = "app_scheduler (world_rt dec) cfg (dev_services dec mar unm)"
  define w1 where "w1 = snd (shouldClose (world_rt dec) ?d b w)"
  define w2 where "w2 = snd (Acquire (sd_Lock ?d) (b_AssetPair b) w1)"
  define w3 where "w3 = snd (close_batch (world_rt dec) ?d (b_ID b) (fst (shouldClose (world_rt dec) ?d b w)) w2)"
  have p1: "progress w w1"
    by (rule progress_quiet [OF Cons.prems]) (simp add: w1_def dev_components shouldClose_quiet)
  have p2: "progress w w2"
    by (rule progress_trans [OF p1 progress_quiet [OF progress_books [OF p1]]])
       (simp add: w2_def dev_components acquire_quiet)
  have p3: "progress w w3"
    by (rule progress_trans [OF p2 close_progress [OF progress_books [OF p2] w3_def]])
  have "tick_loop (world_rt dec) ?d (b # bs) w \<in>
      {tick_loop (world_rt dec) ?d bs w1, tick_loop (world_rt dec) ?d bs w2, tick_loop (world_rt dec) ?d bs w3}"
    by (simp add: w1_def w2_def w3_def Let_def case_prod_beta split: sum.split)
  then show ?case
    using progress_trans [OF p1 Cons.IH [OF progress_books [OF p1]]]
      progress_trans [OF p2 Cons.IH [OF progress_books [OF p2]]]
      progress_trans [OF p3 Cons.IH [OF progress_books [OF p3]]] by auto
qed

lemma tick_progress:
  assumes "books w"
  shows "progress w (tick (world_rt dec) (app_scheduler (world_rt dec) cfg (dev_services dec mar unm)) w)"
  using loop_progress [OF assms] by (simp add: tick_def dev_components W_simps)

text \<open>
  The steps of the service in development mode: one event from the bus, or what the other
  goroutines do (\<open>other_step\<close>): one tick of the scheduler, a manual close, a drain of the outbox,
  a sweep of the float, a funding request, a rebalancing job, a check of the demand, and any
  change of what the downstream services will answer (what they have received stays).
\<close>

inductive other_step ::
  "(float64 \<Rightarrow> decimal) \<Rightarrow> (Payload \<Rightarrow> string) \<Rightarrow> (string \<Rightarrow> Payload) \<Rightarrow> Config
   \<Rightarrow> 'n service \<Rightarrow> 'n service \<Rightarrow> bool" for dec mar unm cfg where
  other_tick: "other_step dec mar unm cfg w
      (tick (world_rt dec) (app_scheduler (world_rt dec) cfg (dev_services dec mar unm)) w)"
| other_close: "other_step dec mar unm cfg w
      (snd (CloseBatch (world_rt dec) (app_scheduler (world_rt dec) cfg (dev_services dec mar unm)) uid w))"
| other_dispatch: "other_step dec mar unm cfg w
      (snd (Dispatch (world_rt dec) (app_emitter (dev_services dec mar unm)) limit w))"
| other_sweep: "other_step dec mar unm cfg w
      (snd (SweepMatured (world_rt dec) (app_float cfg (dev_services dec mar unm)) w))"
| other_fund: "other_step dec mar unm cfg w
      (snd (CreateFundingRequest (world_rt dec) (app_manager cfg (dev_services dec mar unm)) wal asset amount src w))"
| other_rebalance: "other_step dec mar unm cfg w
      (snd (Rebalance (world_rt dec) (app_manager cfg (dev_services dec mar unm)) frm to asset amount why w))"
| other_topup: "other_step dec mar unm cfg w
      (checkAndRebalance (world_rt dec) (app_manager cfg (dev_services dec mar unm)) asset wal w)"
| other_outside: "fk_calls (x_liq x) = liq_calls w \<Longrightarrow> (\<And>k. in_ledger w k \<Longrightarrow> fk_keys (x_ledger x) k) \<Longrightarrow>
    (\<And>k. in_audit w k \<Longrightarrow> fk_keys (x_audit x) k) \<Longrightarrow> other_step dec mar unm cfg w (w\<lparr>w_ext := x\<rparr>)"

inductive service_step ::
  "(float64 \<Rightarrow> decimal) \<Rightarrow> (Payload \<Rightarrow> string) \<Rightarrow> (string \<Rightarrow> Payload) \<Rightarrow> Config
   \<Rightarrow> 'n service \<Rightarrow> 'n service \<Rightarrow> bool" for dec mar unm cfg where
  step_event: "service_step dec mar unm cfg w
      (handle (world_rt dec) (app_consumer cfg (dev_services dec mar unm)) ev w)"
| step_other: "other_step dec mar unm cfg w w' \<Longrightarrow> service_step dec mar unm cfg w w'"

lemmas step_close = step_other [OF other_close]
lemmas step_fund = step_other [OF other_fund]

abbreviation service_run ::
  "(float64 \<Rightarrow> decimal) \<Rightarrow> (Payload \<Rightarrow> string) \<Rightarrow> (string \<Rightarrow> Payload) \<Rightarrow> Config
   \<Rightarrow> 'n service \<Rightarrow> 'n service \<Rightarrow> bool" where
  "service_run dec mar unm cfg \<equiv> (service_step dec mar unm cfg)\<^sup>*\<^sup>*"

lemma other_progress: "other_step dec mar unm cfg w w' \<Longrightarrow> books w \<Longrightarrow> progress w w'"
proof (induction rule: other_step.induct)
  case (other_tick w)
  then show ?case by (rule tick_progress)
next
  case (other_close w uid)
  then show ?case unfolding CloseBatch_def by (rule close_progress [OF _ refl])
next
  case (other_outside x w)
  then show ?case by (auto intro!: progress_quiet quietI)
qed (rule progress_quiet, assumption, rule dispatch_quiet sweep_quiet create_quiet rebalance_quiet topup_quiet)+

lemma step_progress: "service_step dec mar unm cfg w w' \<Longrightarrow> books w \<Longrightarrow> progress w w'"
  by (induction rule: service_step.induct) (rule handle_progress other_progress; assumption)+

text \<open>Any number of steps in any order keep the books and never undo anything.\<close>

lemma run_progress:
  assumes "service_run dec mar unm cfg w w'" and "books w"
  shows "progress w w'"
  using assms
proof (induction rule: rtranclp_induct)
  case base
  then show ?case by (simp add: progress_refl)
next
  case (step v w')
  then show ?case using progress_trans step_progress progress_books by metis
qed

text \<open>The states the service reaches from the empty one.\<close>

definition reachable ::
  "(float64 \<Rightarrow> decimal) \<Rightarrow> (Payload \<Rightarrow> string) \<Rightarrow> (string \<Rightarrow> Payload) \<Rightarrow> Config \<Rightarrow> 'n service \<Rightarrow> bool" where
  "reachable dec mar unm cfg w \<longleftrightarrow>
     (\<exists>clock ids net. inj ids \<and> (\<forall>n. clock n \<noteq> zero_time) \<and> service_run dec mar unm cfg (NewAll clock ids (NewOutside net)) w)"

lemma posted_new: "inj ids \<Longrightarrow> \<forall>n. clock n \<noteq> zero_time \<Longrightarrow> posted (NewAll clock ids (NewOutside net))"
  by (simp add: posted_def outbox_ok_def NewAll_def outbox_inv_def NewOutboxStore_def)

lemma reachable_books:
  assumes "reachable dec mar unm cfg w"
  shows "books w" and "posted w"
proof -
  from assms obtain clock ids net where r: "inj ids" "\<forall>n. clock n \<noteq> zero_time"
      "service_run dec mar unm cfg (NewAll clock ids (NewOutside net)) w"
    unfolding reachable_def by blast
  have "progress (NewAll clock ids (NewOutside net)) w" by (rule run_progress [OF r(3) books_new [OF r(1)]])
  then show "books w" "posted w" using posted_new [OF r(1,2), of net] by (simp_all add: progress_def tidy_def)
qed

lemma posted_seen:
  assumes "posted w" and "seen_event w k"
  shows "(\<exists>e \<in> set (filter is_pending (ot_rows (w_outbox w))). oe_DedupKey e = k) \<or> in_ledger w k \<and> in_audit w k"
proof -
  obtain e where "e \<in> set (ot_rows (w_outbox w))" "oe_DedupKey e = k"
    using assms by (auto simp: posted_def outbox_ok_def outbox_inv_def)
  with assms(1) show ?thesis by (auto simp: posted_def)
qed

lemma reachable_step: "reachable dec mar unm cfg w \<Longrightarrow> service_run dec mar unm cfg w w' \<Longrightarrow> reachable dec mar unm cfg w'"
  unfolding reachable_def by (meson rtranclp_trans)

end
