(* ===== verification/Cadence.thy ===== *)
theory Cadence
  imports Lifecycle
begin

text \<open>
  The liveness of the scheduler: a batch that is due when a tick starts, by its size or by its
  age, is no longer open when the tick ends, whatever happens to the other batches of the
  tick, as long as no earlier close holds the cadence lock of its pair.
\<close>

abbreviation cadence_key :: "string \<Rightarrow> string" where
  "cadence_key p \<equiv> ''cadence:'' @ p"

definition due :: "(float64 \<Rightarrow> decimal) \<Rightarrow> Config \<Rightarrow> Batch \<Rightarrow> 'n service \<Rightarrow> bool" where
  "due dec cfg b w \<longleftrightarrow>
     BatchThresholdFor cfg (b_AssetPair b) > 0 \<and>
       notional_of (b_ID b) (mt_rows (w_member w)) \<ge> dec (BatchThresholdFor cfg (b_AssetPair b)) \<or>
     BatchIntervalDuration cfg (b_AssetPair b) > 0 \<and>
       (\<forall>n. Since (w_clock w n) (b_OpenedAt b) \<ge> BatchIntervalDuration cfg (b_AssetPair b))"

text \<open>What a tick waits for: the batch open, due, its lock free. What it gets: the batch closed.\<close>

definition waiting :: "(float64 \<Rightarrow> decimal) \<Rightarrow> Config \<Rightarrow> Batch \<Rightarrow> 'n service \<Rightarrow> bool" where
  "waiting dec cfg b w \<longleftrightarrow> batch_map (w_batch w) (b_ID b) = Some b \<and> due dec cfg b w \<and>
     cadence_key (b_AssetPair b) \<notin> known_keys w"

definition is_closed :: "uuid \<Rightarrow> 'n service \<Rightarrow> bool" where
  "is_closed uid w \<longleftrightarrow> (\<exists>b'. batch_map (w_batch w) uid = Some b' \<and> b_Status b' \<noteq> BatchOpen)"

lemma is_closed_books:
  assumes "books w"
  shows "is_closed uid w \<longleftrightarrow> uid \<in> b_ID ` set_mset (closed_batches (w_batch w))"
proof -
  have "distinct (map b_ID (w_batch w))"
    using core_invD(2) [OF booksD(1) [OF assms]] by (simp add: batch_inv_def)
  from rowmap_in_set [OF this] show ?thesis
    by (fastforce simp: is_closed_def closed_set dest: rowmap_SomeD)
qed

lemma is_closed_progress: "books w \<Longrightarrow> progress w w' \<Longrightarrow> is_closed uid w \<Longrightarrow> is_closed uid w'"
  using set_mset_mono [of "closed_batches (w_batch w)" "closed_batches (w_batch w')"]
  by (auto simp: is_closed_books progress_def)

text \<open>Closing another batch keeps one waiting; taking another pair's lock too.\<close>

lemma waiting_quiet:
  assumes "waiting dec cfg b w" and "quiet w w'" and "cadence_key (b_AssetPair b) \<notin> known_keys w'"
  shows "waiting dec cfg b w'"
  using assms by (simp add: waiting_def due_def quiet_def calm_def)

lemma waiting_close:
  assumes "books w" and wt: "waiting dec cfg b w" and "uid \<noteq> b_ID b"
    and w': "w' = snd (close_batch (world_rt dec) (app_scheduler (world_rt dec) cfg (dev_services dec mar unm)) uid reason w)"
  shows "waiting dec cfg b w'"
proof (cases "\<exists>c. batch_map (w_batch w) uid = Some c \<and> b_Status c = BatchOpen")
  case False
  then have "w' = w" unfolding w' by (intro close_refused) auto
  with wt show ?thesis by simp
next
  case True
  then obtain c where bm: "batch_map (w_batch w) uid = Some c" and opn: "b_Status c = BatchOpen" by blast
  obtain j where c: "batch_at uid (w_batch w) j c" "b_Status c = BatchOpen"
    using rowmap_Some_ix [OF bm] opn by blast
  from close_any [OF c refl books_fresh [OF assms(1) c] w']
  obtain c' where c': "w_batch w' = (w_batch w)[j := c']" "b_ID c' = uid"
    "known_keys w' \<subseteq> insert (agg_key uid) (insert (hedge_key uid) (known_keys w))" "untouched w w'"
    by (elim exE conjE)
  have "batch_map (w_batch w') = (batch_map (w_batch w))(uid \<mapsto> c')"
    using c(1) c'(1,2) by (simp add: rowmap_update)
  then have "batch_map (w_batch w') (b_ID b) = batch_map (w_batch w) (b_ID b)" using assms(3) by simp
  moreover have "cadence_key (b_AssetPair b) \<notin> known_keys w'"
    using c'(3) wt by (auto simp: waiting_def agg_key_def hedge_key_def)
  ultimately show ?thesis using wt c'(4) by (simp add: waiting_def due_def untouched_def)
qed

text \<open>Its own turn closes it.\<close>

lemma close_closes:
  assumes "books w" and "batch_map (w_batch w) uid = Some b" and "b_Status b = BatchOpen"
  shows "is_closed uid (snd (close_batch (world_rt dec) (app_scheduler (world_rt dec) cfg (dev_services dec mar unm))
    uid reason w))"
proof -
  obtain j where j: "batch_at uid (w_batch w) j b" using rowmap_Some_ix [OF assms(2)] by blast
  define w' where "w' = snd (close_batch (world_rt dec) (app_scheduler (world_rt dec) cfg (dev_services dec mar unm))
    uid reason w)"
  from close_any [OF j assms(3) refl books_fresh [OF assms(1) j assms(3)] w'_def]
  obtain b' where b': "b_Status b' \<in> {BatchExecuting, BatchSettled}" "w_batch w' = (w_batch w)[j := b']"
    "b_ID b' = uid" by (elim exE conjE)
  have "batch_map (w_batch w') = (batch_map (w_batch w))(uid \<mapsto> b')"
    using j b'(2,3) by (simp add: rowmap_update)
  then have "batch_map (w_batch w') uid = Some b'" by simp
  with b'(1) show ?thesis unfolding w'_def [symmetric] by (auto simp: is_closed_def)
qed

lemma waiting_turn:
  assumes "books w" and "waiting dec cfg b w" and "b_Status b = BatchOpen"
  shows "\<exists>w3. tick_loop (world_rt dec) (app_scheduler (world_rt dec) cfg (dev_services dec mar unm)) (b # bs) w =
      tick_loop (world_rt dec) (app_scheduler (world_rt dec) cfg (dev_services dec mar unm)) bs w3 \<and>
    books w3 \<and> is_closed (b_ID b) w3"
proof -
  let ?d = "app_scheduler (world_rt dec) cfg (dev_services dec mar unm)"
  define reason where "reason = fst (shouldClose (world_rt dec) ?d b w)"
  have r: "reason \<noteq> ReasonNone"
    using assms(2) by (auto simp: reason_def dev_components shouldClose_world waiting_def due_def Let_def)
  define w1 where "w1 = snd (shouldClose (world_rt dec) ?d b w)"
  have q1: "quiet w w1" by (simp add: w1_def dev_components shouldClose_quiet)
  have k1: "cadence_key (b_AssetPair b) \<notin> known_keys w1"
    using assms(2) by (simp add: w1_def dev_components shouldClose_world waiting_def Let_def)
  define w2 where "w2 = snd (Acquire (sd_Lock ?d) (b_AssetPair b) w1)"
  have a: "Acquire (sd_Lock ?d) (b_AssetPair b) w1 = (Inr True, w2)"
    using k1 by (auto simp: w2_def dev_components Acquire_def NewCadenceLock_def W_idem_simps Let_def
        ms_CheckAndMark_def domIff)
  have q2: "quiet w1 w2" by (simp add: w2_def dev_components acquire_quiet)
  define w3 where "w3 = snd (close_batch (world_rt dec) ?d (b_ID b) reason w2)"
  have q: "quiet w w2" by (rule quiet_trans [OF q1 q2])
  have b2: "books w2" by (rule books_quiet [OF assms(1) q])
  have "batch_map (w_batch w2) (b_ID b) = Some b" using assms(2) q by (simp add: waiting_def quiet_def calm_def)
  from close_closes [OF b2 this assms(3)] have "is_closed (b_ID b) w3" by (simp add: w3_def)
  moreover have "books w3" by (rule progress_books [OF close_progress [OF b2 w3_def]])
  moreover have "tick_loop (world_rt dec) ?d (b # bs) w = tick_loop (world_rt dec) ?d bs w3"
  proof -
    have "shouldClose (world_rt dec) ?d b w = (reason, w1)" by (simp add: reason_def w1_def)
    with r a show ?thesis by (simp add: w3_def case_prod_beta)
  qed
  ultimately show ?thesis by blast
qed

text \<open>The tick: every open batch takes its turn, in the order of the listing.\<close>

lemma tick_loop_closes:
  assumes "books w" and "b \<in> set bs" and "b_Status b = BatchOpen" and "distinct (map b_AssetPair bs)"
    and "distinct (map b_ID bs)" and "waiting dec cfg b w"
  shows "is_closed (b_ID b)
    (tick_loop (world_rt dec) (app_scheduler (world_rt dec) cfg (dev_services dec mar unm)) bs w)"
  using assms
proof (induction bs arbitrary: w)
  case Nil
  then show ?case by simp
next
  case (Cons c bs)
  let ?d = "app_scheduler (world_rt dec) cfg (dev_services dec mar unm)"
  show ?case
  proof (cases "c = b")
    case True
    from waiting_turn [OF Cons.prems(1,6,3)] obtain w3 where
      w3: "tick_loop (world_rt dec) ?d (b # bs) w = tick_loop (world_rt dec) ?d bs w3" "books w3" "is_closed (b_ID b) w3"
      by blast
    from is_closed_progress [OF w3(2) loop_progress [OF w3(2)] w3(3)] w3(1) True show ?thesis by simp
  next
    case False
    then have b: "b \<in> set bs" "b_AssetPair c \<noteq> b_AssetPair b" "b_ID c \<noteq> b_ID b" using Cons.prems by auto
    note IH = Cons.IH [OF _ b(1) Cons.prems(3)]
    have dist: "distinct (map b_AssetPair bs)" "distinct (map b_ID bs)" using Cons.prems(4,5) by simp_all
    define w1 where "w1 = snd (shouldClose (world_rt dec) ?d c w)"
    have q1: "quiet w w1" by (simp add: w1_def dev_components shouldClose_quiet)
    have t1: "waiting dec cfg b w1"
      by (rule waiting_quiet [OF Cons.prems(6) q1])
         (use Cons.prems(6) in \<open>simp add: w1_def dev_components shouldClose_world waiting_def Let_def\<close>)
    define w2 where "w2 = snd (Acquire (sd_Lock ?d) (b_AssetPair c) w1)"
    have q2: "quiet w1 w2" by (simp add: w2_def dev_components acquire_quiet)
    have k2: "known_keys w2 = insert (cadence_key (b_AssetPair c)) (known_keys w1)"
      by (simp add: w2_def dev_components Acquire_def NewCadenceLock_def W_idem_simps Let_def known_keys_claim)
    have t2: "waiting dec cfg b w2"
      by (rule waiting_quiet [OF t1 q2]) (use t1 b(2) in \<open>simp add: k2 waiting_def\<close>)
    define w3 where "w3 = snd (close_batch (world_rt dec) ?d (b_ID c) (fst (shouldClose (world_rt dec) ?d c w)) w2)"
    have b1: "books w1" by (rule books_quiet [OF Cons.prems(1) q1])
    have b2: "books w2" by (rule books_quiet [OF b1 q2])
    have t3: "waiting dec cfg b w3" by (rule waiting_close [OF b2 t2 b(3) w3_def])
    have b3: "books w3" by (rule progress_books [OF close_progress [OF b2 w3_def]])
    have "tick_loop (world_rt dec) ?d (c # bs) w \<in>
        {tick_loop (world_rt dec) ?d bs w1, tick_loop (world_rt dec) ?d bs w2, tick_loop (world_rt dec) ?d bs w3}"
      by (simp add: w1_def w2_def w3_def Let_def case_prod_beta split: sum.split)
    then show ?thesis using IH [OF b1 dist t1] IH [OF b2 dist t2] IH [OF b3 dist t3] by auto
  qed
qed

lemma distinct_map_sort_key: "distinct (map f (sort_key g xs)) = distinct (map f xs)"
  by (rule mset_eq_imp_distinct_iff) simp

lemma tick_closes:
  assumes "books w" and "b \<in> set (w_batch w)" and "b_Status b = BatchOpen"
    and "due dec cfg b w" and "cadence_key (b_AssetPair b) \<notin> known_keys w"
  shows "is_closed (b_ID b) (tick (world_rt dec) (app_scheduler (world_rt dec) cfg (dev_services dec mar unm)) w)"
proof -
  have inv: "batch_inv (w_batch w)" by (rule core_invD(2) [OF booksD(1) [OF assms(1)]])
  let ?bs = "mb_ListOpenBatches (w_batch w)"
  have "distinct (map b_AssetPair ?bs)" "distinct (map b_ID ?bs)"
    using inv by (simp_all add: batch_inv_def mb_ListOpenBatches_def distinct_map_sort_key distinct_map_filter)
  moreover have "waiting dec cfg b w"
    using assms inv by (simp add: waiting_def batch_inv_def rowmap_in_set)
  moreover have "b \<in> set ?bs" using assms(2,3) by (simp add: mb_ListOpenBatches_set)
  ultimately show ?thesis
    using tick_loop_closes [OF assms(1) _ assms(3)] by (simp add: tick_def dev_components W_simps)
qed

section \<open>Closing, topping up, an open circuit\<close>

text \<open>
  The close policy: a batch whose members reach the threshold of its pair is closed for its
  size, otherwise one at least as old as the interval of its pair is closed for its age, and no
  other is. The bounds on the interval are those within which its conversion to nanoseconds is
  exact.
\<close>

lemma close_policy:
  assumes "0 < BatchIntervalFor cfg (b_AssetPair b)" and "BatchIntervalFor cfg (b_AssetPair b) \<le> 9223372036"
  shows "fst (shouldClose (world_rt dec) (app_scheduler (world_rt dec) cfg (dev_services dec mar unm)) b w) =
    (if 0 < BatchThresholdFor cfg (b_AssetPair b) \<and>
        dec (BatchThresholdFor cfg (b_AssetPair b)) \<le> notional_of (b_ID b) (mt_rows (w_member w)) then ReasonSize
     else if b_OpenedAt b + BatchIntervalFor cfg (b_AssetPair b) * second \<le> w_clock w (w_reads w) then ReasonTime
     else ReasonNone)"
proof -
  have iv: "BatchIntervalDuration cfg (b_AssetPair b) = BatchIntervalFor cfg (b_AssetPair b) * second"
    by (rule BatchIntervalDuration_exact) (use assms in simp_all)
  then have "0 < BatchIntervalDuration cfg (b_AssetPair b)" "BatchIntervalDuration cfg (b_AssetPair b) < 2 ^ 63"
    using assms by simp_all
  then show ?thesis by (simp add: dev_components shouldClose_world Let_def Since_ge_iff iv)
qed

text \<open>
  A batch is closed at most once: after one close of it (by the ticker or by hand), a
  second attempt reports that the batch is not open and changes neither the batches, the
  orders, the float nor the requests sent.
\<close>

lemma close_only_once:
  assumes "batch_map (w_batch w) uid = Some b" and "b_Status b = BatchOpen"
    and "n = notional_of uid (mt_rows (w_member w))" and "0 < n"
    and "order_map (w_order w) uid = None" and "seen_key w (agg_key uid) = None"
    and "seen_key w (hedge_key uid) = None" and "\<not> seen_event w (Key AggBatch EvBatchClose uid)"
    and "\<not> seen_event w (Key AggFloat EvFloatAdjust uid)"
    and "\<not> seen_event w (Key AggAggregate EvAggregateExec uid)" and "services_up w"
    and "(r, w') = close_batch (world_rt dec) (app_scheduler (world_rt dec) cfg (dev_services dec mar unm)) uid reason w"
  shows "CloseBatch (world_rt dec) (app_scheduler (world_rt dec) cfg (dev_services dec mar unm)) uid w' = (Inl ErrNotOpen, w')"
proof -
  obtain b' where "batch_map (w_batch w') uid = Some b'" "b_Status b' = BatchSettled"
    using close_end_to_end(1) [OF assms] by blast
  then show ?thesis
    by (simp add: CloseBatch_def close_batch_def dev_components W_simps mb_GetBatch_map)
qed

text \<open>
  The top-up of a hot wallet asks the wallet service for the demand above the target, at
  most the ceiling, and for nothing when the demand does not exceed a target that is set.
\<close>

lemma topup_is_bounded:
  assumes "w_ids w (w_idn w) \<notin> fr_ID ` set (w_funding w)" and "0 < HotWalletTargetFor cfg asset"
    and "gap = fst (W_demand asset w) - dec (HotWalletTargetFor cfg asset)"
    and "w' = checkAndRebalance (world_rt dec) (app_manager cfg (dev_services dec mar unm)) asset wal w"
  shows "fund_moves w' = fund_moves w @
    (if gap \<le> 0 then [] else [\<lparr>fm_WalletID = wal, fm_Asset = asset, fm_Amount = min gap MaxFundingAmount,
       fm_Source = ''rebalance-loop''\<rparr>])"
proof -
  let ?d = "app_manager cfg (dev_services dec mar unm)" and ?w = "snd (W_demand asset w)"
  have w': "w' = (case shortfall_of (fst (W_demand asset w)) (dec (HotWalletTargetFor cfg asset)) of None \<Rightarrow> ?w
      | Some x \<Rightarrow> snd (CreateFundingRequest (world_rt dec) ?d wal asset x ''rebalance-loop'' ?w))"
    using assms(2,4) by (simp add: checkAndRebalance_def dev_components demand_of_def case_prod_beta Let_def split: option.split)
  show ?thesis
  proof (cases "gap \<le> 0")
    case True
    then show ?thesis using w' assms(3) by (simp add: shortfall_of_def)
  next
    case False
    let ?x = "min gap MaxFundingAmount"
    have s: "shortfall_of (fst (W_demand asset w)) (dec (HotWalletTargetFor cfg asset)) = Some ?x"
      using False assms(3) by (simp add: shortfall_of_def Let_def min_def)
    have "0 < ?x" "?x \<le> MaxFundingAmount" using False by (simp_all add: MaxFundingAmount_def)
    from wappmanager.create_dispatches [OF _ this, where s = ?w and cfg = cfg and dec = dec and mar = mar and unm = unm
        and wal = wal and asset = asset and src = "''rebalance-loop''"] assms(1)
    have "fund_moves w' = fund_moves ?w @ [\<lparr>fm_WalletID = wal, fm_Asset = asset, fm_Amount = ?x, fm_Source = ''rebalance-loop''\<rparr>]"
      using w' s by auto
    then show ?thesis using False by simp
  qed
qed

text \<open>With the circuit open and its timeout not over, a call fails at once and nothing is sent.\<close>

lemma open_circuit_sends_nothing:
  assumes "\<not> fst (Allow (w_clock w (w_reads w)) (x_liq_cb (w_ext w)))"
  shows "fst (SubmitAggregate (ResilientLiquidity (world_rt dec) (net_wait wt) devLiquidity opts (Some liqBreaker)) q k w)
      = Inl ErrCircuitOpen \<and>
    liq_calls (snd (SubmitAggregate (ResilientLiquidity (world_rt dec) (net_wait wt) devLiquidity opts
      (Some liqBreaker)) q k w)) = liq_calls w"
proof -
  have "cb_allow (world_rt dec) liqBreaker w = (False, snd (cb_allow (world_rt dec) liqBreaker w))"
    using assms by (simp add: cb_allow_def liqBreaker_def case_prod_beta Let_def)
  from wretry.Do_open [OF refl this, of wt opts q k] show ?thesis by (simp add: ResilientLiquidity_def)
qed

text \<open>
  A rebalancing job within the policy is recorded once and asked of the wallet service
  once, from its source to its target; it ends completed when the service accepts, and
  rejected, with the error of the service returned, when it refuses.
\<close>

lemma rebalance_dispatched:
  assumes "0 < amount" and "amount \<le> MaxFundingAmount" and "w_ids w (w_idn w) \<notin> rj_ID ` set (w_rebalance w)"
    and "(res, w') = Rebalance (world_rt dec) (app_manager cfg (dev_services dec mar unm)) fr to asset amount why w"
  shows "snd res = fw_err (x_wallet (w_ext w)) \<and> fst res \<noteq> None \<and>
    fund_moves w' = fund_moves w @ [\<lparr>fm_WalletID = to, fm_Asset = asset, fm_Amount = amount, fm_Source = fr\<rparr>] \<and>
    (\<exists>j. job_map (w_rebalance w') = (job_map (w_rebalance w))(w_ids w (w_idn w) \<mapsto> j) \<and> rj_Amount j = amount \<and>
      rj_Status j = (if fund_up w then RebalanceCompleted else RebalanceRejected))"
proof -
  have r: "((fst res, snd res), w') = Rebalance (world_rt dec) (W_manager cfg dec (Some devWallet)
      (Some (onFunding (dev_services dec mar unm))) (Some (onRebalance (dev_services dec mar unm)))) fr to asset amount why w"
    using assms(4) by (simp add: dev_components)
  note d = rebalance_dispatches [OF funding_hooks_ok(2) assms(1-3) r]
  obtain t t' where j: "job_map (w_rebalance w') = (job_map (w_rebalance w))(w_ids w (w_idn w) \<mapsto>
      job_status t' (if fund_up w then RebalanceCompleted else RebalanceRejected)
        (new_job (w_ids w (w_idn w)) t (rebalancing_job fr to asset amount why)))" using d(1) by blast
  have "rj_Amount (job_status t' st (new_job u t (rebalancing_job fr to asset amount why))) = amount"
    "rj_Status (job_status t' st (new_job u t (rebalancing_job fr to asset amount why))) = st" for u st
    by (simp_all add: job_status_def new_job_def rebalancing_job_def Let_def)
  with j d(2-4) show ?thesis by (intro conjI) (blast intro: exI)+
qed

end
