(* ===== verification/Routes.thy ===== *)
theory Routes
  imports Api Cadence
begin

text \<open>
  What the router of \<^verbatim>\<open>internal/api\<close> promises in development mode: which handler a
  path reaches, that a request does no more than one operation of the service, and the status
  each request is answered with.
\<close>

section \<open>Routing\<close>

lemma split_on_no_sep: "c \<notin> set a \<Longrightarrow> split_on c a = [a]"
  by (induction a) auto

lemma split_on_sep: "c \<notin> set a \<Longrightarrow> split_on c (a @ c # b) = a # split_on c b"
  by (induction a) auto

lemma longest_in: "foldl (\<lambda>a b. if length (fst a) < length (fst b) then b else a) m ms \<in> insert m (set ms)"
proof (induction ms arbitrary: m)
  case (Cons a ms)
  show ?case using Cons [of a] Cons [of m] by (cases "length (fst m) < length (fst a)") auto
qed simp

lemma mux_match_in:
  assumes "mux_match routes path = Some (p, h)"
  shows "(p, h) \<in> set routes \<and> pattern_matches p path"
proof -
  obtain m ms where f: "filter (\<lambda>(p, h). pattern_matches p path) routes = m # ms"
    using assms by (auto simp: mux_match_def split: list.splits)
  then have "(p, h) \<in> insert m (set ms)"
    using assms longest_in [where m = m and ms = ms] by (auto simp: mux_match_def)
  then have "(p, h) \<in> set (filter (\<lambda>(p, h). pattern_matches p path) routes)" using f by auto
  then show ?thesis by simp
qed

text \<open>The handlers that only read.\<close>

lemma answer_state [simp]: "snd (answer f r) = snd r"
  by (simp add: answer_def split: prod.split sum.split)

lemma memberships_read: "snd (handleBatchMemberships (app_api rt cfg (dev_services dec mar unm)) r uid w) = w"
  by (simp add: handleBatchMemberships_def app_api_def dev_services_def W_simps)

lemma detail_read:
  "snd (batch_detail (app_api rt cfg (dev_services dec mar unm)) (W_batch dec) r uid w) = w"
  by (simp add: batch_detail_def batch_order_def batch_members_def app_api_def dev_services_def W_simps
      mb_GetBatch_map mo_GetOrderByBatch_def case_prod_beta split: option.split sum.split)

lemma lists_read:
  "snd (handleBatches (W_batch dec) r w) = w"
  "snd (handleFloatList (app_float cfg (dev_services dec mar unm)) r w) = w"
  "snd (handleFloat (app_float cfg (dev_services dec mar unm)) r w) = w"
  "snd (handleAggregateOrders (W_order dec) r w) = w"
  "snd (handleRebalancing (app_manager cfg (dev_services dec mar unm)) r w) = w"
  by (simp_all add: handleBatches_def handleFloatList_def handleFloat_def handleAggregateOrders_def
      handleRebalancing_def float_List_def float_Get_def manager_ListJobs_def dev_components W_simps Let_def)

lemma router_handlers:
  "set (NewRouter rt ps (app_api rt cfg S)) =
    {(''/healthz'', \<lambda>r. healthz), (''/readyz'', \<lambda>r. readyz), (''/v1/batches'', handleBatches (sv_Batch S)),
     (''/v1/batches/'', handleBatchByID rt ps (app_api rt cfg S) (sv_Batch S)),
     (''/v1/float'', handleFloatList (app_float cfg S)), (''/v1/float/'', handleFloat (app_float cfg S)),
     (''/v1/funding-requests'', handleFunding rt ps (app_manager cfg S)),
     (''/v1/rebalancing-jobs'', handleRebalancing (app_manager cfg S)),
     (''/v1/aggregate-orders'', handleAggregateOrders (sv_Order S))}"
  by (simp add: NewRouter_def) (auto simp: app_api_def)

section \<open>What a request can do\<close>

lemma close_effect:
  "snd (handleBatchClose (world_rt dec) (app_api (world_rt dec) cfg S) r uid w) =
    (if rq_Method r = ''POST'' then snd (CloseBatch (world_rt dec) (app_scheduler (world_rt dec) cfg S) uid w) else w)"
  by (simp add: handleBatchClose_def app_api_def split: sum.split prod.split)

lemma byID_effect:
  "snd (handleBatchByID (world_rt dec) ps (app_api (world_rt dec) cfg (dev_services dec mar unm)) (W_batch dec) r w) = w \<or>
   rq_Method r = ''POST'' \<and> (\<exists>uid.
     snd (handleBatchByID (world_rt dec) ps (app_api (world_rt dec) cfg (dev_services dec mar unm)) (W_batch dec) r w) =
     snd (CloseBatch (world_rt dec) (app_scheduler (world_rt dec) cfg (dev_services dec mar unm)) uid w))"
  unfolding handleBatchByID_def Let_def
  by (auto simp: close_effect memberships_read detail_read split: option.split)

lemma funding_effect:
  "snd (handleFunding (world_rt dec) ps (app_manager cfg (dev_services dec mar unm)) r w) = w \<or>
   rq_Method r = ''POST'' \<and> (\<exists>wal asset amount src.
     snd (handleFunding (world_rt dec) ps (app_manager cfg (dev_services dec mar unm)) r w) =
     snd (CreateFundingRequest (world_rt dec) (app_manager cfg (dev_services dec mar unm)) wal asset amount src w))"
proof (cases "rq_Method r = ''POST''")
  case True
  then show ?thesis
    by (auto simp: handleFunding_def case_prod_beta split: option.split intro: exI)
next
  case False
  then show ?thesis by (simp add: handleFunding_def manager_ListFunding_def dev_components W_simps)
qed

lemma serve_effect:
  fixes w :: "'n service"
  assumes "(r', w') = dev_serve dec mar unm cfg ps r w"
  shows "w' = w \<or> rq_Method r = ''POST'' \<and>
    ((\<exists>uid. w' = snd (CloseBatch (world_rt dec) (app_scheduler (world_rt dec) cfg (dev_services dec mar unm)) uid w)) \<or>
     (\<exists>wal asset amount src. w' = snd (CreateFundingRequest (world_rt dec)
        (app_manager cfg (dev_services dec mar unm)) wal asset amount src w)))"
proof (cases "mux_match (NewRouter (world_rt dec) ps (app_api (world_rt dec) cfg (dev_services dec mar unm :: 'n service Services)))
    (rq_Path r)")
  case None
  then have "snd (dev_serve dec mar unm cfg ps r w) = w" by (simp add: dev_serve_def ServeHTTP_def)
  then show ?thesis by (simp add: assms [symmetric])
next
  case (Some m)
  obtain p h where m: "m = (p, h)" by fastforce
  have "w' = w \<or> w' = snd (h r w)"
  proof -
    have "w' = snd (dev_serve dec mar unm cfg ps r w)" by (simp add: assms [symmetric])
    then show ?thesis using Some m by (auto simp: dev_serve_def ServeHTTP_def)
  qed
  moreover have "h \<in> {\<lambda>r. healthz, \<lambda>r. readyz, handleBatches (W_batch dec),
      handleBatchByID (world_rt dec) ps (app_api (world_rt dec) cfg (dev_services dec mar unm)) (W_batch dec),
      handleFloatList (app_float cfg (dev_services dec mar unm)), handleFloat (app_float cfg (dev_services dec mar unm)),
      handleFunding (world_rt dec) ps (app_manager cfg (dev_services dec mar unm)),
      handleRebalancing (app_manager cfg (dev_services dec mar unm)), handleAggregateOrders (W_order dec)}"
  proof -
    have "(p, h) \<in> set (NewRouter (world_rt dec) ps (app_api (world_rt dec) cfg (dev_services dec mar unm)))"
      by (rule conjunct1 [OF mux_match_in [OF Some [unfolded m]]])
    then show ?thesis unfolding router_handlers by (auto simp: dev_services_def)
  qed
  ultimately consider "w' = w"
    | "w' = snd (handleBatchByID (world_rt dec) ps (app_api (world_rt dec) cfg (dev_services dec mar unm)) (W_batch dec) r w)"
    | "w' = snd (handleFunding (world_rt dec) ps (app_manager cfg (dev_services dec mar unm)) r w)"
    by (auto simp: lists_read healthz_def readyz_def)
  then show ?thesis
  proof cases
    case 2
    with byID_effect [of dec ps cfg mar unm r w] show ?thesis by metis
  next
    case 3
    with funding_effect [of dec ps cfg mar unm r w] show ?thesis by metis
  qed simp
qed

text \<open>Serving a request is at most one step of the service.\<close>

lemma serve_run:
  assumes "(r', w') = dev_serve dec mar unm cfg ps r w"
  shows "service_run dec mar unm cfg w w'"
  using serve_effect [OF assms] step_close step_fund by (metis r_into_rtranclp rtranclp.rtrancl_refl)

section \<open>The close endpoint\<close>

lemma close_route:
  fixes w :: "'n service"
  assumes "rq_Path r = ''/v1/batches/'' @ x @ ''/close''" and "CHR ''/'' \<notin> set x" and "x \<notin> {[], ''.'', ''..''}"
    and "uuid_Parse ps x = Some uid"
  shows "dev_serve dec mar unm cfg ps r w =
    handleBatchClose (world_rt dec) (app_api (world_rt dec) cfg (dev_services dec mar unm)) r uid w"
proof -
  have path: "rq_Path r = CHR ''/'' # ''v1'' @ CHR ''/'' # ''batches'' @ CHR ''/'' # x @ CHR ''/'' # ''close''"
    using assms(1) by simp
  have parts: "split_on CHR ''/'' (tl (rq_Path r)) = [''v1'', ''batches'', x, ''close'']"
    unfolding path list.sel using assms(2) by (simp add: split_on_sep split_on_no_sep del: append.simps split_on.simps)
  have "clean_path (rq_Path r)"
    using assms(3) unfolding clean_path_def parts Let_def by (simp add: path)
  moreover have "mux_match (NewRouter (world_rt dec) ps
      (app_api (world_rt dec) cfg (dev_services dec mar unm :: 'n service Services))) (rq_Path r)
     = Some (''/v1/batches/'', handleBatchByID (world_rt dec) ps (app_api (world_rt dec) cfg (dev_services dec mar unm)) (W_batch dec))"
    by (simp add: mux_match_def NewRouter_def app_api_def pattern_matches_def assms(1) dev_services_def)
  moreover have "split_on CHR ''/'' (drop (length ''/v1/batches/'') (rq_Path r)) = [x, ''close'']"
    using assms(2) by (simp add: assms(1) split_on_sep split_on_no_sep del: split_on.simps)
  ultimately show ?thesis
    using assms(3,4) by (simp add: dev_serve_def ServeHTTP_def handleBatchByID_def)
qed

text \<open>What a manual close returns.\<close>

lemma close_returns:
  "fst (CloseBatch (world_rt dec) (app_scheduler (world_rt dec) cfg (dev_services dec mar unm)) uid w) =
      (case batch_map (w_batch w) uid of
         None \<Rightarrow> Inl ErrNotFound
       | Some b \<Rightarrow> if b_Status b \<noteq> BatchOpen then Inl ErrNotOpen
                   else Inr (transitioned (w_clock w (w_reads w)) BatchClosed
                               (Some (set_notional (notional_of uid (mt_rows (w_member w))))) b))"
proof (cases "batch_map (w_batch w) uid")
  case None
  then show ?thesis by (simp add: CloseBatch_def close_batch_def dev_components W_simps mb_GetBatch_map)
next
  case (Some b)
  show ?thesis
  proof (cases "b_Status b = BatchOpen")
    case False
    then show ?thesis using Some by (simp add: CloseBatch_def close_batch_def dev_components W_simps mb_GetBatch_map)
  next
    case True
    then show ?thesis
      using Some by (simp add: CloseBatch_def close_batch_def dev_components W_simps mb_GetBatch_map
          mm_SumNotional_eq value_or_zero_def mb_UpdateBatchStatus_map Let_def)
  qed
qed

section \<open>The funding endpoint\<close>

lemma funding_route:
  fixes w :: "'n service"
  assumes "rq_Path r = ''/v1/funding-requests''"
  shows "dev_serve dec mar unm cfg ps r w =
    handleFunding (world_rt dec) ps (app_manager cfg (dev_services dec mar unm)) r w"
proof -
  have "clean_path (rq_Path r)" unfolding assms by code_simp
  moreover have "mux_match (NewRouter (world_rt dec) ps
      (app_api (world_rt dec) cfg (dev_services dec mar unm :: 'n service Services))) (rq_Path r)
     = Some (''/v1/funding-requests'', handleFunding (world_rt dec) ps (app_manager cfg (dev_services dec mar unm)))"
    by (simp add: mux_match_def NewRouter_def app_api_def pattern_matches_def assms)
  ultimately show ?thesis by (simp add: dev_serve_def ServeHTTP_def)
qed

text \<open>A refused request leaves the stores and the wallet service alone.\<close>

lemma funding_refused:
  assumes "rq_Method r = ''POST''" and "decode_funding ps (rq_Body r) = Some q"
    and "fb_Amount q \<le> 0 \<or> MaxFundingAmount < fb_Amount q"
  shows "handleFunding rt ps d r w =
    (if fb_Amount q \<le> 0 then (writeError StatusBadRequest ''funding: invalid amount'', w)
     else (writeError StatusForbidden ''funding: policy violation'',
       Metric rt (FundingRequests (fb_Asset q) ''rejected'') w))"
proof (cases "fb_Amount q \<le> 0")
  case True
  then show ?thesis using assms(1,2) by (simp add: handleFunding_def create_invalid funding_refusal_def)
next
  case False
  then show ?thesis using assms by (simp add: handleFunding_def create_over_ceiling funding_refusal_def)
qed

end
