(* ===== verification/Pg_Conn.thy ===== *)
theory Pg_Conn
  imports Idempotency
begin

text \<open>
  \<^verbatim>\<open>internal/store/postgres/postgres.go\<close>, the ground: the tables of
  \<^verbatim>\<open>0001_up.sql\<close> as lists of rows, the connection pool, and the statements over it.
  A statement of the source is SQL text; here it is the function on the tables that the text
  denotes, in the same clauses (\<open>WHERE\<close>, \<open>ORDER BY\<close>, \<open>ON CONFLICT\<close>, \<open>COALESCE\<close>).

  \<^item> A column of type \<^verbatim>\<open>TIMESTAMPTZ\<close> holds whole microseconds (\<open>tstz\<close>); a parameter
    is truncated to one when it is sent. A column that may be NULL is an option.
  \<^item> \<^verbatim>\<open>NUMERIC\<close> is exact, and a \<open>decimal.Decimal\<close> survives its trip as text. A
    status column holds the text of a status, so the status itself stands for it.
  \<^item> Columns that no statement reads (\<open>updated_at\<close>, and \<open>created_at\<close> of the batches) are
    left out. Text is ordered by its bytes; rows that compare equal keep the table's order.
  \<^item> Each round trip to the server may fail, as the parameter \<open>pc_trip\<close> decides; a failed
    round trip changes no table. Transactions run one after another here; \<open>Pg_Sessions\<close> has
    them interleaved.
\<close>

section \<open>Columns\<close>

type_synonym tstz = int

definition to_tstz :: "time \<Rightarrow> tstz" where
  "to_tstz t = t div 1000"

definition of_tstz :: "tstz \<Rightarrow> time" where
  "of_tstz u = u * 1000"

lemma tstz_round_trip [simp]: "to_tstz (of_tstz u) = u"
  by (simp add: to_tstz_def of_tstz_def)

lemma tstz_truncates: "of_tstz (to_tstz t) \<le> t \<and> t < of_tstz (to_tstz t) + 1000"
  using pos_mod_bound [of 1000 t] pos_mod_sign [of 1000 t] by (simp add: to_tstz_def of_tstz_def minus_mod_eq_div_mult [symmetric])

definition coalesce :: "'a option \<Rightarrow> 'a \<Rightarrow> 'a" where
  "coalesce x d = (case x of Some v \<Rightarrow> v | None \<Rightarrow> d)"

section \<open>Tables\<close>

record batch_row =
  br_id :: uuid
  br_asset_pair :: string
  br_status :: BatchStatus
  br_notional_usd :: decimal
  br_opened_at :: tstz
  br_closed_at :: "tstz option"

record member_row =
  mr_id :: uuid
  mr_batch_id :: uuid
  mr_tx_id :: string
  mr_amount :: decimal
  mr_asset :: string
  mr_fiat_currency :: string
  mr_notional_usd :: decimal
  mr_user_id :: string
  mr_created_at :: tstz

record order_row =
  or_id :: uuid
  or_batch_id :: uuid
  or_asset_pair :: string
  or_side :: string
  or_notional_usd :: decimal
  or_venue_routes :: "VenueRoute list"
  or_fill_price :: decimal
  or_total_filled :: decimal
  or_hedged_notional :: decimal
  or_status :: AggregateStatus
  or_created_at :: tstz
  or_settled_at :: "tstz option"

record funding_row =
  fu_id :: uuid
  fu_wallet_id :: string
  fu_asset :: string
  fu_amount :: decimal
  fu_status :: FundingStatus
  fu_source_venue :: string
  fu_created_at :: tstz
  fu_completed_at :: "tstz option"

record float_row =
  fl_id :: uuid
  fl_fiat_currency :: string
  fl_short_fiat_amount :: decimal
  fl_long_crypto_amount :: decimal
  fl_long_crypto_asset :: string
  fl_settlement_due_at :: tstz
  fl_settled :: bool
  fl_batch_id :: uuid
  fl_created_at :: tstz
  fl_updated_at :: tstz

record job_row =
  jr_id :: uuid
  jr_from_ref :: string
  jr_to_ref :: string
  jr_asset :: string
  jr_amount :: decimal
  jr_status :: RebalanceStatus
  jr_reason :: string
  jr_created_at :: tstz
  jr_completed_at :: "tstz option"

record outbox_row =
  ob_id :: uuid
  ob_aggregate :: string
  ob_event_type :: string
  ob_dedup_key :: string
  ob_payload :: string
  ob_created_at :: tstz
  ob_emitted_at :: "tstz option"

text \<open>
  \<open>db_uuid_nil\<close> says whether the database has the function \<^verbatim>\<open>uuid_nil()\<close>, which
  belongs to an extension (\<^verbatim>\<open>uuid-ossp\<close>) that no migration creates.
\<close>

record PgDb =
  db_batches :: "batch_row list"
  db_members :: "member_row list"
  db_orders :: "order_row list"
  db_fundings :: "funding_row list"
  db_floats :: "float_row list"
  db_jobs :: "job_row list"
  db_outbox :: "outbox_row list"
  db_uuid_nil :: bool

section \<open>Statements\<close>

text \<open>
  The pool: the fate of the next round trip, the clock of the server, the tables, and the
  normal form of a \<^verbatim>\<open>JSONB\<close> text (\<open>None\<close> when it is not JSON).
\<close>

record 's PgConn =
  pc_rt :: "'s Rt"
  pc_trip :: "'s \<Rightarrow> error option \<times> 's"
  pc_now :: "'s \<Rightarrow> tstz \<times> 's"
  pc_db :: "'s \<Rightarrow> PgDb"
  pc_put :: "PgDb \<Rightarrow> 's \<Rightarrow> 's"
  pc_jsonb :: "string \<Rightarrow> string option"

definition stmt :: "'s PgConn \<Rightarrow> ('s \<Rightarrow> (error + 'a) \<times> 's) \<Rightarrow> 's \<Rightarrow> (error + 'a) \<times> 's" where
  "stmt c f s = (case pc_trip c s of (Some e, s1) \<Rightarrow> (Inl e, s1) | (None, s1) \<Rightarrow> f s1)"

text \<open>A query and an update outside a transaction, and the start of a transaction.\<close>

definition query :: "'s PgConn \<Rightarrow> (tstz \<Rightarrow> PgDb \<Rightarrow> error + 'a) \<Rightarrow> 's \<Rightarrow> (error + 'a) \<times> 's" where
  "query c q = stmt c (\<lambda>s. let (now, s1) = pc_now c s in (q now (pc_db c s1), s1))"

definition exec_sql :: "'s PgConn \<Rightarrow> (tstz \<Rightarrow> PgDb \<Rightarrow> (error + 'a) \<times> PgDb) \<Rightarrow> 's \<Rightarrow> (error + 'a) \<times> 's" where
  "exec_sql c u = stmt c (\<lambda>s. let (now, s1) = pc_now c s; (r, db) = u now (pc_db c s1)
     in (r, case r of Inl e \<Rightarrow> s1 | Inr _ \<Rightarrow> pc_put c db s1))"

definition begin_tx :: "'s PgConn \<Rightarrow> (tstz \<Rightarrow> 's \<Rightarrow> (error + 'a) \<times> 's) \<Rightarrow> 's \<Rightarrow> (error + 'a) \<times> 's" where
  "begin_tx c body = stmt c (\<lambda>s. let (now, s1) = pc_now c s in body now s1)"

definition commit :: "'s PgConn \<Rightarrow> PgDb \<Rightarrow> 'a \<Rightarrow> 's \<Rightarrow> (error + 'a) \<times> 's" where
  "commit c db x = stmt c (\<lambda>s. (Inr x, pc_put c db s))"

definition then_do :: "('s \<Rightarrow> (error + 'a) \<times> 's) \<Rightarrow> ('a \<Rightarrow> 's \<Rightarrow> (error + 'b) \<times> 's) \<Rightarrow> 's \<Rightarrow> (error + 'b) \<times> 's" where
  "then_do m k s = (case m s of (Inl e, s1) \<Rightarrow> (Inl e, s1) | (Inr x, s1) \<Rightarrow> k x s1)"

definition unique_violation :: error where
  "unique_violation = External ''unique_violation''"

definition foreign_key_violation :: error where
  "foreign_key_violation = External ''foreign_key_violation''"

definition undefined_function :: error where
  "undefined_function = External ''undefined_function''"

definition invalid_parameter :: error where
  "invalid_parameter = External ''invalid_parameter''"

text \<open>\<open>UPDATE ... SET f WHERE key = k\<close>.\<close>

definition update_rows :: "('r \<Rightarrow> 'k) \<Rightarrow> 'k \<Rightarrow> ('r \<Rightarrow> 'r) \<Rightarrow> 'r list \<Rightarrow> 'r list" where
  "update_rows key k f rows = map (\<lambda>r. if key r = k then f r else r) rows"

lemma update_rows_keys [simp]:
  "(\<And>r. key' (f r) = key' r) \<Longrightarrow> map key' (update_rows key k f rows) = map key' rows"
  by (simp add: update_rows_def)

lemma update_rows_map:
  assumes "\<And>r. key (f r) = key r"
  shows "rowmap key (update_rows key k f rows) =
    (case rowmap key rows k of None \<Rightarrow> rowmap key rows | Some r \<Rightarrow> (rowmap key rows)(k \<mapsto> f r))"
proof (rule ext)
  fix k'
  show "rowmap key (update_rows key k f rows) k' =
    (case rowmap key rows k of None \<Rightarrow> rowmap key rows | Some r \<Rightarrow> (rowmap key rows)(k \<mapsto> f r)) k'"
    using assms by (induction rows) (auto simp: rowmap_find update_rows_def split: option.splits)
qed

section \<open>A live connection\<close>

text \<open>The tables sit in the state; neither the clocks, the identifiers nor the network touch them.\<close>

locale pg_conn =
  fixes c :: "'s PgConn"
  assumes db_put [simp]: "pc_db c (pc_put c db s) = db"
    and db_trip [simp]: "pc_db c (snd (pc_trip c s)) = pc_db c s"
    and db_now [simp]: "pc_db c (snd (pc_now c s)) = pc_db c s"
    and db_Now [simp]: "pc_db c (snd (Now (pc_rt c) s)) = pc_db c s"
    and db_NewV7 [simp]: "pc_db c (snd (NewV7 (pc_rt c) s)) = pc_db c s"
    and db_Metric [simp]: "pc_db c (Metric (pc_rt c) x s) = pc_db c s"
begin

lemma query_db [simp]: "pc_db c (snd (query c q s)) = pc_db c s"
  by (cases "pc_trip c s") (auto simp: query_def stmt_def case_prod_beta split: option.split intro: db_trip [of s, simplified]
      dest: arg_cong [where f = "\<lambda>x. pc_db c (snd x)"])

text \<open>A failed statement outside a transaction leaves the tables alone.\<close>

lemma exec_failed:
  "exec_sql c u s = (Inl e, s') \<Longrightarrow> pc_db c s' = pc_db c s"
  using db_trip [of s] by (cases "pc_trip c s") (auto simp: exec_sql_def stmt_def case_prod_beta split: option.splits sum.splits)

lemma commit_failed: "commit c db x s = (Inl e, s') \<Longrightarrow> pc_db c s' = pc_db c s"
  using db_trip [of s] by (cases "pc_trip c s") (auto simp: commit_def stmt_def split: option.splits)

end

text \<open>The network never fails.\<close>

locale pg_live = pg_conn +
  assumes trip_ok [simp]: "fst (pc_trip c s) = None"
begin

lemma stmt_live [simp]: "stmt c f s = f (snd (pc_trip c s))"
  using trip_ok [of s] by (cases "pc_trip c s") (simp add: stmt_def)

lemma query_live: "\<exists>now. fst (query c q s) = q now (pc_db c s)"
  by (auto simp: query_def case_prod_beta)

end

end
