(* ===== verification/Pg_Batch.thy ===== *)
theory Pg_Batch
  imports Pg_Conn Scheduler
begin

text \<open>
  \<^verbatim>\<open>postgres.BatchStore\<close> and \<^verbatim>\<open>postgres.MembershipStore\<close>: the batches with
  their compare-and-set transition under a row lock, and the memberships, unique by
  transaction. \<open>pgBatch\<close> and \<open>pgMember\<close> pack them as values of the store interfaces; on a
  live connection they keep the contracts the scheduler relies on.
\<close>

section \<open>Batches\<close>

definition scan_batch :: "tstz \<Rightarrow> batch_row \<Rightarrow> Batch" where
  "scan_batch now r = \<lparr>b_ID = br_id r, b_AssetPair = br_asset_pair r, b_Status = br_status r,
     b_NotionalUSD = br_notional_usd r, b_OpenedAt = of_tstz (br_opened_at r),
     b_ClosedAt = of_tstz (coalesce (br_closed_at r) now)\<rparr>"

text \<open>The two statements of the transaction that opens a batch.\<close>

definition select_open :: "string \<Rightarrow> PgDb \<Rightarrow> batch_row option" where
  "select_open assetPair db = find (\<lambda>r. br_asset_pair r = assetPair \<and> br_status r = BatchOpen) (db_batches db)"

definition insert_open :: "uuid \<Rightarrow> string \<Rightarrow> tstz \<Rightarrow> PgDb \<Rightarrow> error + PgDb" where
  "insert_open uid assetPair now db =
     (if uid \<in> br_id ` set (db_batches db) then Inl unique_violation
      else Inr (db\<lparr>db_batches := db_batches db @
        [\<lparr>br_id = uid, br_asset_pair = assetPair, br_status = BatchOpen, br_notional_usd = 0,
          br_opened_at = now, br_closed_at = None\<rparr>]\<rparr>))"

definition pg_OpenBatch :: "'s PgConn \<Rightarrow> string \<Rightarrow> 's \<Rightarrow> (error + Batch) \<times> 's" where
  "pg_OpenBatch c assetPair =
     begin_tx c (\<lambda>now. stmt c (\<lambda>s.
       case select_open assetPair (pc_db c s) of
         Some r \<Rightarrow> (Inr (scan_batch now r), snd (pc_trip c s))
       | None \<Rightarrow>
           let (uid, s1) = NewV7 (pc_rt c) s
           in stmt c (\<lambda>s2.
                case insert_open uid assetPair now (pc_db c s2) of
                  Inl e \<Rightarrow> (Inl e, s2)
                | Inr db \<Rightarrow> commit c db
                    \<lparr>b_ID = uid, b_AssetPair = assetPair, b_Status = BatchOpen, b_NotionalUSD = 0,
                     b_OpenedAt = of_tstz now, b_ClosedAt = zero_time\<rparr> s2) s1))"

definition pg_GetBatch :: "'s PgConn \<Rightarrow> uuid \<Rightarrow> 's \<Rightarrow> (error + Batch) \<times> 's" where
  "pg_GetBatch c uid =
     query c (\<lambda>now db. case rowmap br_id (db_batches db) uid of
       None \<Rightarrow> Inl ErrNotFound
     | Some r \<Rightarrow> Inr (scan_batch now r))"

definition pg_ListBatches :: "'s PgConn \<Rightarrow> time \<Rightarrow> time \<Rightarrow> 's \<Rightarrow> (error + Batch list) \<times> 's" where
  "pg_ListBatches c from to =
     query c (\<lambda>now db. Inr (map (scan_batch now) (sort_key br_opened_at
       (filter (\<lambda>r. (\<not> IsZero from \<longrightarrow> br_opened_at r \<ge> to_tstz from) \<and>
                    (\<not> IsZero to \<longrightarrow> br_opened_at r \<le> to_tstz to)) (db_batches db)))))"

definition pg_ListOpenBatches :: "'s PgConn \<Rightarrow> 's \<Rightarrow> (error + Batch list) \<times> 's" where
  "pg_ListOpenBatches c =
     query c (\<lambda>now db. Inr (map (scan_batch now)
       (sort_key br_id (filter (\<lambda>r. br_status r = BatchOpen) (db_batches db)))))"

text \<open>The update writes the status, the notional and the closing instant, whatever else \<open>mutator\<close> changed.\<close>

definition write_batch :: "uuid \<Rightarrow> Batch \<Rightarrow> time \<Rightarrow> PgDb \<Rightarrow> PgDb" where
  "write_batch uid b closedAt db =
     db\<lparr>db_batches := update_rows br_id uid (\<lambda>r. r\<lparr>br_status := b_Status b, br_notional_usd := b_NotionalUSD b,
       br_closed_at := Some (to_tstz closedAt)\<rparr>) (db_batches db)\<rparr>"

definition pg_UpdateBatchStatus ::
  "'s PgConn \<Rightarrow> uuid \<Rightarrow> BatchStatus \<Rightarrow> BatchStatus \<Rightarrow> (Batch \<Rightarrow> Batch) option \<Rightarrow> 's \<Rightarrow> (error + Batch option) \<times> 's"
where
  "pg_UpdateBatchStatus c uid from to mutator =
     begin_tx c (\<lambda>now. stmt c (\<lambda>s.
       case rowmap br_id (db_batches (pc_db c s)) uid of
         None \<Rightarrow> (Inl ErrNotFound, s)
       | Some r \<Rightarrow>
           if b_Status (scan_batch now r) \<noteq> from then (Inr None, s)
           else if \<not> CanTransitionTo from to then (Inl ErrConflict, s)
           else
             let b = (scan_batch now r)\<lparr>b_Status := to\<rparr>;
                 (closedAt, s1) = (if to = BatchClosed \<and> IsZero (b_ClosedAt b) then Now (pc_rt c) s
                                   else (b_ClosedAt b, s));
                 b = (case mutator of None \<Rightarrow> b | Some f \<Rightarrow> f b)
             in stmt c (\<lambda>s2. commit c (write_batch uid b closedAt (pc_db c s2))
                  (Some (b\<lparr>b_ClosedAt := closedAt\<rparr>)) s2) s1))"

definition pg_SetBatchNotional :: "'s PgConn \<Rightarrow> uuid \<Rightarrow> decimal \<Rightarrow> 's \<Rightarrow> (error + unit) \<times> 's" where
  "pg_SetBatchNotional c uid notional =
     exec_sql c (\<lambda>now db. (Inr (), db\<lparr>db_batches :=
       update_rows br_id uid (\<lambda>r. r\<lparr>br_notional_usd := notional\<rparr>) (db_batches db)\<rparr>))"

definition pgBatch :: "'s PgConn \<Rightarrow> 's BatchStore" where
  "pgBatch c = \<lparr>OpenBatch = pg_OpenBatch c, GetBatch = pg_GetBatch c, ListBatches = pg_ListBatches c,
     ListOpenBatches = pg_ListOpenBatches c, UpdateBatchStatus = pg_UpdateBatchStatus c,
     SetBatchNotional = pg_SetBatchNotional c\<rparr>"

section \<open>Memberships\<close>

definition scan_member :: "member_row \<Rightarrow> Membership" where
  "scan_member r = \<lparr>m_ID = mr_id r, m_BatchID = mr_batch_id r, m_TxID = mr_tx_id r, m_Amount = mr_amount r,
     m_Asset = mr_asset r, m_FiatCurrency = mr_fiat_currency r, m_NotionalUSD = mr_notional_usd r,
     m_UserID = mr_user_id r, m_CreatedAt = of_tstz (mr_created_at r)\<rparr>"

text \<open>The instant sent is never NULL, so \<open>COALESCE($9, now())\<close> is it, even when it is zero.\<close>

definition insert_member :: "uuid \<Rightarrow> Membership \<Rightarrow> PgDb \<Rightarrow> (error + bool) \<times> PgDb" where
  "insert_member uid m db =
     (if m_TxID m \<in> mr_tx_id ` set (db_members db) then (Inr False, db)
      else if uid \<in> mr_id ` set (db_members db) then (Inl unique_violation, db)
      else if m_BatchID m \<notin> br_id ` set (db_batches db) then (Inl foreign_key_violation, db)
      else (Inr True, db\<lparr>db_members := db_members db @
        [\<lparr>mr_id = uid, mr_batch_id = m_BatchID m, mr_tx_id = m_TxID m, mr_amount = m_Amount m,
          mr_asset = m_Asset m, mr_fiat_currency = m_FiatCurrency m, mr_notional_usd = m_NotionalUSD m,
          mr_user_id = m_UserID m, mr_created_at = to_tstz (m_CreatedAt m)\<rparr>]\<rparr>))"

definition pg_AddMembership :: "'s PgConn \<Rightarrow> Membership \<Rightarrow> 's \<Rightarrow> (error + bool) \<times> 's" where
  "pg_AddMembership c m s =
     (let (uid, s1) = NewV7 (pc_rt c) s in exec_sql c (\<lambda>now. insert_member uid m) s1)"

definition pg_ListMemberships :: "'s PgConn \<Rightarrow> uuid \<Rightarrow> 's \<Rightarrow> (error + Membership list) \<times> 's" where
  "pg_ListMemberships c batchID =
     query c (\<lambda>now db. Inr (map scan_member
       (sort_key mr_id (filter (\<lambda>r. mr_batch_id r = batchID) (db_members db)))))"

definition pg_SumNotional :: "'s PgConn \<Rightarrow> uuid \<Rightarrow> 's \<Rightarrow> (error + decimal) \<times> 's" where
  "pg_SumNotional c batchID =
     query c (\<lambda>now db. Inr (sum_list (map mr_notional_usd (filter (\<lambda>r. mr_batch_id r = batchID) (db_members db)))))"

definition pg_ExistsByTxID :: "'s PgConn \<Rightarrow> string \<Rightarrow> 's \<Rightarrow> (error + bool) \<times> 's" where
  "pg_ExistsByTxID c txID = query c (\<lambda>now db. Inr (list_ex (\<lambda>r. mr_tx_id r = txID) (db_members db)))"

definition pgMember :: "'s PgConn \<Rightarrow> 's MembershipStore" where
  "pgMember c = \<lparr>AddMembership = pg_AddMembership c, ListMemberships = pg_ListMemberships c,
     SumNotional = pg_SumNotional c, ExistsByTxID = pg_ExistsByTxID c\<rparr>"

section \<open>The contracts\<close>

text \<open>The batch a row stands for; the closing instant of an open one is left at zero.\<close>

abbreviation row_batch :: "batch_row \<Rightarrow> Batch" where
  "row_batch \<equiv> scan_batch 0"

definition pg_batches :: "PgDb \<Rightarrow> uuid \<Rightarrow> Batch option" where
  "pg_batches db uid = map_option row_batch (rowmap br_id (db_batches db) uid)"

lemma scan_same [simp]: "same_batch (scan_batch now r) (scan_batch now' r)"
  by (simp add: same_batch_def scan_batch_def)

lemma scan_fields [simp]:
  "b_ID (scan_batch now r) = br_id r" "b_Status (scan_batch now r) = br_status r"
  "b_AssetPair (scan_batch now r) = br_asset_pair r" "b_NotionalUSD (scan_batch now r) = br_notional_usd r"
  "b_OpenedAt (scan_batch now r) = of_tstz (br_opened_at r)"
  by (simp_all add: scan_batch_def)

lemma write_batch_map:
  "pg_batches (write_batch uid b t db) =
     (case rowmap br_id (db_batches db) uid of
        None \<Rightarrow> pg_batches db
      | Some r \<Rightarrow> (pg_batches db)(uid \<mapsto> (row_batch r)\<lparr>b_Status := b_Status b,
          b_NotionalUSD := b_NotionalUSD b, b_ClosedAt := of_tstz (to_tstz t)\<rparr>))"
  by (rule ext) (simp add: pg_batches_def write_batch_def update_rows_map scan_batch_def coalesce_def split: option.split)

text \<open>What the transaction of a transition returns and writes, for a row in the expected status.\<close>

lemma moved_same:
  assumes "mutator_ok mu" and "br_status r = from"
  shows "\<exists>t. same_batch (transitioned t to mu (row_batch r))
    ((case mu of None \<Rightarrow> (scan_batch now r)\<lparr>b_Status := to\<rparr> | Some f \<Rightarrow> f ((scan_batch now r)\<lparr>b_Status := to\<rparr>))
      \<lparr>b_ClosedAt := closedAt\<rparr>)"
proof -
  let ?b0 = "(row_batch r)\<lparr>b_Status := to, b_ClosedAt := (if to = BatchClosed \<and> IsZero (b_ClosedAt (row_batch r))
    then 0 else b_ClosedAt (row_batch r))\<rparr>"
  have closed: "same_batch b b' \<Longrightarrow> same_batch b (b'\<lparr>b_ClosedAt := closedAt\<rparr>)" for b b'
    by (cases b; cases b') (auto simp: same_batch_def)
  have "same_batch ?b0 ((scan_batch now r)\<lparr>b_Status := to\<rparr>)" by (simp add: same_batch_def scan_batch_def)
  with assms(1) show ?thesis
    by (intro exI [of _ 0] closed) (auto simp: transitioned_def mutator_ok_def Let_def split: option.split)
qed

lemma written_same:
  assumes "mutator_ok mu" and "br_status r = from"
    and "b = (case mu of None \<Rightarrow> (scan_batch now r)\<lparr>b_Status := to\<rparr> | Some f \<Rightarrow> f ((scan_batch now r)\<lparr>b_Status := to\<rparr>))"
  shows "same_batch (b\<lparr>b_ClosedAt := t\<rparr>) ((row_batch r)\<lparr>b_Status := b_Status b, b_NotionalUSD := b_NotionalUSD b, b_ClosedAt := t'\<rparr>)"
proof -
  have "b_ID b = br_id r \<and> b_AssetPair b = br_asset_pair r \<and> b_OpenedAt b = of_tstz (br_opened_at r)"
    using assms by (auto simp: mutator_ok_def split: option.split)
  then show ?thesis by (cases b) (simp add: same_batch_def scan_batch_def)
qed

context pg_live
begin

lemma get_batch_live:
  "\<exists>now. fst (pg_GetBatch c uid s) =
     (case rowmap br_id (db_batches (pc_db c s)) uid of None \<Rightarrow> Inl ErrNotFound | Some r \<Rightarrow> Inr (scan_batch now r))"
  using query_live [of _ s] by (simp add: pg_GetBatch_def) blast

text \<open>The transition as one function of the tables.\<close>

lemma update_status_live:
  "\<exists>now t. fst (pg_UpdateBatchStatus c uid from to mu s) =
      (case rowmap br_id (db_batches (pc_db c s)) uid of
         None \<Rightarrow> Inl ErrNotFound
       | Some r \<Rightarrow> if br_status r \<noteq> from then Inr None
           else if \<not> CanTransitionTo from to then Inl ErrConflict
           else Inr (Some ((case mu of None \<Rightarrow> (scan_batch now r)\<lparr>b_Status := to\<rparr>
             | Some f \<Rightarrow> f ((scan_batch now r)\<lparr>b_Status := to\<rparr>))\<lparr>b_ClosedAt := t\<rparr>))) \<and>
    pc_db c (snd (pg_UpdateBatchStatus c uid from to mu s)) =
      (case rowmap br_id (db_batches (pc_db c s)) uid of
         None \<Rightarrow> pc_db c s
       | Some r \<Rightarrow> if br_status r \<noteq> from \<or> \<not> CanTransitionTo from to then pc_db c s
           else write_batch uid (case mu of None \<Rightarrow> (scan_batch now r)\<lparr>b_Status := to\<rparr>
             | Some f \<Rightarrow> f ((scan_batch now r)\<lparr>b_Status := to\<rparr>)) t (pc_db c s))"
proof -
  define now where "now = fst (pc_now c (snd (pc_trip c s)))"
  define v where "v = snd (pc_trip c (snd (pc_now c (snd (pc_trip c s)))))"
  have v: "pc_db c v = pc_db c s" by (simp add: v_def)
  let ?go = "\<lambda>t s1 b. commit c (write_batch uid b t (pc_db c (snd (pc_trip c s1)))) (Some (b\<lparr>b_ClosedAt := t\<rparr>)) (snd (pc_trip c s1))"
  define t where "t = (case rowmap br_id (db_batches (pc_db c s)) uid of None \<Rightarrow> 0 | Some r \<Rightarrow>
    if to = BatchClosed \<and> IsZero (b_ClosedAt (scan_batch now r)) then fst (Now (pc_rt c) v) else b_ClosedAt (scan_batch now r))"
  show ?thesis
    by (rule exI [of _ now], rule exI [of _ t])
       (auto simp: pg_UpdateBatchStatus_def begin_tx_def case_prod_beta now_def [symmetric] v_def [symmetric] v t_def
         commit_def Let_def split: option.split)
qed

sublocale bs: batch_store "pgBatch c" "\<lambda>s. pg_batches (pc_db c s)"
proof
  fix s uid b "from" to and mu :: "(Batch \<Rightarrow> Batch) option"
  let ?u = "UpdateBatchStatus (pgBatch c) uid from to mu s" and ?m = "rowmap br_id (db_batches (pc_db c s)) uid"
  have up: "?u = pg_UpdateBatchStatus c uid from to mu s" by (simp add: pgBatch_def)
  obtain now t where f: "fst ?u = (case ?m of
         None \<Rightarrow> Inl ErrNotFound
       | Some r \<Rightarrow> if br_status r \<noteq> from then Inr None
           else if \<not> CanTransitionTo from to then Inl ErrConflict
           else Inr (Some ((case mu of None \<Rightarrow> (scan_batch now r)\<lparr>b_Status := to\<rparr>
             | Some f \<Rightarrow> f ((scan_batch now r)\<lparr>b_Status := to\<rparr>))\<lparr>b_ClosedAt := t\<rparr>)))"
    and w: "pc_db c (snd ?u) = (case ?m of
         None \<Rightarrow> pc_db c s
       | Some r \<Rightarrow> if br_status r \<noteq> from \<or> \<not> CanTransitionTo from to then pc_db c s
           else write_batch uid (case mu of None \<Rightarrow> (scan_batch now r)\<lparr>b_Status := to\<rparr>
             | Some f \<Rightarrow> f ((scan_batch now r)\<lparr>b_Status := to\<rparr>)) t (pc_db c s))"
    using update_status_live [of uid "from" to mu s] unfolding up by blast
  have g: "\<exists>now. fst (GetBatch (pgBatch c) uid s) = (case ?m of None \<Rightarrow> Inl ErrNotFound | Some r \<Rightarrow> Inr (scan_batch now r))"
    using get_batch_live [of uid s] by (simp add: pgBatch_def)
  show "pg_batches (pc_db c s) uid = None \<Longrightarrow> fst (GetBatch (pgBatch c) uid s) = Inl ErrNotFound"
    using g by (auto simp: pg_batches_def)
  show "pg_batches (pc_db c s) uid = Some b \<Longrightarrow> \<exists>b'. fst (GetBatch (pgBatch c) uid s) = Inr b' \<and> same_batch b b'"
    using g by (auto simp: pg_batches_def)
  show "pg_batches (pc_db c (snd (GetBatch (pgBatch c) uid s))) = pg_batches (pc_db c s)"
    by (simp add: pgBatch_def pg_GetBatch_def)
  show "pg_batches (pc_db c s) uid = None \<Longrightarrow> fst ?u = Inl ErrNotFound" using f by (auto simp: pg_batches_def)
  show "pg_batches (pc_db c s) uid = Some b \<Longrightarrow> b_Status b \<noteq> from \<Longrightarrow> fst ?u = Inr None"
    using f by (auto simp: pg_batches_def)
  show "pg_batches (pc_db c s) uid = Some b \<Longrightarrow> b_Status b = from \<Longrightarrow> \<not> CanTransitionTo from to \<Longrightarrow> fst ?u = Inl ErrConflict"
    using f by (auto simp: pg_batches_def)
  show "fst ?u \<notin> Inr ` range Some \<Longrightarrow> pg_batches (pc_db c (snd ?u)) = pg_batches (pc_db c s)"
    using f w by (auto split: option.splits if_splits)
  assume ok: "pg_batches (pc_db c s) uid = Some b" "b_Status b = from" "CanTransitionTo from to" "mutator_ok mu"
  then obtain r where r: "?m = Some r" "b = row_batch r" "br_status r = from" by (auto simp: pg_batches_def)
  define b1 where "b1 = (case mu of None \<Rightarrow> (scan_batch now r)\<lparr>b_Status := to\<rparr> | Some f \<Rightarrow> f ((scan_batch now r)\<lparr>b_Status := to\<rparr>))"
  have "fst ?u = Inr (Some (b1\<lparr>b_ClosedAt := t\<rparr>))" "pc_db c (snd ?u) = write_batch uid b1 t (pc_db c s)"
    using f w r ok(3) by (simp_all add: b1_def)
  moreover have "\<exists>x. same_batch (transitioned x to mu b) (b1\<lparr>b_ClosedAt := t\<rparr>)"
    using moved_same [OF ok(4) r(3)] r(2) by (simp add: b1_def)
  ultimately show "\<exists>b' b''. fst ?u = Inr (Some b') \<and> (\<exists>t. same_batch (transitioned t to mu b) b') \<and>
      same_batch b' b'' \<and> pg_batches (pc_db c (snd ?u)) = (pg_batches (pc_db c s))(uid \<mapsto> b'')"
    using written_same [OF ok(4) r(3) b1_def, of t] by (auto simp: write_batch_map r(1))
qed

sublocale ms: membership_reader "pgMember c" "\<lambda>s. map scan_member (db_members (pc_db c s))" "\<lambda>s. True"
proof
  fix s b tx
  show "fst (SumNotional (pgMember c) b s) = Inr (notional_of b (map scan_member (db_members (pc_db c s))))"
    using query_live [of "\<lambda>now db. Inr (sum_list (map mr_notional_usd (filter (\<lambda>r. mr_batch_id r = b) (db_members db))))" s]
    by (simp add: pgMember_def pg_SumNotional_def notional_of_def filter_map comp_def scan_member_def)
  show "fst (ExistsByTxID (pgMember c) tx s) = Inr (tx \<in> m_TxID ` set (map scan_member (db_members (pc_db c s))))"
    using query_live [of "\<lambda>now db. Inr (list_ex (\<lambda>r. mr_tx_id r = tx) (db_members db))" s]
    by (auto simp: pgMember_def pg_ExistsByTxID_def list_ex_iff scan_member_def image_iff)
  show "\<exists>ms. fst (ListMemberships (pgMember c) b s) = Inr ms \<and>
      set ms = {m \<in> set (map scan_member (db_members (pc_db c s))). m_BatchID m = b}"
    using query_live [of "\<lambda>now db. Inr (map scan_member (sort_key mr_id (filter (\<lambda>r. mr_batch_id r = b) (db_members db))))" s]
    by (auto simp: pgMember_def pg_ListMemberships_def scan_member_def image_iff)
qed (simp_all add: pgMember_def pg_SumNotional_def pg_ExistsByTxID_def pg_ListMemberships_def)

end

end
