(* ===== verification/Pg_Stores.thy ===== *)
theory Pg_Stores
  imports Pg_Batch Mem_Funding Mem_Float Mem_Outbox
begin

text \<open>
  The other Postgres stores of \<^verbatim>\<open>internal/store/postgres/postgres.go\<close>: parent orders,
  funding requests, float positions, rebalancing jobs and the outbox. Every pointer they return
  is a fresh copy. The update statements do not report whether a row was there.
\<close>

section \<open>Parent orders\<close>

definition scan_order :: "tstz \<Rightarrow> order_row \<Rightarrow> AggregateOrder" where
  "scan_order now r = \<lparr>o_ID = or_id r, o_BatchID = or_batch_id r, o_AssetPair = or_asset_pair r, o_Side = or_side r,
     o_NotionalUSD = or_notional_usd r, o_VenueRoutes = or_venue_routes r, o_FillPrice = or_fill_price r,
     o_TotalFilled = or_total_filled r, o_HedgedNotional = or_hedged_notional r, o_Status = or_status r,
     o_CreatedAt = of_tstz (or_created_at r), o_SettledAt = of_tstz (coalesce (or_settled_at r) now)\<rparr>"

definition pg_GetOrderByBatch :: "'s PgConn \<Rightarrow> uuid \<Rightarrow> 's \<Rightarrow> (error + ('s, AggregateOrder) ptr) \<times> 's" where
  "pg_GetOrderByBatch c batchID =
     query c (\<lambda>now db. case rowmap or_batch_id (db_orders db) batchID of
       None \<Rightarrow> Inl ErrNotFound
     | Some r \<Rightarrow> Inr (\<lambda>_. scan_order now r))"

definition insert_order :: "uuid \<Rightarrow> AggregateOrder \<Rightarrow> tstz \<Rightarrow> PgDb \<Rightarrow> (error + unit) \<times> PgDb" where
  "insert_order uid ord now db =
     (if o_BatchID ord \<in> or_batch_id ` set (db_orders db) then (Inr (), db)
      else if uid \<in> or_id ` set (db_orders db) then (Inl unique_violation, db)
      else if o_BatchID ord \<notin> br_id ` set (db_batches db) then (Inl foreign_key_violation, db)
      else (Inr (), db\<lparr>db_orders := db_orders db @
        [\<lparr>or_id = uid, or_batch_id = o_BatchID ord, or_asset_pair = o_AssetPair ord,
          or_side = (if o_Side ord = [] then ''BUY'' else o_Side ord), or_notional_usd = o_NotionalUSD ord,
          or_venue_routes = o_VenueRoutes ord, or_fill_price = o_FillPrice ord,
          or_total_filled = o_TotalFilled ord, or_hedged_notional = o_HedgedNotional ord,
          or_status = (if o_Status ord = AggregateUnset then AggregateExecuting else o_Status ord),
          or_created_at = now, or_settled_at = None\<rparr>]\<rparr>))"

definition pg_CreateOrder :: "'s PgConn \<Rightarrow> AggregateOrder \<Rightarrow> 's \<Rightarrow> (error + ('s, AggregateOrder) ptr) \<times> 's" where
  "pg_CreateOrder c ord s =
     (let (uid, s1) = (if o_ID ord = [] then NewV7 (pc_rt c) s else (o_ID ord, s))
      in then_do (exec_sql c (insert_order uid ord)) (\<lambda>_. pg_GetOrderByBatch c (o_BatchID ord)) s1)"

definition pg_ListOrders :: "'s PgConn \<Rightarrow> string \<Rightarrow> 's \<Rightarrow> (error + AggregateOrder list) \<times> 's" where
  "pg_ListOrders c status =
     query c (\<lambda>now db. Inr (map (scan_order now) (sort_key or_id
       (filter (\<lambda>r. status \<noteq> [] \<longrightarrow> AggregateStatus_str (or_status r) = status) (db_orders db)))))"

definition pg_UpdateOrderFill ::
  "'s PgConn \<Rightarrow> uuid \<Rightarrow> decimal \<Rightarrow> decimal \<Rightarrow> VenueRoute list \<Rightarrow> 's \<Rightarrow> (error + ('s, AggregateOrder) ptr) \<times> 's"
where
  "pg_UpdateOrderFill c batchID fillPrice totalFilled routes =
     then_do (exec_sql c (\<lambda>now db. (Inr (), db\<lparr>db_orders := update_rows or_batch_id batchID
         (\<lambda>r. r\<lparr>or_venue_routes := routes, or_fill_price := fillPrice, or_total_filled := totalFilled\<rparr>) (db_orders db)\<rparr>)))
       (\<lambda>_. pg_GetOrderByBatch c batchID)"

definition pg_SettleOrder :: "'s PgConn \<Rightarrow> uuid \<Rightarrow> decimal \<Rightarrow> 's \<Rightarrow> (error + ('s, AggregateOrder) ptr) \<times> 's" where
  "pg_SettleOrder c batchID hedged =
     then_do (exec_sql c (\<lambda>now db. (Inr (), db\<lparr>db_orders := update_rows or_batch_id batchID
         (\<lambda>r. r\<lparr>or_hedged_notional := hedged, or_status := AggregateSettled, or_settled_at := Some now\<rparr>) (db_orders db)\<rparr>)))
       (\<lambda>_. pg_GetOrderByBatch c batchID)"

definition pgOrder :: "'s PgConn \<Rightarrow> 's AggregateOrderStore" where
  "pgOrder c = \<lparr>CreateOrder = pg_CreateOrder c, GetOrderByBatch = pg_GetOrderByBatch c, ListOrders = pg_ListOrders c,
     UpdateOrderFill = pg_UpdateOrderFill c, SettleOrder = pg_SettleOrder c\<rparr>"

section \<open>Funding requests\<close>

definition scan_funding :: "tstz \<Rightarrow> funding_row \<Rightarrow> FundingRequest" where
  "scan_funding now r = \<lparr>fr_ID = fu_id r, fr_WalletID = fu_wallet_id r, fr_Asset = fu_asset r,
     fr_Amount = fu_amount r, fr_Status = fu_status r, fr_SourceVenue = fu_source_venue r,
     fr_CreatedAt = of_tstz (fu_created_at r), fr_CompletedAt = of_tstz (coalesce (fu_completed_at r) now)\<rparr>"

definition insert_funding :: "uuid \<Rightarrow> FundingRequest \<Rightarrow> FundingStatus \<Rightarrow> tstz \<Rightarrow> PgDb \<Rightarrow> (error + tstz) \<times> PgDb" where
  "insert_funding uid f status now db =
     (if uid \<in> fu_id ` set (db_fundings db) then (Inl unique_violation, db)
      else (Inr now, db\<lparr>db_fundings := db_fundings db @
        [\<lparr>fu_id = uid, fu_wallet_id = fr_WalletID f, fu_asset = fr_Asset f, fu_amount = fr_Amount f,
          fu_status = status, fu_source_venue = fr_SourceVenue f, fu_created_at = now, fu_completed_at = None\<rparr>]\<rparr>))"

definition pg_CreateFunding :: "'s PgConn \<Rightarrow> FundingRequest \<Rightarrow> 's \<Rightarrow> (error + ('s, FundingRequest) ptr) \<times> 's" where
  "pg_CreateFunding c f s =
     (let status = (if fr_Status f = FundingUnset then FundingPending else fr_Status f);
          (uid, s1) = NewV7 (pc_rt c) s
      in then_do (exec_sql c (insert_funding uid f status))
           (\<lambda>createdAt s2. (Inr (\<lambda>_. f\<lparr>fr_ID := uid, fr_Status := status, fr_CreatedAt := of_tstz createdAt\<rparr>), s2)) s1)"

definition pg_GetFunding :: "'s PgConn \<Rightarrow> uuid \<Rightarrow> 's \<Rightarrow> (error + ('s, FundingRequest) ptr) \<times> 's" where
  "pg_GetFunding c uid =
     query c (\<lambda>now db. case rowmap fu_id (db_fundings db) uid of
       None \<Rightarrow> Inl ErrNotFound
     | Some r \<Rightarrow> Inr (\<lambda>_. scan_funding now r))"

definition pg_UpdateFundingStatus :: "'s PgConn \<Rightarrow> uuid \<Rightarrow> FundingStatus \<Rightarrow> 's \<Rightarrow> (error + unit) \<times> 's" where
  "pg_UpdateFundingStatus c uid status =
     exec_sql c (\<lambda>now db. (Inr (), db\<lparr>db_fundings := update_rows fu_id uid
       (\<lambda>r. if status = FundingCompleted \<or> status = FundingRejected
            then r\<lparr>fu_status := status, fu_completed_at := Some now\<rparr> else r\<lparr>fu_status := status\<rparr>) (db_fundings db)\<rparr>))"

definition pg_ListFunding :: "'s PgConn \<Rightarrow> string \<Rightarrow> 's \<Rightarrow> (error + FundingRequest list) \<times> 's" where
  "pg_ListFunding c status =
     query c (\<lambda>now db. Inr (map (scan_funding now) (sort_key fu_id
       (filter (\<lambda>r. status \<noteq> [] \<longrightarrow> FundingStatus_str (fu_status r) = status) (db_fundings db)))))"

definition pgFunding :: "'s PgConn \<Rightarrow> 's FundingStore" where
  "pgFunding c = \<lparr>CreateFunding = pg_CreateFunding c, GetFunding = pg_GetFunding c,
     UpdateFundingStatus = pg_UpdateFundingStatus c, ListFunding = pg_ListFunding c\<rparr>"

section \<open>Float positions\<close>

definition of_currency :: "string \<Rightarrow> PgDb \<Rightarrow> float_row list" where
  "of_currency fiat db = filter (\<lambda>r. fl_fiat_currency r = fiat) (db_floats db)"

definition max_or :: "'a::linorder \<Rightarrow> 'a list \<Rightarrow> 'a" where
  "max_or d xs = (case xs of [] \<Rightarrow> d | x # ys \<Rightarrow> fold max ys x)"

text \<open>The row of the two aggregate queries.\<close>

definition float_totals :: "tstz \<Rightarrow> PgDb \<Rightarrow> string \<Rightarrow> FloatPosition" where
  "float_totals now db fiat =
     (blank_float fiat (max_or [] (map fl_long_crypto_asset (of_currency fiat db))))
       \<lparr>fp_ShortFiatAmount := sum_list (map fl_short_fiat_amount (of_currency fiat db)),
        fp_LongCryptoAmount := sum_list (map fl_long_crypto_amount (of_currency fiat db)),
        fp_SettlementDueAt := of_tstz (max_or now (map fl_settlement_due_at (of_currency fiat db)))\<rparr>"

definition pg_GetFloat :: "'s PgConn \<Rightarrow> string \<Rightarrow> 's \<Rightarrow> (error + FloatPosition) \<times> 's" where
  "pg_GetFloat c fiat = query c (\<lambda>now db. Inr (float_totals now db fiat))"

definition pg_ListFloat :: "'s PgConn \<Rightarrow> 's \<Rightarrow> (error + FloatPosition list) \<times> 's" where
  "pg_ListFloat c =
     query c (\<lambda>now db. Inr (map (float_totals now db) (sort (remdups (map fl_fiat_currency (db_floats db))))))"

definition accumulate_float :: "tstz \<Rightarrow> uuid \<Rightarrow> FloatPosition \<Rightarrow> PgDb \<Rightarrow> PgDb" where
  "accumulate_float now uid p db =
     db\<lparr>db_floats := update_rows fl_id uid (\<lambda>r. r\<lparr>fl_short_fiat_amount := fl_short_fiat_amount r + fp_ShortFiatAmount p,
       fl_long_crypto_amount := fl_long_crypto_amount r + fp_LongCryptoAmount p,
       fl_long_crypto_asset := fp_LongCryptoAsset p, fl_settlement_due_at := to_tstz (fp_SettlementDueAt p),
       fl_updated_at := now\<rparr>) (db_floats db)\<rparr>"

definition insert_float :: "tstz \<Rightarrow> uuid \<Rightarrow> FloatPosition \<Rightarrow> PgDb \<Rightarrow> error + PgDb" where
  "insert_float now uid p db =
     (if uid \<in> fl_id ` set (db_floats db) then Inl unique_violation
      else Inr (db\<lparr>db_floats := db_floats db @
        [\<lparr>fl_id = uid, fl_fiat_currency = fp_FiatCurrency p, fl_short_fiat_amount = fp_ShortFiatAmount p,
          fl_long_crypto_amount = fp_LongCryptoAmount p, fl_long_crypto_asset = fp_LongCryptoAsset p,
          fl_settlement_due_at = to_tstz (fp_SettlementDueAt p), fl_settled = False, fl_batch_id = fp_BatchID p,
          fl_created_at = now, fl_updated_at = now\<rparr>]\<rparr>))"

definition pg_AddFloat :: "'s PgConn \<Rightarrow> FloatPosition \<Rightarrow> 's \<Rightarrow> (error + ('s, FloatPosition) ptr) \<times> 's" where
  "pg_AddFloat c p =
     begin_tx c (\<lambda>now. stmt c (\<lambda>s.
       case find (\<lambda>r. fl_fiat_currency r = fp_FiatCurrency p \<and> \<not> fl_settled r) (db_floats (pc_db c s)) of
         Some r \<Rightarrow>
           stmt c (\<lambda>s1. then_do (commit c (accumulate_float now (fl_id r) p (pc_db c s1)) ())
             (\<lambda>_. then_do (pg_GetFloat c (fp_FiatCurrency p)) (\<lambda>q s3. (Inr (\<lambda>_. q), s3))) s1) s
       | None \<Rightarrow>
           let (uid, s1) = NewV7 (pc_rt c) s
           in stmt c (\<lambda>s2. case insert_float now uid p (pc_db c s2) of
                Inl e \<Rightarrow> (Inl e, s2)
              | Inr db \<Rightarrow> commit c db (\<lambda>_. p\<lparr>fp_ID := uid\<rparr>) s2) s1))"

definition scan_float :: "float_row \<Rightarrow> FloatPosition" where
  "scan_float r = \<lparr>fp_ID = fl_id r, fp_FiatCurrency = fl_fiat_currency r,
     fp_ShortFiatAmount = fl_short_fiat_amount r, fp_LongCryptoAmount = fl_long_crypto_amount r,
     fp_LongCryptoAsset = fl_long_crypto_asset r, fp_SettlementDueAt = of_tstz (fl_settlement_due_at r),
     fp_Settled = fl_settled r, fp_BatchID = fl_batch_id r, fp_CreatedAt = of_tstz (fl_created_at r),
     fp_UpdatedAt = of_tstz (fl_updated_at r)\<rparr>"

text \<open>The two queries that call \<^verbatim>\<open>uuid_nil()\<close> are refused when the function is missing.\<close>

definition pg_ListMaturedFloat :: "'s PgConn \<Rightarrow> time \<Rightarrow> 's \<Rightarrow> (error + FloatPosition list) \<times> 's" where
  "pg_ListMaturedFloat c before =
     query c (\<lambda>now db. if \<not> db_uuid_nil db then Inl undefined_function
       else Inr (map scan_float (sort_key fl_id
         (filter (\<lambda>r. \<not> fl_settled r \<and> fl_settlement_due_at r \<le> to_tstz before) (db_floats db)))))"

definition pg_SettleFloat :: "'s PgConn \<Rightarrow> uuid \<Rightarrow> 's \<Rightarrow> (error + ('s, FloatPosition) ptr) \<times> 's" where
  "pg_SettleFloat c uid =
     then_do (exec_sql c (\<lambda>now db. (Inr (), db\<lparr>db_floats := update_rows fl_id uid
         (\<lambda>r. r\<lparr>fl_short_fiat_amount := 0, fl_long_crypto_amount := 0, fl_settled := True, fl_updated_at := now\<rparr>)
         (db_floats db)\<rparr>)))
       (\<lambda>_. query c (\<lambda>now db. if \<not> db_uuid_nil db then Inl undefined_function
          else case rowmap fl_id (db_floats db) uid of
            None \<Rightarrow> Inl (External ''no rows in result set'')
          | Some r \<Rightarrow> Inr (\<lambda>_. scan_float r)))"

definition pgFloat :: "'s PgConn \<Rightarrow> 's FloatStore" where
  "pgFloat c = \<lparr>AddFloat = pg_AddFloat c, GetFloat = pg_GetFloat c, ListFloat = pg_ListFloat c,
     ListMaturedFloat = pg_ListMaturedFloat c, SettleFloat = pg_SettleFloat c\<rparr>"

section \<open>Rebalancing jobs\<close>

definition scan_job :: "tstz \<Rightarrow> job_row \<Rightarrow> RebalancingJob" where
  "scan_job now r = \<lparr>rj_ID = jr_id r, rj_FromRef = jr_from_ref r, rj_ToRef = jr_to_ref r, rj_Asset = jr_asset r,
     rj_Amount = jr_amount r, rj_Status = jr_status r, rj_Reason = jr_reason r,
     rj_CreatedAt = of_tstz (jr_created_at r), rj_CompletedAt = of_tstz (coalesce (jr_completed_at r) now)\<rparr>"

definition insert_job :: "uuid \<Rightarrow> RebalancingJob \<Rightarrow> RebalanceStatus \<Rightarrow> tstz \<Rightarrow> PgDb \<Rightarrow> (error + tstz) \<times> PgDb" where
  "insert_job uid j status now db =
     (if uid \<in> jr_id ` set (db_jobs db) then (Inl unique_violation, db)
      else (Inr now, db\<lparr>db_jobs := db_jobs db @
        [\<lparr>jr_id = uid, jr_from_ref = rj_FromRef j, jr_to_ref = rj_ToRef j, jr_asset = rj_Asset j,
          jr_amount = rj_Amount j, jr_status = status, jr_reason = rj_Reason j, jr_created_at = now,
          jr_completed_at = None\<rparr>]\<rparr>))"

definition pg_CreateJob :: "'s PgConn \<Rightarrow> RebalancingJob \<Rightarrow> 's \<Rightarrow> (error + ('s, RebalancingJob) ptr) \<times> 's" where
  "pg_CreateJob c j s =
     (let status = (if rj_Status j = RebalanceUnset then RebalancePending else rj_Status j);
          (uid, s1) = NewV7 (pc_rt c) s
      in then_do (exec_sql c (insert_job uid j status))
           (\<lambda>createdAt s2. (Inr (\<lambda>_. j\<lparr>rj_ID := uid, rj_Status := status, rj_CreatedAt := of_tstz createdAt\<rparr>), s2)) s1)"

definition pg_ListJobs :: "'s PgConn \<Rightarrow> string \<Rightarrow> 's \<Rightarrow> (error + RebalancingJob list) \<times> 's" where
  "pg_ListJobs c status =
     query c (\<lambda>now db. Inr (map (scan_job now) (sort_key jr_id
       (filter (\<lambda>r. status \<noteq> [] \<longrightarrow> RebalanceStatus_str (jr_status r) = status) (db_jobs db)))))"

definition pg_UpdateJobStatus :: "'s PgConn \<Rightarrow> uuid \<Rightarrow> RebalanceStatus \<Rightarrow> 's \<Rightarrow> (error + unit) \<times> 's" where
  "pg_UpdateJobStatus c uid status =
     exec_sql c (\<lambda>now db. (Inr (), db\<lparr>db_jobs := update_rows jr_id uid
       (\<lambda>r. if status = RebalanceCompleted \<or> status = RebalanceRejected
            then r\<lparr>jr_status := status, jr_completed_at := Some now\<rparr> else r\<lparr>jr_status := status\<rparr>) (db_jobs db)\<rparr>))"

definition pgRebalance :: "'s PgConn \<Rightarrow> 's RebalancingStore" where
  "pgRebalance c = \<lparr>CreateJob = pg_CreateJob c, ListJobs = pg_ListJobs c, UpdateJobStatus = pg_UpdateJobStatus c\<rparr>"

section \<open>The outbox\<close>

definition scan_entry :: "tstz \<Rightarrow> outbox_row \<Rightarrow> OutboxEntry" where
  "scan_entry now r = \<lparr>oe_ID = ob_id r, oe_Aggregate = ob_aggregate r, oe_EventType = ob_event_type r,
     oe_DedupKey = ob_dedup_key r, oe_Payload = ob_payload r, oe_CreatedAt = of_tstz (ob_created_at r),
     oe_EmittedAt = of_tstz (coalesce (ob_emitted_at r) now)\<rparr>"

text \<open>A payload that is not JSON is refused before the key is looked at.\<close>

definition insert_entry :: "(string \<Rightarrow> string option) \<Rightarrow> uuid \<Rightarrow> OutboxEntry \<Rightarrow> PgDb \<Rightarrow> (error + bool) \<times> PgDb" where
  "insert_entry jsonb uid e db =
     (case jsonb (oe_Payload e) of
        None \<Rightarrow> (Inl invalid_parameter, db)
      | Some payload \<Rightarrow>
          if oe_DedupKey e \<in> ob_dedup_key ` set (db_outbox db) then (Inr False, db)
          else if uid \<in> ob_id ` set (db_outbox db) then (Inl unique_violation, db)
          else (Inr True, db\<lparr>db_outbox := db_outbox db @
            [\<lparr>ob_id = uid, ob_aggregate = oe_Aggregate e, ob_event_type = oe_EventType e,
              ob_dedup_key = oe_DedupKey e, ob_payload = payload, ob_created_at = to_tstz (oe_CreatedAt e),
              ob_emitted_at = None\<rparr>]\<rparr>))"

definition pg_Append :: "'s PgConn \<Rightarrow> OutboxEntry \<Rightarrow> 's \<Rightarrow> (error + bool) \<times> 's" where
  "pg_Append c e s =
     (let (uid, s1) = NewV7 (pc_rt c) s in exec_sql c (\<lambda>now. insert_entry (pc_jsonb c) uid e) s1)"

definition pg_ListPending :: "'s PgConn \<Rightarrow> int \<Rightarrow> 's \<Rightarrow> (error + OutboxEntry list) \<times> 's" where
  "pg_ListPending c limit =
     query c (\<lambda>now db. if limit < 0 then Inl invalid_parameter
       else Inr (map (scan_entry now) (take (nat limit) (sort_key ob_id
         (filter (\<lambda>r. ob_emitted_at r = None) (db_outbox db))))))"

definition pg_MarkEmitted :: "'s PgConn \<Rightarrow> uuid \<Rightarrow> 's \<Rightarrow> (error + unit) \<times> 's" where
  "pg_MarkEmitted c uid =
     exec_sql c (\<lambda>now db. (Inr (), db\<lparr>db_outbox :=
       update_rows ob_id uid (\<lambda>r. r\<lparr>ob_emitted_at := Some now\<rparr>) (db_outbox db)\<rparr>))"

definition pgOutbox :: "'s PgConn \<Rightarrow> 's OutboxStore" where
  "pgOutbox c = \<lparr>Append = pg_Append c, ListPending = pg_ListPending c, MarkEmitted = pg_MarkEmitted c\<rparr>"

section \<open>The database\<close>

text \<open>What \<open>Open\<close> returns: the pool and the seven stores over it.\<close>

record 's DB =
  dbs_pool :: "'s PgConn"
  dbs_batch :: "'s BatchStore"
  dbs_membership :: "'s MembershipStore"
  dbs_order :: "'s AggregateOrderStore"
  dbs_funding :: "'s FundingStore"
  dbs_float :: "'s FloatStore"
  dbs_rebalance :: "'s RebalancingStore"
  dbs_outbox :: "'s OutboxStore"

definition NewDB :: "'s PgConn \<Rightarrow> 's DB" where
  "NewDB c = \<lparr>dbs_pool = c, dbs_batch = pgBatch c, dbs_membership = pgMember c, dbs_order = pgOrder c,
     dbs_funding = pgFunding c, dbs_float = pgFloat c, dbs_rebalance = pgRebalance c, dbs_outbox = pgOutbox c\<rparr>"

end
