(* ===== verification/Pg_World.thy ===== *)
theory Pg_World
  imports Pg_Stores Float_Tracker
begin

text \<open>
  The state of the service on Postgres: the tables, the clock of the server, the count of
  round trips, and what the process keeps itself (its clock, its identifiers, its key store and
  its metrics). The connection on it takes the fate of every round trip as a parameter; with no
  failures it is live, and then the scheduler and the float tracker get the contracts they
  are written against, so their lemmas hold on Postgres as they do in memory.
\<close>

section \<open>The state\<close>

record pg_world =
  g_clock :: "nat \<Rightarrow> time"
  g_reads :: nat
  g_ids :: "nat \<Rightarrow> uuid"
  g_idn :: nat
  g_metrics :: "metric list"
  g_idem :: MemStore
  g_server :: "nat \<Rightarrow> tstz"
  g_nows :: nat
  g_trips :: nat
  g_db :: PgDb

definition pg_rt :: "(float64 \<Rightarrow> decimal) \<Rightarrow> pg_world Rt" where
  "pg_rt dec = \<lparr>
     Now = (\<lambda>w. (g_clock w (g_reads w), w\<lparr>g_reads := Suc (g_reads w)\<rparr>)),
     NewV7 = (\<lambda>w. (g_ids w (g_idn w), w\<lparr>g_idn := Suc (g_idn w)\<rparr>)),
     NewFromFloat = dec,
     Metric = (\<lambda>x w. w\<lparr>g_metrics := g_metrics w @ [x]\<rparr>)\<rparr>"

definition pool ::
  "(float64 \<Rightarrow> decimal) \<Rightarrow> (nat \<Rightarrow> error option) \<Rightarrow> (string \<Rightarrow> string option) \<Rightarrow> pg_world PgConn" where
  "pool dec faults jsonb = \<lparr>
     pc_rt = pg_rt dec,
     pc_trip = (\<lambda>w. (faults (g_trips w), w\<lparr>g_trips := Suc (g_trips w)\<rparr>)),
     pc_now = (\<lambda>w. (g_server w (g_nows w), w\<lparr>g_nows := Suc (g_nows w)\<rparr>)),
     pc_db = g_db,
     pc_put = (\<lambda>db. g_db_update (\<lambda>_. db)),
     pc_jsonb = jsonb\<rparr>"

abbreviation no_faults :: "nat \<Rightarrow> error option" where
  "no_faults \<equiv> \<lambda>_. None"

definition NewTables :: PgDb where
  "NewTables = \<lparr>db_batches = [], db_members = [], db_orders = [], db_fundings = [], db_floats = [], db_jobs = [],
     db_outbox = [], db_uuid_nil = False\<rparr>"

lemma pg_rt_simps [simp]:
  "Now (pg_rt dec) w = (g_clock w (g_reads w), w\<lparr>g_reads := Suc (g_reads w)\<rparr>)"
  "NewV7 (pg_rt dec) w = (g_ids w (g_idn w), w\<lparr>g_idn := Suc (g_idn w)\<rparr>)"
  "NewFromFloat (pg_rt dec) = dec"
  "Metric (pg_rt dec) x w = w\<lparr>g_metrics := g_metrics w @ [x]\<rparr>"
  by (simp_all add: pg_rt_def)

lemma pool_simps [simp]:
  "pc_rt (pool dec fs j) = pg_rt dec" "pc_db (pool dec fs j) w = g_db w"
  "pc_trip (pool dec fs j) w = (fs (g_trips w), w\<lparr>g_trips := Suc (g_trips w)\<rparr>)"
  "pc_now (pool dec fs j) w = (g_server w (g_nows w), w\<lparr>g_nows := Suc (g_nows w)\<rparr>)"
  "pc_put (pool dec fs j) db w = w\<lparr>g_db := db\<rparr>" "pc_jsonb (pool dec fs j) = j"
  by (simp_all add: pool_def)

interpretation pgc: pg_conn "pool dec faults jsonb" for dec faults jsonb
  by unfold_locales simp_all

interpretation pgl: pg_live "pool dec no_faults jsonb" for dec jsonb
  by unfold_locales simp

interpretation pgi: idem_slot "pg_rt dec" g_idem "\<lambda>m. g_idem_update (\<lambda>_. m)" for dec
  by unfold_locales simp_all

section \<open>The scheduler on Postgres\<close>

abbreviation Pg_sched ::
  "Config \<Rightarrow> (float64 \<Rightarrow> decimal) \<Rightarrow> (string \<Rightarrow> string option) \<Rightarrow> duration
   \<Rightarrow> (Batch \<Rightarrow> CloseReason \<Rightarrow> pg_world \<Rightarrow> pg_world) option \<Rightarrow> pg_world SchedDeps" where
  "Pg_sched cfg dec jsonb ttl hook \<equiv>
     \<lparr>sd_Cfg = cfg, sd_Batches = pgBatch (pool dec no_faults jsonb), sd_Memberships = pgMember (pool dec no_faults jsonb),
      sd_Lock = NewCadenceLock (memIdem (pg_rt dec) g_idem (\<lambda>m. g_idem_update (\<lambda>_. m))) ttl, sd_OnClose = hook\<rparr>"

interpretation pgsched: scheduler_env "Pg_sched cfg dec jsonb ttl hook" "\<lambda>w. pg_batches (g_db w)"
  "\<lambda>w. map scan_member (db_members (g_db w))" "\<lambda>w. True" "pg_rt dec" for cfg dec jsonb ttl hook
  using pgl.bs.batch_store_axioms [of dec jsonb] pgl.ms.membership_reader_axioms [of dec jsonb]
  by (simp add: pgc.query_db [of dec no_faults jsonb, simplified] scheduler_env_def scheduler_env_axioms_def pgMember_def pgBatch_def pg_SumNotional_def pg_GetBatch_def)

end
