(* ===== verification/Pg_Facts.thy ===== *)
theory Pg_Facts
  imports Pg_World World
begin

text \<open>
  What holds of the Postgres stores: a write that returns an error has changed nothing, the
  scheduler closes a batch on Postgres exactly as it does in memory, what is written is read
  back, and what a sweep does with and without the function \<^verbatim>\<open>uuid_nil()\<close>.
\<close>

section \<open>Failed writes\<close>

context pg_conn
begin

lemma steps_db:
  "pc_trip c s = (x, s1) \<Longrightarrow> pc_db c s1 = pc_db c s" "pc_now c s = (now, s1) \<Longrightarrow> pc_db c s1 = pc_db c s"
  "NewV7 (pc_rt c) s = (uid, s1) \<Longrightarrow> pc_db c s1 = pc_db c s" "Now (pc_rt c) s = (t, s1) \<Longrightarrow> pc_db c s1 = pc_db c s"
  using db_trip [of s] db_now [of s] db_NewV7 [of s] db_Now [of s] by simp_all

lemmas transactions = begin_tx_def commit_def stmt_def exec_sql_def Let_def

lemma open_failed: "pg_OpenBatch c p s = (Inl e, s') \<Longrightarrow> pc_db c s' = pc_db c s"
  by (auto simp: pg_OpenBatch_def transactions dest!: steps_db split: option.splits prod.splits sum.splits)

lemma update_failed: "pg_UpdateBatchStatus c uid from to mu s = (Inl e, s') \<Longrightarrow> pc_db c s' = pc_db c s"
  by (auto simp: pg_UpdateBatchStatus_def transactions dest!: steps_db split: option.splits prod.splits sum.splits if_splits)

lemma add_failed: "pg_AddMembership c m s = (Inl e, s') \<Longrightarrow> pc_db c s' = pc_db c s"
  by (auto simp: pg_AddMembership_def transactions dest!: steps_db split: option.splits prod.splits sum.splits)

lemma append_failed: "pg_Append c en s = (Inl e, s') \<Longrightarrow> pc_db c s' = pc_db c s"
  by (auto simp: pg_Append_def transactions dest!: steps_db split: option.splits prod.splits sum.splits)

lemma single_failed:
  "pg_SetBatchNotional c uid n s = (Inl e, s') \<Longrightarrow> pc_db c s' = pc_db c s"
  "pg_MarkEmitted c uid s = (Inl e, s') \<Longrightarrow> pc_db c s' = pc_db c s"
  "pg_UpdateFundingStatus c uid fst' s = (Inl e, s') \<Longrightarrow> pc_db c s' = pc_db c s"
  "pg_UpdateJobStatus c uid jst s = (Inl e, s') \<Longrightarrow> pc_db c s' = pc_db c s"
  unfolding pg_SetBatchNotional_def pg_MarkEmitted_def pg_UpdateFundingStatus_def pg_UpdateJobStatus_def
  by (rule exec_failed, assumption)+

lemma create_failed:
  "pg_CreateFunding c f s = (Inl e, s') \<Longrightarrow> pc_db c s' = pc_db c s"
  "pg_CreateJob c j s = (Inl e, s') \<Longrightarrow> pc_db c s' = pc_db c s"
  by (auto simp: pg_CreateFunding_def pg_CreateJob_def then_do_def transactions dest!: steps_db
      split: option.splits prod.splits sum.splits)

end

section \<open>Postgres and memory\<close>

text \<open>Two maps of batches that agree up to the instants of closing.\<close>

definition agree :: "(uuid \<Rightarrow> Batch option) \<Rightarrow> (uuid \<Rightarrow> Batch option) \<Rightarrow> bool" where
  "agree m m' \<longleftrightarrow> (\<forall>uid. rel_option same_batch (m uid) (m' uid))"

lemma agree_upd: "agree m m' \<Longrightarrow> same_batch b b' \<Longrightarrow> agree (m(uid \<mapsto> b)) (m'(uid \<mapsto> b'))"
  by (simp add: agree_def)

lemma same_batchI:
  "b_ID b' = b_ID b \<Longrightarrow> b_AssetPair b' = b_AssetPair b \<Longrightarrow> b_Status b' = b_Status b \<Longrightarrow>
   b_NotionalUSD b' = b_NotionalUSD b \<Longrightarrow> b_OpenedAt b' = b_OpenedAt b \<Longrightarrow> same_batch b b'"
  by (cases b; cases b') (simp add: same_batch_def)

text \<open>The close is the same on both stores: the contract determines it.\<close>

lemma close_agrees:
  fixes v :: pg_world and w :: "'x world"
  assumes "agree (pg_batches (g_db v)) (batch_map (w_batch w))" and "member_inv (w_member w)"
    and "notional_of uid (map scan_member (db_members (g_db v))) = notional_of uid (mt_rows (w_member w))"
    and "(r, v') = close_batch (pg_rt dec) (Pg_sched cfg dec jsonb ttl None) uid reason v"
    and "(r', w') = close_batch (world_rt dec) (W_sched cfg dec ttl None) uid reason w"
  shows "rel_sum (=) same_batch r r' \<and> agree (pg_batches (g_db v')) (batch_map (w_batch w'))"
proof -
  let ?p = "close_batch (pg_rt dec) (Pg_sched cfg dec jsonb ttl None) uid reason v"
  let ?m = "close_batch (world_rt dec) (W_sched cfg dec ttl None) uid reason w"
  have eq: "?p = (r, v')" "?m = (r', w')" using assms(4,5) by simp_all
  have rel: "rel_option same_batch (pg_batches (g_db v) uid) (batch_map (w_batch w) uid)"
    using assms(1) by (simp add: agree_def)
  show ?thesis
  proof (cases "batch_map (w_batch w) uid")
    case None
    then have "pg_batches (g_db v) uid = None" using rel by simp
    from pgsched.close_missing [OF this, where cfg = cfg and dec = dec and jsonb = jsonb and ttl = ttl and hook = None and reason = reason]
      wsched.close_missing [OF None, where cfg = cfg and dec = dec and ttl = ttl and hook = None and reason = reason]
    show ?thesis unfolding eq using assms(1) by simp
  next
    case (Some b)
    then obtain b0 where b0: "pg_batches (g_db v) uid = Some b0" "same_batch b0 b"
      using rel by (cases "pg_batches (g_db v) uid") auto
    have st: "b_Status b0 = b_Status b" using same_batchD [OF b0(2)] by simp
    show ?thesis
    proof (cases "b_Status b = BatchOpen")
      case False
      with st have "b_Status b0 \<noteq> BatchOpen" by simp
      from pgsched.close_not_open [OF b0(1) this, where cfg = cfg and dec = dec and jsonb = jsonb and ttl = ttl
          and hook = None and reason = reason]
        wsched.close_not_open [OF Some False, where cfg = cfg and dec = dec and ttl = ttl and hook = None and reason = reason]
      show ?thesis unfolding eq using assms(1) by simp
    next
      case True
      with st have opn: "b_Status b0 = BatchOpen" by simp
      obtain c c'' where c: "r = Inr c" "same_batch c c''" "pg_batches (g_db v') = (pg_batches (g_db v))(uid \<mapsto> c'')"
          "b_Status c = BatchClosed" "b_ID c = b_ID b0" "b_AssetPair c = b_AssetPair b0" "b_OpenedAt c = b_OpenedAt b0"
          "b_NotionalUSD c = notional_of uid (map scan_member (db_members (g_db v)))"
        using pgsched.close_open [OF b0(1) opn, where cfg = cfg and dec = dec and jsonb = jsonb and ttl = ttl
          and hook = None and reason = reason] unfolding eq by auto
      obtain d d'' where d: "r' = Inr d" "same_batch d d''" "batch_map (w_batch w') = (batch_map (w_batch w))(uid \<mapsto> d'')"
          "b_Status d = BatchClosed" "b_ID d = b_ID b" "b_AssetPair d = b_AssetPair b" "b_OpenedAt d = b_OpenedAt b"
          "b_NotionalUSD d = notional_of uid (mt_rows (w_member w))"
        using wsched.close_open [OF Some True assms(2), where cfg = cfg and dec = dec and ttl = ttl
          and hook = None and reason = reason] unfolding eq by auto
      have cd: "same_batch c d" by (rule same_batchI) (use c d same_batchD [OF b0(2)] assms(3) in simp_all)
      then have "same_batch c'' d''" using c(2) d(2) same_batch_sym same_batch_trans by blast
      then show ?thesis unfolding c(1,3) d(1,3) using cd agree_upd [OF assms(1)] by simp
    qed
  qed
qed

section \<open>What is written is read back\<close>

text \<open>A batch that is opened is the one read back, up to the instant of closing.\<close>

lemma find_open_in: "select_open p db = Some r \<Longrightarrow> r \<in> set (db_batches db) \<and> br_status r = BatchOpen \<and> br_asset_pair r = p"
  by (auto simp: select_open_def find_Some_iff)

lemma open_then_get:
  assumes "distinct (map br_id (db_batches (g_db w)))" and "g_ids w (g_idn w) \<notin> br_id ` set (db_batches (g_db w))"
    and "(r, w') = pg_OpenBatch (pool dec no_faults jsonb) p w"
  shows "\<exists>b. r = Inr b \<and> b_AssetPair b = p \<and> b_Status b = BatchOpen \<and>
    (\<exists>b'. fst (pg_GetBatch (pool dec no_faults jsonb) (b_ID b) w') = Inr b' \<and> same_batch b b')"
proof (cases "select_open p (g_db w)")
  case (Some x)
  note x = find_open_in [OF Some]
  have "rowmap br_id (db_batches (g_db w)) (br_id x) = Some x" using rowmap_in_set [OF assms(1)] x by blast
  then show ?thesis
    using assms(3) Some x by (simp add: pg_OpenBatch_def begin_tx_def pg_GetBatch_def query_def)
next
  case None
  then show ?thesis
    using assms(2,3)
    by (simp add: pg_OpenBatch_def begin_tx_def pg_GetBatch_def query_def insert_open_def commit_def rowmap_append)
       (simp add: same_batch_def scan_batch_def)
qed

section \<open>A write that is reported as failed\<close>

text \<open>
  \<open>AddFloat\<close> reads the position back after its commit; when that read fails it returns the
  error although the amounts have been added.
\<close>

lemma add_float_reported_failed:
  assumes "find (\<lambda>r. fl_fiat_currency r = fp_FiatCurrency p \<and> \<not> fl_settled r) (db_floats (g_db w)) = Some r"
    and "faults = (\<lambda>n. if n = g_trips w + 4 then Some e else None)"
  shows "\<exists>now w'. pg_AddFloat (pool dec faults jsonb) p w = (Inl e, w') \<and>
    g_db w' = accumulate_float now (fl_id r) p (g_db w)"
  using assms by (simp add: pg_AddFloat_def begin_tx_def stmt_def then_do_def commit_def pg_GetFloat_def query_def Let_def) blast

section \<open>Sweeping\<close>

text \<open>What a sweep does to a row, but for the instant of the update.\<close>

definition float_view :: "float_row \<Rightarrow> uuid \<times> string \<times> decimal \<times> decimal \<times> tstz \<times> bool" where
  "float_view r = (fl_id r, fl_fiat_currency r, fl_short_fiat_amount r, fl_long_crypto_amount r,
     fl_settlement_due_at r, fl_settled r)"

definition paid_out :: "uuid set \<Rightarrow> float_row \<Rightarrow> float_row" where
  "paid_out ids r = (if fl_id r \<in> ids then r\<lparr>fl_short_fiat_amount := 0, fl_long_crypto_amount := 0, fl_settled := True\<rparr> else r)"

definition pg_short :: "string \<Rightarrow> PgDb \<Rightarrow> decimal" where
  "pg_short fiat db = sum_list (map fl_short_fiat_amount (of_currency fiat db))"

definition pg_matured :: "time \<Rightarrow> float_row \<Rightarrow> bool" where
  "pg_matured before r \<longleftrightarrow> \<not> fl_settled r \<and> fl_settlement_due_at r \<le> to_tstz before"

abbreviation Pg_float ::
  "Config \<Rightarrow> (float64 \<Rightarrow> decimal) \<Rightarrow> (string \<Rightarrow> string option) \<Rightarrow> pg_world FloatDeps" where
  "Pg_float cfg dec jsonb \<equiv> \<lparr>fd_Cfg = cfg, fd_Floats = pgFloat (pool dec no_faults jsonb), fd_OnBreach = None, fd_OnAdjust = None\<rparr>"

lemma settle_live:
  assumes "db_uuid_nil (g_db w)" and "uid \<in> fl_id ` set (db_floats (g_db w))"
  shows "\<exists>q now w'. SettleFloat (pgFloat (pool dec no_faults jsonb)) uid w = (Inr q, w') \<and>
    g_db w' = (g_db w)\<lparr>db_floats := update_rows fl_id uid (\<lambda>r. r\<lparr>fl_short_fiat_amount := 0,
      fl_long_crypto_amount := 0, fl_settled := True, fl_updated_at := now\<rparr>) (db_floats (g_db w))\<rparr>"
proof -
  let ?f = "\<lambda>now r. r\<lparr>fl_short_fiat_amount := 0, fl_long_crypto_amount := 0, fl_settled := True, fl_updated_at := now\<rparr>"
  obtain r where r: "rowmap fl_id (db_floats (g_db w)) uid = Some r"
    using assms(2) by (cases "rowmap fl_id (db_floats (g_db w)) uid") (auto simp: rowmap_None)
  have "rowmap fl_id (update_rows fl_id uid (?f now) (db_floats (g_db w))) uid = Some (?f now r)" for now
    by (subst update_rows_map) (simp_all add: r)
  then show ?thesis
    using assms(1) by (simp add: pgFloat_def pg_SettleFloat_def then_do_def exec_sql_def query_def) blast
qed

lemma sweep_loop_pg:
  assumes "db_uuid_nil (g_db w)" and "fp_ID ` set ps \<subseteq> fl_id ` set (db_floats (g_db w))"
  shows "\<exists>w'. sweep_loop (Pg_float cfg dec jsonb) ps n w = (n + int (length ps), w') \<and>
    map float_view (db_floats (g_db w')) = map (float_view \<circ> paid_out (fp_ID ` set ps)) (db_floats (g_db w))"
  using assms
proof (induction ps arbitrary: n w)
  case Nil
  then show ?case by (simp add: paid_out_def comp_def)
next
  case (Cons p ps)
  have "fp_ID p \<in> fl_id ` set (db_floats (g_db w))" using Cons.prems(2) by simp
  from settle_live [OF Cons.prems(1) this, of dec jsonb] obtain q now w1 where
    w1: "SettleFloat (pgFloat (pool dec no_faults jsonb)) (fp_ID p) w = (Inr q, w1)"
      "g_db w1 = (g_db w)\<lparr>db_floats := update_rows fl_id (fp_ID p) (\<lambda>r. r\<lparr>fl_short_fiat_amount := 0,
        fl_long_crypto_amount := 0, fl_settled := True, fl_updated_at := now\<rparr>) (db_floats (g_db w))\<rparr>" by blast
  have ids: "fl_id ` set (db_floats (g_db w1)) = fl_id ` set (db_floats (g_db w))"
    by (simp add: w1(2) flip: set_map)
  obtain w' where w': "sweep_loop (Pg_float cfg dec jsonb) ps (n + 1) w1 = (n + 1 + int (length ps), w')"
      "map float_view (db_floats (g_db w')) = map (float_view \<circ> paid_out (fp_ID ` set ps)) (db_floats (g_db w1))"
    using Cons.IH [of w1 "n + 1"] Cons.prems ids w1(2) by auto
  have "map (float_view \<circ> paid_out (fp_ID ` set ps)) (db_floats (g_db w1)) =
      map (float_view \<circ> paid_out (fp_ID ` set (p # ps))) (db_floats (g_db w))"
    by (simp add: w1(2) update_rows_def paid_out_def float_view_def)
  with w' w1(1) show ?case by simp
qed

lemma pg_enforce_db: "g_db (enforceBounds (pg_rt dec) (Pg_float cfg dec jsonb) fiat w) = g_db w"
  by (simp add: enforceBounds_def pgFloat_def pg_GetFloat_def query_def breach_def Let_def)

text \<open>A sum over the rows of a currency is a function of the views.\<close>

lemma short_of_views:
  "pg_short fiat db = sum_list (map (\<lambda>(i, c, sh, lo, d, st). if c = fiat then sh else 0) (map float_view (db_floats db)))"
  by (simp add: pg_short_def of_currency_def sum_list_map_filter' comp_def float_view_def)

lemma matured_of_views:
  "filter (pg_matured t) (db_floats db) = [] \<longleftrightarrow>
   (\<forall>(i, c, sh, lo, d, st) \<in> set (map float_view (db_floats db)). st \<or> \<not> d \<le> to_tstz t)"
  by (auto simp: filter_empty_conv pg_matured_def float_view_def)

lemma sweep_pg:
  assumes "distinct (map fl_id (db_floats (g_db w)))" and "now = g_clock w (g_reads w)"
    and "(r, w') = SweepMatured (pg_rt dec) (Pg_float cfg dec jsonb) w"
  shows "\<not> db_uuid_nil (g_db w) \<Longrightarrow> r = Inl undefined_function \<and> g_db w' = g_db w"
    and "db_uuid_nil (g_db w) \<Longrightarrow>
      r = Inr (int (length (filter (pg_matured now) (db_floats (g_db w))))) \<and>
      filter (pg_matured now) (db_floats (g_db w')) = [] \<and>
      pg_short c (g_db w') = pg_short c (g_db w) -
        sum_list (map fl_short_fiat_amount (filter (pg_matured now) (of_currency c (g_db w))))"
proof -
  let ?F = "db_floats (g_db w)"
  let ?ps = "map scan_float (sort_key fl_id (filter (pg_matured now) ?F))"
  show "\<not> db_uuid_nil (g_db w) \<Longrightarrow> r = Inl undefined_function \<and> g_db w' = g_db w"
    using assms(3) by (simp add: SweepMatured_def pgFloat_def pg_ListMaturedFloat_def query_def)
  assume nil: "db_uuid_nil (g_db w)"
  define v where "v = w\<lparr>g_reads := Suc (g_reads w), g_trips := Suc (g_trips w), g_nows := Suc (g_nows w)\<rparr>"
  have list: "ListMaturedFloat (pgFloat (pool dec no_faults jsonb)) now (w\<lparr>g_reads := Suc (g_reads w)\<rparr>) = (Inr ?ps, v)"
    using nil by (simp add: pgFloat_def pg_ListMaturedFloat_def query_def v_def pg_matured_def [abs_def])
  have ids: "fp_ID ` set ?ps = fl_id ` {x \<in> set ?F. pg_matured now x}"
    by (auto simp: scan_float_def image_iff)
  have vdb: "g_db v = g_db w" by (simp add: v_def)
  have sub: "fp_ID ` set ?ps \<subseteq> fl_id ` set (db_floats (g_db v))" using ids vdb by auto
  have nv: "db_uuid_nil (g_db v)" using nil vdb by simp
  from sweep_loop_pg [OF nv sub, of cfg dec jsonb 0] obtain u where
    u: "sweep_loop (Pg_float cfg dec jsonb) ?ps 0 v = (int (length ?ps), u)"
      "map float_view (db_floats (g_db u)) = map (float_view \<circ> paid_out (fp_ID ` set ?ps)) ?F" using vdb by auto
  have w': "r = Inr (int (length ?ps))" "g_db w' = g_db u"
    using assms(2,3) list u(1) by (auto simp: SweepMatured_def pg_enforce_db split: if_splits)
  have mem: "fl_id x \<in> fp_ID ` set ?ps \<longleftrightarrow> pg_matured now x" if "x \<in> set ?F" for x
    using that assms(1) unfolding ids by (auto simp: distinct_map dest: inj_onD)
  have views: "map float_view (db_floats (g_db w')) =
      map (\<lambda>x. float_view (if pg_matured now x then x\<lparr>fl_short_fiat_amount := 0, fl_long_crypto_amount := 0, fl_settled := True\<rparr> else x)) ?F"
    unfolding w'(2) u(2) using mem by (auto simp: paid_out_def simp del: set_map)
  have "filter (pg_matured now) (db_floats (g_db w')) = []"
    unfolding matured_of_views views by (auto simp: float_view_def pg_matured_def)
  moreover have "pg_short c (g_db w') = pg_short c (g_db w) -
        sum_list (map fl_short_fiat_amount (filter (pg_matured now) (of_currency c (g_db w))))"
  proof -
    have after: "pg_short c (g_db w') = sum_list (map (\<lambda>x. if fl_fiat_currency x = c \<and> \<not> pg_matured now x then fl_short_fiat_amount x else 0) ?F)"
      unfolding short_of_views views by (simp add: comp_def float_view_def if_distrib cong: map_cong if_cong)
        (rule arg_cong [where f = sum_list], rule map_cong, auto)
    have due: "sum_list (map fl_short_fiat_amount (filter P (of_currency c db))) =
        sum_list (map (\<lambda>x. if fl_fiat_currency x = c \<and> P x then fl_short_fiat_amount x else 0) (db_floats db))" for P db
      by (simp add: of_currency_def sum_list_map_filter' conj_commute)
    have before: "pg_short c (g_db w) = sum_list (map (\<lambda>x. if fl_fiat_currency x = c then fl_short_fiat_amount x else 0) ?F)"
      by (simp add: pg_short_def of_currency_def sum_list_map_filter')
    have parts: "sum_list (map (\<lambda>x. if fl_fiat_currency x = c then fl_short_fiat_amount x else 0) F) =
        sum_list (map (\<lambda>x. if fl_fiat_currency x = c \<and> \<not> P x then fl_short_fiat_amount x else 0) F) +
        sum_list (map (\<lambda>x. if fl_fiat_currency x = c \<and> P x then fl_short_fiat_amount x else 0) F)" for P F
      by (induction F) auto
    show ?thesis unfolding after before due using parts [of ?F "pg_matured now"] by simp
  qed
  ultimately show "r = Inr (int (length (filter (pg_matured now) ?F))) \<and>
      filter (pg_matured now) (db_floats (g_db w')) = [] \<and>
      pg_short c (g_db w') = pg_short c (g_db w) -
        sum_list (map fl_short_fiat_amount (filter (pg_matured now) (of_currency c (g_db w))))"
    using w'(1) by simp
qed

end
