(* ===== verification/Pg_Ops.thy ===== *)
theory Pg_Ops
  imports Pg_Facts
begin

text \<open>
  The writes of the Postgres stores as one type of operations, so that what holds of every
  sequence of them can be stated once: the constraints of the schema (\<open>tables_ok\<close>), and what is
  never lost or changed (\<open>grows\<close>), whatever round trips fail on the way.
\<close>

section \<open>Operations\<close>

datatype pg_op =
    DoOpenBatch string
  | DoUpdateBatchStatus uuid BatchStatus BatchStatus "(Batch \<Rightarrow> Batch) option"
  | DoSetBatchNotional uuid decimal
  | DoAddMembership Membership
  | DoCreateOrder AggregateOrder
  | DoUpdateOrderFill uuid decimal decimal "VenueRoute list"
  | DoSettleOrder uuid decimal
  | DoCreateFunding FundingRequest
  | DoUpdateFundingStatus uuid FundingStatus
  | DoAddFloat FloatPosition
  | DoSettleFloat uuid
  | DoCreateJob RebalancingJob
  | DoUpdateJobStatus uuid RebalanceStatus
  | DoAppend OutboxEntry
  | DoMarkEmitted uuid

definition err_of :: "(error + 'a) \<times> 's \<Rightarrow> error option \<times> 's" where
  "err_of x = (case fst x of Inl e \<Rightarrow> Some e | Inr _ \<Rightarrow> None, snd x)"

fun pg_do :: "'s PgConn \<Rightarrow> pg_op \<Rightarrow> 's \<Rightarrow> error option \<times> 's" where
  "pg_do c (DoOpenBatch p) s = err_of (pg_OpenBatch c p s)"
| "pg_do c (DoUpdateBatchStatus uid st st' mu) s = err_of (pg_UpdateBatchStatus c uid st st' mu s)"
| "pg_do c (DoSetBatchNotional uid n) s = err_of (pg_SetBatchNotional c uid n s)"
| "pg_do c (DoAddMembership m) s = err_of (pg_AddMembership c m s)"
| "pg_do c (DoCreateOrder ord) s = err_of (pg_CreateOrder c ord s)"
| "pg_do c (DoUpdateOrderFill uid fp tf rs) s = err_of (pg_UpdateOrderFill c uid fp tf rs s)"
| "pg_do c (DoSettleOrder uid h) s = err_of (pg_SettleOrder c uid h s)"
| "pg_do c (DoCreateFunding f) s = err_of (pg_CreateFunding c f s)"
| "pg_do c (DoUpdateFundingStatus uid st) s = err_of (pg_UpdateFundingStatus c uid st s)"
| "pg_do c (DoAddFloat p) s = err_of (pg_AddFloat c p s)"
| "pg_do c (DoSettleFloat uid) s = err_of (pg_SettleFloat c uid s)"
| "pg_do c (DoCreateJob j) s = err_of (pg_CreateJob c j s)"
| "pg_do c (DoUpdateJobStatus uid st) s = err_of (pg_UpdateJobStatus c uid st s)"
| "pg_do c (DoAppend e) s = err_of (pg_Append c e s)"
| "pg_do c (DoMarkEmitted uid) s = err_of (pg_MarkEmitted c uid s)"

text \<open>The caller goes on after an error, as the loops of the service do.\<close>

definition pg_run :: "'s PgConn \<Rightarrow> pg_op list \<Rightarrow> 's \<Rightarrow> 's" where
  "pg_run c ops s = fold (\<lambda>op s. snd (pg_do c op s)) ops s"

text \<open>The operations that read the row back once they have written it.\<close>

fun reads_back :: "pg_op \<Rightarrow> bool" where
  "reads_back (DoCreateOrder _) = True"
| "reads_back (DoUpdateOrderFill _ _ _ _) = True"
| "reads_back (DoSettleOrder _ _) = True"
| "reads_back (DoAddFloat _) = True"
| "reads_back (DoSettleFloat _) = True"
| "reads_back _ = False"

text \<open>The mutators of the service leave the identity, the status and the opening of a batch alone.\<close>

fun op_ok :: "pg_op \<Rightarrow> bool" where
  "op_ok (DoUpdateBatchStatus _ _ _ mu) = mutator_ok mu"
| "op_ok _ = True"

lemma err_of_error: "err_of x = (Some e, s') \<longleftrightarrow> x = (Inl e, s')"
  by (cases x) (auto simp: err_of_def split: sum.splits)

lemma snd_err_of [simp]: "snd (err_of x) = snd x"
  by (simp add: err_of_def)

context pg_conn
begin

lemma failed_write:
  assumes "pg_do c op s = (Some e, s')" and "\<not> reads_back op"
  shows "pc_db c s' = pc_db c s"
  using assms open_failed update_failed single_failed add_failed create_failed append_failed
  by (cases op) (simp_all add: err_of_error)

end

section \<open>The constraints of the schema\<close>

text \<open>The primary keys, the unique columns and the foreign keys of \<^verbatim>\<open>0001_up.sql\<close>.\<close>

definition tables_ok :: "PgDb \<Rightarrow> bool" where
  "tables_ok db \<longleftrightarrow>
     distinct (map br_id (db_batches db)) \<and>
     distinct (map mr_id (db_members db)) \<and> distinct (map mr_tx_id (db_members db)) \<and>
     mr_batch_id ` set (db_members db) \<subseteq> br_id ` set (db_batches db) \<and>
     distinct (map or_id (db_orders db)) \<and> distinct (map or_batch_id (db_orders db)) \<and>
     or_batch_id ` set (db_orders db) \<subseteq> br_id ` set (db_batches db) \<and>
     distinct (map fu_id (db_fundings db)) \<and> distinct (map fl_id (db_floats db)) \<and>
     distinct (map jr_id (db_jobs db)) \<and>
     distinct (map ob_id (db_outbox db)) \<and> distinct (map ob_dedup_key (db_outbox db))"

text \<open>A batch row and what it may become: only its status and its notional move, the status forwards.\<close>

definition row_moved :: "batch_row \<Rightarrow> batch_row \<Rightarrow> bool" where
  "row_moved r r' \<longleftrightarrow> br_id r' = br_id r \<and> br_asset_pair r' = br_asset_pair r \<and> br_opened_at r' = br_opened_at r \<and>
     CanTransitionTo\<^sup>*\<^sup>* (br_status r) (br_status r')"

definition rows_grow :: "batch_row list \<Rightarrow> batch_row list \<Rightarrow> bool" where
  "rows_grow rs rs' \<longleftrightarrow> (\<exists>cs bs. rs' = cs @ bs \<and> list_all2 row_moved rs cs)"

text \<open>No row is removed; members are never changed, nor the batch and the notional of an order.\<close>

definition grows :: "PgDb \<Rightarrow> PgDb \<Rightarrow> bool" where
  "grows db db' \<longleftrightarrow>
     rows_grow (db_batches db) (db_batches db') \<and>
     prefix (db_members db) (db_members db') \<and>
     prefix (map (\<lambda>r. (or_batch_id r, or_notional_usd r)) (db_orders db)) (map (\<lambda>r. (or_batch_id r, or_notional_usd r)) (db_orders db')) \<and>
     prefix (map ob_dedup_key (db_outbox db)) (map ob_dedup_key (db_outbox db'))"

definition evolves :: "PgDb \<Rightarrow> PgDb \<Rightarrow> bool" where
  "evolves db db' \<longleftrightarrow> (tables_ok db \<longrightarrow> tables_ok db' \<and> grows db db')"

lemma row_moved_refl [simp]: "row_moved r r"
  by (simp add: row_moved_def)

lemma row_moved_trans: "row_moved r r' \<Longrightarrow> row_moved r' r'' \<Longrightarrow> row_moved r r''"
  by (auto simp: row_moved_def)

lemma rows_grow_append [simp]: "rows_grow rs (rs @ bs)"
  unfolding rows_grow_def using list.rel_refl [of row_moved rs] by auto

lemma rows_grow_refl [simp]: "rows_grow rs rs"
  using rows_grow_append [of rs "[]"] by simp

lemma rows_grow_trans:
  assumes "rows_grow rs rs'" and "rows_grow rs' rs''"
  shows "rows_grow rs rs''"
proof -
  obtain cs bs where b: "rs' = cs @ bs" "list_all2 row_moved rs cs" using assms(1) by (auto simp: rows_grow_def)
  obtain ds1 ds2 es where d: "rs'' = (ds1 @ ds2) @ es" "list_all2 row_moved cs ds1"
    using assms(2) b(1) by (auto simp: rows_grow_def list_all2_append1)
  have "list_all2 row_moved rs ds1" by (rule list_all2_trans [OF row_moved_trans b(2) d(2)])
  then show ?thesis using d(1) unfolding rows_grow_def by auto
qed

lemma rows_grow_update:
  "(\<And>r. r \<in> set rs \<Longrightarrow> key r = k \<Longrightarrow> row_moved r (f r)) \<Longrightarrow> rows_grow rs (update_rows key k f rs)"
  unfolding rows_grow_def
  by (rule exI [of _ "update_rows key k f rs"]) (auto simp: update_rows_def list_all2_map2 intro!: list_all2_same [THEN iffD2])

lemma grows_refl [simp]: "grows db db"
  by (simp add: grows_def)

lemma grows_trans: "grows db db' \<Longrightarrow> grows db' db'' \<Longrightarrow> grows db db''"
  unfolding grows_def by (elim conjE, intro conjI) (erule (1) rows_grow_trans prefix_order.trans)+

lemma evolves_refl [simp]: "evolves db db"
  by (simp add: evolves_def)

lemma evolves_trans: "evolves db db' \<Longrightarrow> evolves db' db'' \<Longrightarrow> evolves db db''"
  using grows_trans by (auto simp: evolves_def)

section \<open>The statements\<close>

lemma update_rows_image [simp]:
  "(\<And>r. key' (f r) = key' r) \<Longrightarrow> key' ` set (update_rows key k f rows) = key' ` set rows"
  using update_rows_keys [of key' f key k rows] by (metis set_map)

lemmas evolution = evolves_def tables_ok_def grows_def

lemma evolves_open: "insert_open uid p now db = Inr db' \<Longrightarrow> evolves db db'"
  by (clarsimp simp: insert_open_def evolution subset_insertI2 split: if_splits)

lemma evolves_member: "insert_member uid m db = (Inr x, db') \<Longrightarrow> evolves db db'"
  by (clarsimp simp: insert_member_def evolution subset_insertI2 split: if_splits)

lemma evolves_order: "insert_order uid ord now db = (Inr x, db') \<Longrightarrow> evolves db db'"
  by (clarsimp simp: insert_order_def evolution subset_insertI2 split: if_splits)

lemma evolves_entry: "insert_entry j uid e db = (Inr x, db') \<Longrightarrow> evolves db db'"
  by (clarsimp simp: insert_entry_def evolution subset_insertI2 split: if_splits option.splits)

lemma evolves_funding: "insert_funding uid f st now db = (Inr x, db') \<Longrightarrow> evolves db db'"
  by (clarsimp simp: insert_funding_def evolution subset_insertI2 split: if_splits)

lemma evolves_job: "insert_job uid j st now db = (Inr x, db') \<Longrightarrow> evolves db db'"
  by (clarsimp simp: insert_job_def evolution subset_insertI2 split: if_splits)

lemma evolves_float: "insert_float now uid p db = Inr db' \<Longrightarrow> evolves db db'"
  by (clarsimp simp: insert_float_def evolution subset_insertI2 split: if_splits)

text \<open>Updates that leave the keys alone.\<close>

lemma evolves_batches:
  assumes "\<And>r. r \<in> set (db_batches db) \<Longrightarrow> br_id r = k \<Longrightarrow> row_moved r (f r)" and "\<And>r. br_id (f r) = br_id r"
  shows "evolves db (db\<lparr>db_batches := update_rows br_id k f (db_batches db)\<rparr>)"
  using rows_grow_update [of "db_batches db" br_id k f] assms
  by (simp add: evolution)

lemma evolves_orders:
  assumes "\<And>r. or_id (f r) = or_id r" "\<And>r. or_batch_id (f r) = or_batch_id r" "\<And>r. or_notional_usd (f r) = or_notional_usd r"
  shows "evolves db (db\<lparr>db_orders := update_rows key k f (db_orders db)\<rparr>)"
  using assms by (simp add: evolution)

lemma evolves_outbox:
  assumes "\<And>r. ob_id (f r) = ob_id r" "\<And>r. ob_dedup_key (f r) = ob_dedup_key r"
  shows "evolves db (db\<lparr>db_outbox := update_rows key k f (db_outbox db)\<rparr>)"
  using assms by (simp add: evolution)

lemma evolves_fundings:
  "(\<And>r. fu_id (f r) = fu_id r) \<Longrightarrow> evolves db (db\<lparr>db_fundings := update_rows key k f (db_fundings db)\<rparr>)"
  by (simp add: evolution)

lemma evolves_jobs:
  "(\<And>r. jr_id (f r) = jr_id r) \<Longrightarrow> evolves db (db\<lparr>db_jobs := update_rows key k f (db_jobs db)\<rparr>)"
  by (simp add: evolution)

lemma evolves_floats:
  "(\<And>r. fl_id (f r) = fl_id r) \<Longrightarrow> evolves db (db\<lparr>db_floats := update_rows key k f (db_floats db)\<rparr>)"
  by (simp add: evolution)

lemma evolves_accumulate: "evolves db (accumulate_float now uid p db)"
  unfolding accumulate_float_def by (rule evolves_floats) simp

text \<open>The update of a batch's status: the row keeps what the mutator does not touch.\<close>

lemma evolves_status:
  assumes "mutator_ok mu" and "rowmap br_id (db_batches db) uid = Some r" and "CanTransitionTo (br_status r) st"
    and "tables_ok db" and "b = (case mu of None \<Rightarrow> (scan_batch now r)\<lparr>b_Status := st\<rparr> | Some f \<Rightarrow> f ((scan_batch now r)\<lparr>b_Status := st\<rparr>))"
  shows "evolves db (write_batch uid b closedAt db)"
proof -
  have st: "b_Status b = st" using assms(1,5) by (auto simp: mutator_ok_def split: option.splits)
  have only: "r' = r" if "r' \<in> set (db_batches db)" "br_id r' = uid" for r'
    using rowmap_in_set [of br_id "db_batches db" r'] that assms(2,4) by (simp add: tables_ok_def)
  show ?thesis
    unfolding write_batch_def by (rule evolves_batches) (use only assms(3) st in \<open>auto simp: row_moved_def\<close>)
qed

section \<open>The operations\<close>

context pg_conn
begin

text \<open>Rules for a program over the connection, started on the tables \<open>D\<close>.\<close>

lemma stmt_evolves:
  assumes "pc_db c s = D" and "\<And>s'. pc_db c s' = D \<Longrightarrow> evolves D (pc_db c (snd (f s')))"
  shows "evolves D (pc_db c (snd (stmt c f s)))"
  using assms db_trip [of s] by (cases "pc_trip c s") (auto simp: stmt_def split: option.split)

lemma begin_evolves:
  assumes "pc_db c s = D" and "\<And>now s'. pc_db c s' = D \<Longrightarrow> evolves D (pc_db c (snd (body now s')))"
  shows "evolves D (pc_db c (snd (begin_tx c body s)))"
  unfolding begin_tx_def case_prod_beta Let_def by (rule stmt_evolves [OF assms(1)]) (simp add: assms(2))

lemma commit_evolves: "pc_db c s = D \<Longrightarrow> evolves D db \<Longrightarrow> evolves D (pc_db c (snd (commit c db x s)))"
  unfolding commit_def by (rule stmt_evolves) simp_all

lemma exec_evolves:
  assumes "pc_db c s = D" and "\<And>now x db'. u now D = (Inr x, db') \<Longrightarrow> evolves D db'"
  shows "evolves D (pc_db c (snd (exec_sql c u s)))"
proof -
  have "evolves D (snd (u now D))" if "fst (u now D) = Inr x" for now x
    using assms(2) [of now x "snd (u now D)"] that by (simp add: prod_eq_iff)
  then show ?thesis
    unfolding exec_sql_def case_prod_beta Let_def by (intro stmt_evolves [OF assms(1)]) (auto split: sum.split)
qed

lemma then_evolves:
  assumes "evolves D (pc_db c (snd (m s)))" and "\<And>x s. pc_db c (snd (k x s)) = pc_db c s"
  shows "evolves D (pc_db c (snd (then_do m k s)))"
  using assms by (cases "m s") (auto simp: then_do_def split: sum.split dest: arg_cong [where f = "\<lambda>x. x"])

lemma order_read_db [simp]: "pc_db c (snd (pg_GetOrderByBatch c uid s)) = pc_db c s"
  by (simp add: pg_GetOrderByBatch_def)

lemma float_read_db [simp]: "pc_db c (snd (pg_GetFloat c fiat s)) = pc_db c s"
  by (simp add: pg_GetFloat_def)

lemma float_return_db [simp]:
  "pc_db c (snd (then_do (pg_GetFloat c fiat) (\<lambda>q s. (Inr (g q), s)) s)) = pc_db c s"
  using float_read_db [of fiat s] by (cases "pg_GetFloat c fiat s") (auto simp: then_do_def split: sum.split)

lemma open_evolves: "evolves (pc_db c s) (pc_db c (snd (pg_OpenBatch c p s)))"
proof -
  have ins: "evolves D (pc_db c (snd (case insert_open uid p now D of Inl e \<Rightarrow> (Inl e, s2) | Inr db \<Rightarrow> commit c db b s2)))"
    if "pc_db c s2 = D" for D uid now b s2
    using that by (auto split: sum.split intro!: commit_evolves intro: evolves_open)
  show ?thesis
    unfolding pg_OpenBatch_def case_prod_beta Let_def
    by (rule begin_evolves [OF refl], rule stmt_evolves, assumption)
      (auto split: option.split intro!: stmt_evolves ins)
qed

lemma status_evolves:
  assumes "mutator_ok mu"
  shows "evolves (pc_db c s) (pc_db c (snd (pg_UpdateBatchStatus c uid st st' mu s)))"
proof (cases "tables_ok (pc_db c s)")
  case False
  then show ?thesis by (simp add: evolves_def)
next
  case True
  show ?thesis
    unfolding pg_UpdateBatchStatus_def case_prod_beta Let_def
    by (rule begin_evolves [OF refl], rule stmt_evolves, assumption)
      (auto split: option.split intro!: stmt_evolves commit_evolves evolves_status [OF assms _ _ True])
qed

lemma float_evolves: "evolves (pc_db c s) (pc_db c (snd (pg_AddFloat c p s)))"
proof -
  have ins: "evolves D (pc_db c (snd (case insert_float now uid p D of Inl e \<Rightarrow> (Inl e, s2) | Inr db \<Rightarrow> commit c db b s2)))"
    if "pc_db c s2 = D" for D uid now b s2
    using that by (auto split: sum.split intro!: commit_evolves intro: evolves_float)
  show ?thesis
    unfolding pg_AddFloat_def case_prod_beta Let_def
    by (rule begin_evolves [OF refl], rule stmt_evolves, assumption)
      (auto split: option.split intro!: stmt_evolves ins then_evolves commit_evolves evolves_accumulate)
qed

text \<open>Every operation keeps the constraints, and loses nothing, whether it succeeds or fails.\<close>

lemmas single_writes = pg_SetBatchNotional_def pg_UpdateOrderFill_def pg_SettleOrder_def pg_UpdateFundingStatus_def
  pg_SettleFloat_def pg_UpdateJobStatus_def pg_MarkEmitted_def

lemma single_evolves:
  "evolves (pc_db c s) (pc_db c (snd (pg_SetBatchNotional c uid n s)))"
  "evolves (pc_db c s) (pc_db c (snd (pg_UpdateOrderFill c uid fp tf rs s)))"
  "evolves (pc_db c s) (pc_db c (snd (pg_SettleOrder c uid n s)))"
  "evolves (pc_db c s) (pc_db c (snd (pg_UpdateFundingStatus c uid fst' s)))"
  "evolves (pc_db c s) (pc_db c (snd (pg_SettleFloat c uid s)))"
  "evolves (pc_db c s) (pc_db c (snd (pg_UpdateJobStatus c uid jst s)))"
  "evolves (pc_db c s) (pc_db c (snd (pg_MarkEmitted c uid s)))"
  unfolding single_writes
  by (auto intro!: then_evolves exec_evolves [OF refl] evolves_batches evolves_orders evolves_fundings evolves_floats
      evolves_jobs evolves_outbox simp: row_moved_def)

lemma insert_evolves:
  "evolves (pc_db c s) (pc_db c (snd (pg_AddMembership c m s)))"
  "evolves (pc_db c s) (pc_db c (snd (pg_CreateOrder c ord s)))"
  "evolves (pc_db c s) (pc_db c (snd (pg_CreateFunding c f s)))"
  "evolves (pc_db c s) (pc_db c (snd (pg_CreateJob c j s)))"
  "evolves (pc_db c s) (pc_db c (snd (pg_Append c e s)))"
  unfolding pg_AddMembership_def pg_CreateOrder_def pg_CreateFunding_def pg_CreateJob_def pg_Append_def case_prod_beta Let_def
  by (auto intro!: then_evolves exec_evolves intro: evolves_member evolves_order evolves_funding evolves_job evolves_entry)

lemma op_evolves: "op_ok op \<Longrightarrow> evolves (pc_db c s) (pc_db c (snd (pg_do c op s)))"
  by (cases op) (simp_all add: open_evolves status_evolves float_evolves single_evolves insert_evolves)

lemma run_evolves: "list_all op_ok ops \<Longrightarrow> evolves (pc_db c s) (pc_db c (pg_run c ops s))"
proof (induction ops arbitrary: s)
  case Nil
  then show ?case by (simp add: pg_run_def)
next
  case (Cons op ops)
  then show ?case
    using evolves_trans [OF op_evolves [of op s] Cons.IH [of "snd (pg_do c op s)"]] by (simp add: pg_run_def)
qed

end

end
