(* ===== verification/Pg_Sessions.thy ===== *)
theory Pg_Sessions
  imports Pg_Facts
begin

text \<open>
  \<^verbatim>\<open>postgres.BatchStore\<close> under concurrency: the transactions of \<open>OpenBatch\<close> and
  \<open>UpdateBatchStatus\<close> statement by statement, any number of them at once, at the isolation level
  the pool leaves at its default, READ COMMITTED. A plain select sees what is committed; \<open>FOR UPDATE\<close>
  and an update take the lock of the row and wait for the transaction that has it; what a
  transaction writes is seen when it commits. A round trip may fail at any point, and a commit
  that fails may have taken place or not.

  The row lock makes a transition happen once (\<open>one_move_wins\<close>), and who has it waits for nobody
  (\<open>holder_goes_on\<close>), but nothing keeps two transactions from each opening a batch for one pair
  (\<open>two_opens\<close>). A transaction that runs alone does what the functions of \<open>Pg_Batch\<close> say.
\<close>

section \<open>Sessions\<close>

datatype job = OpenJob string | MoveJob uuid BatchStatus BatchStatus "(Batch \<Rightarrow> Batch) option"

text \<open>
  What a session does next, with what it has read so far: begin, select, insert or update, commit;
  or the result it has returned.
\<close>

datatype tx_at =
    ToBegin
  | ToSelect tstz
  | ToInsert tstz
  | ToCommitOpen batch_row
  | ToUpdate Batch time
  | ToCommitMove Batch time
  | Opened "error + Batch"
  | Moved "error + Batch option"

record Sessions =
  se_db :: PgDb
  se_lock :: "uuid \<Rightarrow> nat option"
  se_at :: "nat \<Rightarrow> tx_at"

definition NewSessions :: "PgDb \<Rightarrow> Sessions" where
  "NewSessions db = \<lparr>se_db = db, se_lock = (\<lambda>_. None), se_at = (\<lambda>_. ToBegin)\<rparr>"

text \<open>A session goes on; it ends, and with its transaction its lock.\<close>

abbreviation goes :: "nat \<Rightarrow> tx_at \<Rightarrow> Sessions \<Rightarrow> Sessions" where
  "goes i a s \<equiv> s\<lparr>se_at := (se_at s)(i := a)\<rparr>"

definition unlock :: "nat \<Rightarrow> Sessions \<Rightarrow> Sessions" where
  "unlock i s = s\<lparr>se_lock := (\<lambda>uid. if se_lock s uid = Some i then None else se_lock s uid)\<rparr>"

definition fail_at :: "job \<Rightarrow> error \<Rightarrow> tx_at" where
  "fail_at j e = (case j of OpenJob p \<Rightarrow> Opened (Inl e) | MoveJob uid frm to mu \<Rightarrow> Moved (Inl e))"

fun finished :: "tx_at \<Rightarrow> bool" where
  "finished (Opened r) = True"
| "finished (Moved r) = True"
| "finished a = False"

definition new_row :: "uuid \<Rightarrow> string \<Rightarrow> tstz \<Rightarrow> batch_row" where
  "new_row uid p now = \<lparr>br_id = uid, br_asset_pair = p, br_status = BatchOpen, br_notional_usd = 0,
     br_opened_at = now, br_closed_at = None\<rparr>"

definition open_result :: "batch_row \<Rightarrow> Batch" where
  "open_result r = (scan_batch 0 r)\<lparr>b_ClosedAt := zero_time\<rparr>"

definition append_batch :: "batch_row \<Rightarrow> PgDb \<Rightarrow> PgDb" where
  "append_batch r db = db\<lparr>db_batches := db_batches db @ [r]\<rparr>"

text \<open>The batch a transition writes and returns, from the row it has read.\<close>

definition moved_batch :: "BatchStatus \<Rightarrow> (Batch \<Rightarrow> Batch) option \<Rightarrow> tstz \<Rightarrow> batch_row \<Rightarrow> Batch" where
  "moved_batch to mu now r =
     (let b = (scan_batch now r)\<lparr>b_Status := to\<rparr> in case mu of None \<Rightarrow> b | Some f \<Rightarrow> f b)"

definition closing_instant :: "BatchStatus \<Rightarrow> tstz \<Rightarrow> batch_row \<Rightarrow> time \<Rightarrow> bool" where
  "closing_instant to now r t \<longleftrightarrow>
     (if to = BatchClosed \<and> IsZero (b_ClosedAt (scan_batch now r)) then True else t = b_ClosedAt (scan_batch now r))"

text \<open>
  The identifiers of new rows are new (\<open>uuid.NewV7\<close>). \<open>SetBatchNotional\<close> is one statement: it waits
  for the lock of the row and commits at once.
\<close>

inductive tx_step :: "(nat \<Rightarrow> job) \<Rightarrow> Sessions \<Rightarrow> Sessions \<Rightarrow> bool" for jobs where
  begins: "se_at s i = ToBegin \<Longrightarrow> tx_step jobs s (goes i (ToSelect now) s)"
| open_finds: "se_at s i = ToSelect now \<Longrightarrow> jobs i = OpenJob p \<Longrightarrow> select_open p (se_db s) = Some r \<Longrightarrow>
    tx_step jobs s (goes i (Opened (Inr (scan_batch now r))) s)"
| open_misses: "se_at s i = ToSelect now \<Longrightarrow> jobs i = OpenJob p \<Longrightarrow> select_open p (se_db s) = None \<Longrightarrow>
    tx_step jobs s (goes i (ToInsert now) s)"
| open_inserts: "se_at s i = ToInsert now \<Longrightarrow> jobs i = OpenJob p \<Longrightarrow> uid \<notin> br_id ` set (db_batches (se_db s)) \<Longrightarrow>
    (\<And>j r. se_at s j = ToCommitOpen r \<Longrightarrow> br_id r \<noteq> uid) \<Longrightarrow>
    tx_step jobs s (goes i (ToCommitOpen (new_row uid p now)) s)"
| open_commits: "se_at s i = ToCommitOpen r \<Longrightarrow>
    tx_step jobs s (goes i (Opened (Inr (open_result r))) (s\<lparr>se_db := append_batch r (se_db s)\<rparr>))"
| open_commit_unknown: "se_at s i = ToCommitOpen r \<Longrightarrow>
    tx_step jobs s (goes i (Opened (Inl e)) (s\<lparr>se_db := append_batch r (se_db s)\<rparr>))"
| move_misses: "se_at s i = ToSelect now \<Longrightarrow> jobs i = MoveJob uid frm to mu \<Longrightarrow>
    rowmap br_id (db_batches (se_db s)) uid = None \<Longrightarrow> tx_step jobs s (goes i (Moved (Inl ErrNotFound)) s)"
| move_refused: "se_at s i = ToSelect now \<Longrightarrow> jobs i = MoveJob uid frm to mu \<Longrightarrow> se_lock s uid = None \<Longrightarrow>
    rowmap br_id (db_batches (se_db s)) uid = Some r \<Longrightarrow> br_status r \<noteq> frm \<Longrightarrow>
    tx_step jobs s (goes i (Moved (Inr None)) s)"
| move_illegal: "se_at s i = ToSelect now \<Longrightarrow> jobs i = MoveJob uid frm to mu \<Longrightarrow> se_lock s uid = None \<Longrightarrow>
    rowmap br_id (db_batches (se_db s)) uid = Some r \<Longrightarrow> br_status r = frm \<Longrightarrow> \<not> CanTransitionTo frm to \<Longrightarrow>
    tx_step jobs s (goes i (Moved (Inl ErrConflict)) s)"
| move_locks: "se_at s i = ToSelect now \<Longrightarrow> jobs i = MoveJob uid frm to mu \<Longrightarrow> se_lock s uid = None \<Longrightarrow>
    rowmap br_id (db_batches (se_db s)) uid = Some r \<Longrightarrow> br_status r = frm \<Longrightarrow> CanTransitionTo frm to \<Longrightarrow>
    closing_instant to now r t \<Longrightarrow>
    tx_step jobs s (goes i (ToUpdate (moved_batch to mu now r) t) (s\<lparr>se_lock := (se_lock s)(uid \<mapsto> i)\<rparr>))"
| move_updates: "se_at s i = ToUpdate b t \<Longrightarrow> tx_step jobs s (goes i (ToCommitMove b t) s)"
| move_commits: "se_at s i = ToCommitMove b t \<Longrightarrow> jobs i = MoveJob uid frm to mu \<Longrightarrow>
    tx_step jobs s (goes i (Moved (Inr (Some (b\<lparr>b_ClosedAt := t\<rparr>)))) (unlock i (s\<lparr>se_db := write_batch uid b t (se_db s)\<rparr>)))"
| move_commit_unknown: "se_at s i = ToCommitMove b t \<Longrightarrow> jobs i = MoveJob uid frm to mu \<Longrightarrow>
    tx_step jobs s (goes i (Moved (Inl e)) (unlock i (s\<lparr>se_db := write_batch uid b t (se_db s)\<rparr>)))"
| trip_fails: "\<not> finished (se_at s i) \<Longrightarrow> tx_step jobs s (goes i (fail_at (jobs i) e) (unlock i s))"
| notional: "se_lock s uid = None \<Longrightarrow>
    tx_step jobs s (s\<lparr>se_db := (se_db s)\<lparr>db_batches := update_rows br_id uid (\<lambda>r. r\<lparr>br_notional_usd := n\<rparr>)
      (db_batches (se_db s))\<rparr>\<rparr>)"

inductive_cases tx_step_cases: "tx_step jobs s s'"

abbreviation tx_run :: "(nat \<Rightarrow> job) \<Rightarrow> Sessions \<Rightarrow> Sessions \<Rightarrow> bool" where
  "tx_run jobs \<equiv> (tx_step jobs)\<^sup>*\<^sup>*"

section \<open>The status of a row\<close>

definition row_status :: "PgDb \<Rightarrow> uuid \<Rightarrow> BatchStatus option" where
  "row_status db uid = map_option br_status (rowmap br_id (db_batches db) uid)"

lemma status_append: "row_status db uid = Some st \<Longrightarrow> row_status (append_batch r db) uid = Some st"
  by (auto simp: row_status_def append_batch_def rowmap_append dest!: rowmap_SomeD intro: rev_image_eqI)

lemma status_write:
  "row_status (write_batch uid b t db) x = (if x = uid then map_option (\<lambda>_. b_Status b) (row_status db uid) else row_status db x)"
  by (auto simp: row_status_def write_batch_def update_rows_map split: option.split)

lemma status_notional [simp]:
  "row_status (db\<lparr>db_batches := update_rows br_id uid (\<lambda>r. r\<lparr>br_notional_usd := n\<rparr>) (db_batches db)\<rparr>) x = row_status db x"
  by (auto simp: row_status_def update_rows_map split: option.split)

lemma moved_status: "mutator_ok mu \<Longrightarrow> b_Status (moved_batch to mu now r) = to"
  by (auto simp: moved_batch_def mutator_ok_def Let_def split: option.split)

section \<open>The lock\<close>

text \<open>The batch a session is about to write, and whether it has won its transition.\<close>

fun moving :: "tx_at \<Rightarrow> Batch option" where
  "moving (ToUpdate b t) = Some b"
| "moving (ToCommitMove b t) = Some b"
| "moving a = None"

definition won :: "tx_at \<Rightarrow> bool" where
  "won a \<longleftrightarrow> (\<exists>b. a = Moved (Inr (Some b)))"

definition moves :: "job \<Rightarrow> uuid \<Rightarrow> bool" where
  "moves j uid \<longleftrightarrow> (\<exists>frm to mu. j = MoveJob uid frm to mu)"

text \<open>
  The sessions about to write are the holders of the locks; the row such a session has locked is
  still in the status it has read; the row of one that has won is past it.
\<close>

definition lock_ok :: "(nat \<Rightarrow> job) \<Rightarrow> Sessions \<Rightarrow> bool" where
  "lock_ok jobs s \<longleftrightarrow> (\<forall>i uid. se_lock s uid = Some i \<longleftrightarrow> moving (se_at s i) \<noteq> None \<and> moves (jobs i) uid)"

definition move_ok :: "(nat \<Rightarrow> job) \<Rightarrow> Sessions \<Rightarrow> bool" where
  "move_ok jobs s \<longleftrightarrow> (\<forall>i uid frm to mu b. jobs i = MoveJob uid frm to mu \<longrightarrow> moving (se_at s i) = Some b \<longrightarrow>
     row_status (se_db s) uid = Some frm \<and> b_Status b = to \<and> frm < to)"

definition won_ok :: "(nat \<Rightarrow> job) \<Rightarrow> Sessions \<Rightarrow> bool" where
  "won_ok jobs s \<longleftrightarrow> (\<forall>i uid frm to mu. jobs i = MoveJob uid frm to mu \<longrightarrow> won (se_at s i) \<longrightarrow>
     (\<exists>st. row_status (se_db s) uid = Some st \<and> frm < st))"

definition one_ok :: "(nat \<Rightarrow> job) \<Rightarrow> Sessions \<Rightarrow> bool" where
  "one_ok jobs s \<longleftrightarrow> (\<forall>i j uid frm to mu to' mu'. jobs i = MoveJob uid frm to mu \<longrightarrow> jobs j = MoveJob uid frm to' mu' \<longrightarrow>
     won (se_at s i) \<longrightarrow> won (se_at s j) \<longrightarrow> i = j)"

definition tx_inv :: "(nat \<Rightarrow> job) \<Rightarrow> Sessions \<Rightarrow> bool" where
  "tx_inv jobs s \<longleftrightarrow> lock_ok jobs s \<and> move_ok jobs s \<and> won_ok jobs s \<and> one_ok jobs s"

lemmas tx_inv_parts = tx_inv_def lock_ok_def move_ok_def won_ok_def one_ok_def

lemma tx_inv_new: "tx_inv jobs (NewSessions db)"
  by (simp add: tx_inv_parts NewSessions_def won_def)

lemma won_simps [simp]: "won (Moved (Inr (Some b)))" "\<not> won (Moved (Inl e))" "\<not> won (Moved (Inr None))"
  "\<not> won (Opened r)" "\<not> won ToBegin" "\<not> won (ToSelect now)" "\<not> won (ToInsert now)" "\<not> won (ToCommitOpen r')"
  "\<not> won (ToUpdate b' t)" "\<not> won (ToCommitMove b' t)"
  by (simp_all add: won_def)

lemma fail_simps [simp]: "moving (fail_at j e) = None" "\<not> won (fail_at j e)"
  by (simp_all add: fail_at_def split: job.split)

text \<open>Where the locks agree, a step that neither starts a write nor wins, nor moves a row, keeps the rest.\<close>

lemma tx_inv_frame:
  assumes "tx_inv jobs s" and "lock_ok jobs s'"
    and "\<And>j b. moving (se_at s' j) = Some b \<Longrightarrow> moving (se_at s j) = Some b" and "\<And>j. won (se_at s' j) \<Longrightarrow> won (se_at s j)"
    and "\<And>uid st. row_status (se_db s) uid = Some st \<Longrightarrow> row_status (se_db s') uid = Some st"
  shows "tx_inv jobs s'"
proof -
  have "move_ok jobs s'" using assms(1,3,5) unfolding tx_inv_def move_ok_def by blast
  moreover have "won_ok jobs s'" using assms(1,4,5) unfolding tx_inv_def won_ok_def by blast
  moreover have "one_ok jobs s'" using assms(1,4) unfolding tx_inv_def one_ok_def by blast
  ultimately show ?thesis using assms(2) by (simp add: tx_inv_def)
qed

lemma lock_ok_goes:
  assumes "lock_ok jobs s" and "moving a = None \<longleftrightarrow> moving (se_at s i) = None"
  shows "lock_ok jobs (goes i a (s\<lparr>se_db := db\<rparr>))"
  using assms unfolding lock_ok_def by (auto split: if_splits)

lemma lock_ok_unlock:
  assumes "lock_ok jobs s" and "moving a = None"
  shows "lock_ok jobs (goes i a (unlock i (s\<lparr>se_db := db\<rparr>)))"
  unfolding lock_ok_def
proof (intro allI)
  fix j x
  have "se_lock s x = Some j \<longleftrightarrow> moving (se_at s j) \<noteq> None \<and> moves (jobs j) x" "se_lock s x = Some i \<Longrightarrow> j \<noteq> i \<Longrightarrow> se_lock s x \<noteq> Some j"
    using assms(1) unfolding lock_ok_def by (metis option.inject)+
  then show "se_lock (goes i a (unlock i (s\<lparr>se_db := db\<rparr>))) x = Some j \<longleftrightarrow>
      moving (se_at (goes i a (unlock i (s\<lparr>se_db := db\<rparr>))) j) \<noteq> None \<and> moves (jobs j) x"
    using assms(2) by (cases "j = i") (auto simp: unlock_def)
qed

text \<open>A session goes on to another place without a write; it ends, and its lock is released.\<close>

lemma tx_inv_goes:
  assumes "tx_inv jobs s" and "moving a = moving (se_at s i)" and "\<not> won a"
    and "\<And>uid st. row_status (se_db s) uid = Some st \<Longrightarrow> row_status db uid = Some st"
  shows "tx_inv jobs (goes i a (s\<lparr>se_db := db\<rparr>))"
proof (rule tx_inv_frame [OF assms(1)])
  show "lock_ok jobs (goes i a (s\<lparr>se_db := db\<rparr>))"
    by (rule lock_ok_goes) (use assms(1,2) in \<open>simp_all add: tx_inv_def\<close>)
qed (use assms(2-4) in \<open>auto split: if_splits\<close>)

lemma tx_inv_ends:
  assumes "tx_inv jobs s" and "moving a = None" and "\<not> won a"
  shows "tx_inv jobs (goes i a (unlock i s))"
proof (rule tx_inv_frame [OF assms(1)])
  show "lock_ok jobs (goes i a (unlock i s))"
    using lock_ok_unlock [OF _ assms(2), of jobs s i "se_db s"] assms(1) by (simp add: tx_inv_def)
qed (use assms(2,3) in \<open>auto simp: unlock_def split: if_splits\<close>)

lemma tx_inv_locks:
  assumes "tx_inv jobs s" and "se_at s i = ToSelect now" and "jobs i = MoveJob uid frm to mu" and "se_lock s uid = None"
    and "row_status (se_db s) uid = Some frm" and "b_Status b = to" and "frm < to"
  shows "tx_inv jobs (goes i (ToUpdate b t) (s\<lparr>se_lock := (se_lock s)(uid \<mapsto> i)\<rparr>))"
proof -
  have "moves (jobs i) x \<longleftrightarrow> x = uid" for x using assms(3) by (auto simp: moves_def)
  moreover have "\<not> (moving (se_at s j) \<noteq> None \<and> moves (jobs j) uid)" for j
    using assms(1,4) unfolding tx_inv_def lock_ok_def by (metis option.distinct(1))
  ultimately have "lock_ok jobs (goes i (ToUpdate b t) (s\<lparr>se_lock := (se_lock s)(uid \<mapsto> i)\<rparr>))"
    using assms(1,2) unfolding tx_inv_def lock_ok_def by (auto split: if_splits)
  then show ?thesis
    using assms unfolding tx_inv_def move_ok_def won_ok_def one_ok_def by (simp; blast)
qed

text \<open>The commit of a transition: the row goes past the status it was read in.\<close>

lemma tx_inv_commits:
  assumes inv: "tx_inv jobs s" and at: "se_at s i = ToCommitMove b t" and job: "jobs i = MoveJob uid frm to mu"
    and a: "moving a = None"
  shows "tx_inv jobs (goes i a (unlock i (s\<lparr>se_db := write_batch uid b t (se_db s)\<rparr>)))" (is "tx_inv jobs ?s")
proof -
  have lk: "lock_ok jobs s" and mv: "move_ok jobs s" and wn: "won_ok jobs s" and one: "one_ok jobs s"
    using inv by (simp_all add: tx_inv_def)
  have row: "row_status (se_db s) uid = Some frm" "b_Status b = to" "frm < to"
    using mv at job unfolding move_ok_def by (metis moving.simps(2))+
  have st: "row_status (se_db ?s) x = (if x = uid then Some to else row_status (se_db s) x)" for x
    by (simp add: unlock_def status_write row)
  have held: "se_lock s uid = Some i" using lk at job by (auto simp: lock_ok_def moves_def)
  have others: "moving (se_at s j) = None" if "moves (jobs j) uid" "j \<noteq> i" for j
    using lk held that unfolding lock_ok_def by (metis option.inject)
  have past: "frm' < frm" if "jobs j = MoveJob uid frm' to' mu'" "won (se_at s j)" for j frm' to' mu'
    using wn that row(1) unfolding won_ok_def by (metis option.inject)
  have "lock_ok jobs ?s" by (rule lock_ok_unlock [OF lk a])
  moreover have "move_ok jobs ?s"
    unfolding move_ok_def
  proof (intro allI impI)
    fix j x frm' to' mu' b'
    assume j: "jobs j = MoveJob x frm' to' mu'" "moving (se_at ?s j) = Some b'"
    then have n: "j \<noteq> i" "moving (se_at s j) = Some b'" using a by (auto simp: unlock_def split: if_splits)
    then have "x \<noteq> uid" using others [of j] j(1) by (auto simp: moves_def)
    then show "row_status (se_db ?s) x = Some frm' \<and> b_Status b' = to' \<and> frm' < to'"
      using mv j(1) n(2) unfolding move_ok_def st by metis
  qed
  moreover have "won_ok jobs ?s"
    unfolding won_ok_def
  proof (intro allI impI)
    fix j x frm' to' mu'
    assume j: "jobs j = MoveJob x frm' to' mu'" "won (se_at ?s j)"
    show "\<exists>st. row_status (se_db ?s) x = Some st \<and> frm' < st"
    proof (cases "j = i")
      case True
      then show ?thesis using j(1) job row(3) unfolding st by simp
    next
      case False
      then have w: "won (se_at s j)" using j(2) by (simp add: unlock_def)
      show ?thesis
      proof (cases "x = uid")
        case True
        then show ?thesis using past [OF _ w] j(1) row(3) unfolding st by fastforce
      next
        case False
        then show ?thesis using wn j(1) w unfolding won_ok_def st by (simp del: ex_simps all_simps)
      qed
    qed
  qed
  moreover have "one_ok jobs ?s"
    unfolding one_ok_def
  proof (intro allI impI)
    fix j k x frm' to' mu' to'' mu''
    assume j: "jobs j = MoveJob x frm' to' mu'" "jobs k = MoveJob x frm' to'' mu''" "won (se_at ?s j)" "won (se_at ?s k)"
    have no: "\<not> won (se_at s l)" if "jobs l = MoveJob uid frm to3 mu3" for l to3 mu3
      using past [OF that] by blast
    show "j = k"
    proof (rule ccontr)
      assume ne: "j \<noteq> k"
      then have "won (se_at s j) \<and> won (se_at s k) \<or> j = i \<and> won (se_at s k) \<or> k = i \<and> won (se_at s j)"
        using j(3,4) by (auto simp: unlock_def split: if_splits)
      then show False using j(1,2) job ne no one unfolding one_ok_def by auto
    qed
  qed
  ultimately show ?thesis by (simp add: tx_inv_def)
qed

lemma tx_step_inv:
  assumes "tx_step jobs s s'" and "tx_inv jobs s" and "\<forall>i uid frm to mu. jobs i = MoveJob uid frm to mu \<longrightarrow> mutator_ok mu"
  shows "tx_inv jobs s'"
  using assms(1)
proof cases
  case (move_locks i now uid frm to mu r t)
  then show ?thesis
    using tx_inv_locks [OF assms(2) move_locks(2,3,4)] assms(3) CanTransitionTo_less moved_status
    by (simp add: row_status_def)
next
  case (move_updates i b t)
  then show ?thesis using tx_inv_goes [OF assms(2), of _ _ "se_db s"] by simp
next
  case (move_commits i b t uid frm to mu)
  then show ?thesis using tx_inv_commits [OF assms(2)] by simp
next
  case (move_commit_unknown i b t uid frm to mu e)
  then show ?thesis using tx_inv_commits [OF assms(2)] by simp
next
  case (trip_fails i e)
  then show ?thesis using tx_inv_ends [OF assms(2)] by simp
next
  case (open_commits i r)
  then show ?thesis using tx_inv_goes [OF assms(2) _ _ status_append] by simp
next
  case (open_commit_unknown i r e)
  then show ?thesis using tx_inv_goes [OF assms(2) _ _ status_append] by simp
next
  case (notional uid n)
  then show ?thesis using assms(2) unfolding tx_inv_parts by simp
qed (use tx_inv_goes [OF assms(2), of _ _ "se_db s"] in simp_all)

lemma tx_run_inv:
  assumes "tx_run jobs s s'" and "tx_inv jobs s" and "\<forall>i uid frm to mu. jobs i = MoveJob uid frm to mu \<longrightarrow> mutator_ok mu"
  shows "tx_inv jobs s'"
  using assms(1,2) by (induction rule: rtranclp_induct) (auto intro: tx_step_inv [OF _ _ assms(3)])

text \<open>Of the sessions that move a row out of one status, one wins.\<close>

lemma one_move_wins:
  assumes "tx_run jobs (NewSessions db) s" and "\<forall>i uid frm to mu. jobs i = MoveJob uid frm to mu \<longrightarrow> mutator_ok mu"
    and "jobs i = MoveJob uid frm to mu" and "jobs j = MoveJob uid frm to' mu'"
    and "se_at s i = Moved (Inr (Some b))" and "se_at s j = Moved (Inr (Some b'))"
  shows "i = j"
  using tx_run_inv [OF assms(1) tx_inv_new assms(2)] assms(3-6) unfolding tx_inv_def one_ok_def by (metis won_simps(1))

text \<open>And the row of the winner is past the status it has left.\<close>

lemma won_row:
  assumes "tx_run jobs (NewSessions db) s" and "\<forall>i uid frm to mu. jobs i = MoveJob uid frm to mu \<longrightarrow> mutator_ok mu"
    and "jobs i = MoveJob uid frm to mu" and "se_at s i = Moved (Inr (Some b))"
  shows "\<exists>st. row_status (se_db s) uid = Some st \<and> frm < st"
  using tx_run_inv [OF assms(1) tx_inv_new assms(2)] assms(3,4) unfolding tx_inv_def won_ok_def by (metis won_simps(1))

text \<open>Who holds a lock waits for nobody: its next statement is possible, and then its commit.\<close>

lemma holder_goes_on:
  assumes "tx_inv jobs s" and "se_lock s uid = Some i"
  shows "\<exists>s'. tx_step jobs s s' \<and> ((\<exists>b t. se_at s' i = ToCommitMove b t) \<or> won (se_at s' i))"
proof -
  have m: "moving (se_at s i) \<noteq> None" "moves (jobs i) uid" using assms by (simp_all add: tx_inv_def lock_ok_def)
  then obtain frm to mu where j: "jobs i = MoveJob uid frm to mu" by (auto simp: moves_def)
  from m(1) consider b t where "se_at s i = ToUpdate b t" | b t where "se_at s i = ToCommitMove b t"
    by (cases "se_at s i") auto
  then show ?thesis
  proof cases
    case 1
    from tx_step.move_updates [where jobs = jobs, OF 1] show ?thesis by (intro exI conjI, assumption) simp
  next
    case 2
    from tx_step.move_commits [where jobs = jobs and s = s and i = i, OF 2 j] show ?thesis by (intro exI conjI, assumption) simp
  qed
qed

section \<open>One session alone\<close>

text \<open>A run that goes on.\<close>

lemma tx_run_step: "tx_run jobs s u \<Longrightarrow> tx_step jobs u v \<Longrightarrow> tx_run jobs s v"
  by (rule rtranclp.rtrancl_into_rtrancl)

lemma reached:
  "tx_run jobs s u \<Longrightarrow> se_at u i = a \<Longrightarrow> se_db u = db \<Longrightarrow> \<exists>u. tx_run jobs s u \<and> se_at u i = a \<and> se_db u = db"
  by blast

lemma insert_open_row:
  "uid \<notin> br_id ` set (db_batches db) \<Longrightarrow> insert_open uid p now db = Inr (append_batch (new_row uid p now) db)"
  by (simp add: insert_open_def append_batch_def new_row_def)

text \<open>Alone, a session does what \<open>pg_OpenBatch\<close> and \<open>pg_UpdateBatchStatus\<close> do.\<close>

lemma solo_open:
  assumes "jobs i = OpenJob p" and "g_ids w (g_idn w) \<notin> br_id ` set (db_batches (g_db w))"
    and "(r, w') = pg_OpenBatch (pool dec no_faults jsonb) p w"
  shows "\<exists>s. tx_run jobs (NewSessions (g_db w)) s \<and> se_at s i = Opened r \<and> se_db s = g_db w'"
proof -
  define now where "now = g_server w (g_nows w)"
  define s0 where "s0 = goes i (ToSelect now) (NewSessions (g_db w))"
  have at0: "se_at s0 i = ToSelect now" "se_db s0 = g_db w" by (simp_all add: s0_def NewSessions_def)
  have r0: "tx_run jobs (NewSessions (g_db w)) s0"
    unfolding s0_def by (rule r_into_rtranclp, rule tx_step.begins) (simp add: NewSessions_def)
  show ?thesis
  proof (cases "select_open p (g_db w)")
    case (Some x)
    have 1: "tx_step jobs s0 (goes i (Opened (Inr (scan_batch now x))) s0)"
      by (rule tx_step.open_finds [where jobs = jobs and s = s0 and i = i, OF at0(1) assms(1)]) (simp add: at0 Some)
    show ?thesis
      by (rule reached [OF tx_run_step [OF r0 1]])
        (use assms(3) Some in \<open>simp_all add: pg_OpenBatch_def begin_tx_def at0 now_def\<close>)
  next
    case None
    define row where "row = new_row (g_ids w (g_idn w)) p now"
    let ?s1 = "goes i (ToInsert now) s0" and ?s2 = "goes i (ToCommitOpen row) (goes i (ToInsert now) s0)"
    have 1: "tx_step jobs s0 ?s1"
      by (rule tx_step.open_misses [where jobs = jobs and s = s0 and i = i, OF at0(1) assms(1)]) (simp add: at0 None)
    have 2: "tx_step jobs ?s1 ?s2"
      unfolding row_def
      by (rule tx_step.open_inserts) (use assms(1,2) at0 in \<open>auto simp: s0_def NewSessions_def split: if_splits\<close>)
    have 3: "tx_step jobs ?s2 (goes i (Opened (Inr (open_result row))) (?s2\<lparr>se_db := append_batch row (se_db ?s2)\<rparr>))"
      by (rule tx_step.open_commits) simp
    show ?thesis
      by (rule reached [OF tx_run_step [OF tx_run_step [OF tx_run_step [OF r0 1] 2] 3]])
        (use assms(2,3) None in \<open>simp_all add: pg_OpenBatch_def begin_tx_def commit_def at0 insert_open_row now_def row_def open_result_def
          scan_batch_def new_row_def\<close>)
  qed
qed

lemma solo_move:
  assumes "jobs i = MoveJob uid frm to mu"
    and "(r, w') = pg_UpdateBatchStatus (pool dec no_faults jsonb) uid frm to mu w"
  shows "\<exists>s. tx_run jobs (NewSessions (g_db w)) s \<and> se_at s i = Moved r \<and> se_db s = g_db w'"
proof -
  define now where "now = g_server w (g_nows w)"
  define s0 where "s0 = goes i (ToSelect now) (NewSessions (g_db w))"
  have at0: "se_at s0 i = ToSelect now" "se_db s0 = g_db w" "se_lock s0 = (\<lambda>_. None)" by (simp_all add: s0_def NewSessions_def)
  have r0: "tx_run jobs (NewSessions (g_db w)) s0"
    unfolding s0_def by (rule r_into_rtranclp, rule tx_step.begins) (simp add: NewSessions_def)
  have free: "se_lock s0 uid = None" by (simp add: at0)
  show ?thesis
  proof (cases "rowmap br_id (db_batches (g_db w)) uid")
    case None
    have 1: "tx_step jobs s0 (goes i (Moved (Inl ErrNotFound)) s0)"
      by (rule tx_step.move_misses [where jobs = jobs and s = s0 and i = i, OF at0(1) assms(1)]) (simp add: at0 None)
    show ?thesis
      by (rule reached [OF tx_run_step [OF r0 1]])
        (use assms(2) None in \<open>simp_all add: pg_UpdateBatchStatus_def begin_tx_def at0\<close>)
  next
    case (Some x)
    have row: "rowmap br_id (db_batches (se_db s0)) uid = Some x" by (simp add: at0 Some)
    consider "br_status x \<noteq> frm" | "br_status x = frm" "\<not> CanTransitionTo frm to" | "br_status x = frm" "CanTransitionTo frm to"
      by blast
    then show ?thesis
    proof cases
      case 1
      show ?thesis
        by (rule reached [OF tx_run_step [OF r0 tx_step.move_refused [where jobs = jobs and s = s0 and i = i, OF at0(1) assms(1) free row 1]]])
          (use assms(2) Some 1 in \<open>simp_all add: pg_UpdateBatchStatus_def begin_tx_def at0\<close>)
    next
      case 2
      show ?thesis
        by (rule reached [OF tx_run_step [OF r0 tx_step.move_illegal [where jobs = jobs and s = s0 and i = i, OF at0(1) assms(1) free row 2]]])
          (use assms(2) Some 2 in \<open>simp_all add: pg_UpdateBatchStatus_def begin_tx_def at0\<close>)
    next
      case c3: 3
      define b where "b = moved_batch to mu now x"
      define t where "t = (if to = BatchClosed \<and> IsZero (b_ClosedAt (scan_batch now x)) then g_clock w (g_reads w)
        else b_ClosedAt (scan_batch now x))"
      have ci: "closing_instant to now x t" by (simp add: closing_instant_def t_def)
      let ?s1 = "goes i (ToUpdate b t) (s0\<lparr>se_lock := (se_lock s0)(uid \<mapsto> i)\<rparr>)"
      let ?s2 = "goes i (ToCommitMove b t) ?s1"
      have 1: "tx_step jobs s0 ?s1"
        unfolding b_def by (rule tx_step.move_locks [where jobs = jobs and s = s0 and i = i, OF at0(1) assms(1) free row c3 ci])
      have 2: "tx_step jobs ?s1 ?s2" by (rule tx_step.move_updates) simp
      have 3: "tx_step jobs ?s2 (goes i (Moved (Inr (Some (b\<lparr>b_ClosedAt := t\<rparr>)))) (unlock i (?s2\<lparr>se_db := write_batch uid b t (se_db ?s2)\<rparr>)))"
        by (rule tx_step.move_commits [where jobs = jobs and i = i, OF _ assms(1)]) simp
      show ?thesis
        by (rule reached [OF tx_run_step [OF tx_run_step [OF tx_run_step [OF r0 1] 2] 3]])
          (use assms(2) Some c3 in \<open>auto simp: pg_UpdateBatchStatus_def begin_tx_def commit_def at0 unlock_def b_def t_def moved_batch_def now_def
            Let_def split: if_splits option.splits\<close>)
    qed
  qed
qed

section \<open>Two sessions that open\<close>

lemma two_opens:
  assumes "i \<noteq> j" and "jobs i = OpenJob p" and "jobs j = OpenJob p" and "select_open p db = None"
    and "u \<notin> br_id ` set (db_batches db)" and "v \<notin> br_id ` set (db_batches db)" and "u \<noteq> v"
  shows "\<exists>s now now'. tx_run jobs (NewSessions db) s \<and>
    se_at s i = Opened (Inr (open_result (new_row u p now))) \<and> se_at s j = Opened (Inr (open_result (new_row v p now'))) \<and>
    db_batches (se_db s) = db_batches db @ [new_row u p now, new_row v p now']"
proof -
  define s0 where "s0 = NewSessions db"
  define s1 where "s1 = goes i (ToSelect 0) s0"
  define s2 where "s2 = goes j (ToSelect 0) s1"
  define s3 where "s3 = goes i (ToInsert 0) s2"
  define s4 where "s4 = goes j (ToInsert 0) s3"
  define s5 where "s5 = goes i (ToCommitOpen (new_row u p 0)) s4"
  define s6 where "s6 = goes j (ToCommitOpen (new_row v p 0)) s5"
  define s7 where "s7 = goes i (Opened (Inr (open_result (new_row u p 0)))) (s6\<lparr>se_db := append_batch (new_row u p 0) (se_db s6)\<rparr>)"
  define s8 where "s8 = goes j (Opened (Inr (open_result (new_row v p 0)))) (s7\<lparr>se_db := append_batch (new_row v p 0) (se_db s7)\<rparr>)"
  note defs = s8_def s7_def s6_def s5_def s4_def s3_def s2_def s1_def s0_def NewSessions_def
  have t1: "tx_step jobs s0 s1" unfolding s1_def by (rule tx_step.begins) (simp add: defs)
  have t2: "tx_step jobs s1 s2" unfolding s2_def by (rule tx_step.begins) (use assms(1) in \<open>simp add: defs\<close>)
  have t3: "tx_step jobs s2 s3"
    unfolding s3_def by (rule tx_step.open_misses) (use assms in \<open>auto simp: defs\<close>)
  have t4: "tx_step jobs s3 s4"
    unfolding s4_def by (rule tx_step.open_misses) (use assms in \<open>auto simp: defs\<close>)
  have t5: "tx_step jobs s4 s5"
    unfolding s5_def by (rule tx_step.open_inserts) (use assms in \<open>auto simp: defs split: if_splits\<close>)
  have t6: "tx_step jobs s5 s6"
    unfolding s6_def by (rule tx_step.open_inserts) (use assms in \<open>auto simp: defs new_row_def split: if_splits\<close>)
  have t7: "tx_step jobs s6 s7"
    unfolding s7_def by (rule tx_step.open_commits) (use assms(1) in \<open>simp add: defs\<close>)
  have t8: "tx_step jobs s7 s8"
    unfolding s8_def by (rule tx_step.open_commits) (use assms(1) in \<open>simp add: defs\<close>)
  have "tx_run jobs s0 s1" using t1 by (rule r_into_rtranclp)
  note run = tx_run_step [OF tx_run_step [OF tx_run_step [OF tx_run_step [OF tx_run_step [OF tx_run_step [OF
    tx_run_step [OF this t2] t3] t4] t5] t6] t7] t8]
  have "se_at s8 i = Opened (Inr (open_result (new_row u p 0)))" "se_at s8 j = Opened (Inr (open_result (new_row v p 0)))"
    "db_batches (se_db s8) = db_batches db @ [new_row u p 0, new_row v p 0]"
    using assms(1) by (simp_all add: defs append_batch_def)
  with run show ?thesis unfolding s0_def by blast
qed

end
