(* ===== verification/Pg_Sql.thy ===== *)
theory Pg_Sql
  imports Pg_Batch Clients
begin

text \<open>
  The one statement of \<^verbatim>\<open>internal/store/postgres/postgres.go\<close> whose conditions are put together at
  run time: the query of \<open>ListBatches\<close>, with its numbered parameters and their values. The text has
  one parameter for each value, numbered from one in their order (\<open>list_query_text\<close>), and a row
  satisfies the conditions exactly when \<open>pg_ListBatches\<close> lists it (\<open>list_query_rows\<close>).
\<close>

text \<open>\<open>joinStrings\<close>: the loop, with the index and what has been joined so far.\<close>

primrec join_loop :: "string \<Rightarrow> nat \<Rightarrow> string \<Rightarrow> string list \<Rightarrow> string" where
  "join_loop sep i out [] = out"
| "join_loop sep i out (s # ss) = join_loop sep (Suc i) ((if 0 < i then out @ sep else out) @ s) ss"

definition joinStrings :: "string list \<Rightarrow> string \<Rightarrow> string" where
  "joinStrings ss sep = join_loop sep 0 [] ss"

lemma join_loop_later: "0 < i \<Longrightarrow> join_loop sep i out ss = out @ concat (map (\<lambda>s. sep @ s) ss)"
  by (induction ss arbitrary: i out) simp_all

lemma joinStrings_simps [simp]:
  "joinStrings [] sep = []"
  "joinStrings (s # ss) sep = s @ concat (map (\<lambda>s. sep @ s) ss)"
  by (simp_all add: joinStrings_def join_loop_later)

text \<open>A condition compares \<open>opened_at\<close> with the parameter of its number: its text, and what it means.\<close>

datatype opened_cond = OpenedFrom nat | OpenedTo nat

fun cond_text :: "opened_cond \<Rightarrow> string" where
  "cond_text (OpenedFrom n) = ''opened_at >= $'' @ itoa (int n)"
| "cond_text (OpenedTo n) = ''opened_at <= $'' @ itoa (int n)"

fun cond_holds :: "time list \<Rightarrow> batch_row \<Rightarrow> opened_cond \<Rightarrow> bool" where
  "cond_holds args r (OpenedFrom n) \<longleftrightarrow> br_opened_at r \<ge> to_tstz (args ! (n - 1))"
| "cond_holds args r (OpenedTo n) \<longleftrightarrow> br_opened_at r \<le> to_tstz (args ! (n - 1))"

definition list_conds :: "time \<Rightarrow> time \<Rightarrow> opened_cond list \<times> time list" where
  "list_conds from to =
     (let (conds, args) = (if \<not> IsZero from then ([OpenedFrom 1], [from]) else ([], []))
      in if \<not> IsZero to then (conds @ [OpenedTo (length args + 1)], args @ [to]) else (conds, args))"

definition select_batches :: string where
  "select_batches = ''SELECT id, asset_pair, status, notional_usd, opened_at, COALESCE(closed_at, now()) FROM batches''"

definition list_query :: "time \<Rightarrow> time \<Rightarrow> string \<times> time list" where
  "list_query from to =
     (let (q, args) = (if \<not> IsZero from \<or> \<not> IsZero to
            then let (conds, args) = list_conds from to
                 in (select_batches @ '' WHERE '' @ joinStrings (map cond_text conds) '' AND '', args)
            else (select_batches, []))
      in (q @ '' ORDER BY opened_at ASC'', args))"

lemma itoa_small: "itoa 1 = ''1''" "itoa 2 = ''2''"
  by (simp_all add: itoa_def nat_digits.simps char_of_def bit_0)

lemma list_query_text:
  "fst (list_query from to) = select_batches @
     (if IsZero from \<and> IsZero to then []
      else if IsZero to then '' WHERE opened_at >= $1''
      else if IsZero from then '' WHERE opened_at <= $1''
      else '' WHERE opened_at >= $1 AND opened_at <= $2'') @ '' ORDER BY opened_at ASC''"
  "snd (list_query from to) = filter (\<lambda>t. \<not> IsZero t) [from, to]"
  by (simp_all add: list_query_def list_conds_def itoa_small Let_def)

lemma list_query_rows:
  "pg_ListBatches c from to = query c (\<lambda>now db. Inr (map (scan_batch now) (sort_key br_opened_at
     (filter (\<lambda>r. list_all (cond_holds (snd (list_query from to)) r) (fst (list_conds from to))) (db_batches db)))))"
proof -
  have "list_all (cond_holds (snd (list_query from to)) r) (fst (list_conds from to)) \<longleftrightarrow>
      (\<not> IsZero from \<longrightarrow> br_opened_at r \<ge> to_tstz from) \<and> (\<not> IsZero to \<longrightarrow> br_opened_at r \<le> to_tstz to)" for r
    by (simp add: list_query_text(2) list_conds_def Let_def)
  then show ?thesis by (simp add: pg_ListBatches_def)
qed

end
