(* ===== verification/Pg_Consumer.thy ===== *)
theory Pg_Consumer
  imports Pg_Facts App
begin

text \<open>
  The consumer of \<^verbatim>\<open>internal/consumer/consumer.go\<close> on the stores of Postgres, with the hook the
  application gives it and the key store of the process. Whatever round trips fail, an event adds
  at most its own membership (\<open>handle_pg\<close>); while none fails it adds it exactly when its transaction
  is new (\<open>handle_live\<close>), so that a stream leaves the memberships it leaves in memory.
\<close>

section \<open>The service on Postgres\<close>

text \<open>The services of the application with the stores that \<^verbatim>\<open>Build\<close> takes from an open database.\<close>

definition on_postgres ::
  "(float64 \<Rightarrow> decimal) \<Rightarrow> pg_world DB \<Rightarrow> pg_world Services \<Rightarrow> pg_world Services" where
  "on_postgres dec db S = S\<lparr>sv_Batch := dbs_batch db, sv_Membership := dbs_membership db, sv_Order := dbs_order db,
     sv_Funding := dbs_funding db, sv_Float := dbs_float db, sv_Rebalance := dbs_rebalance db, sv_Outbox := dbs_outbox db,
     sv_Idem := memIdem (pg_rt dec) g_idem (\<lambda>m. g_idem_update (\<lambda>_. m))\<rparr>"

abbreviation pg_consumer ::
  "Config \<Rightarrow> (float64 \<Rightarrow> decimal) \<Rightarrow> (nat \<Rightarrow> error option) \<Rightarrow> (string \<Rightarrow> string option) \<Rightarrow> pg_world Services
   \<Rightarrow> pg_world ConsumerDeps" where
  "pg_consumer cfg dec faults jsonb S \<equiv> app_consumer cfg (on_postgres dec (NewDB (pool dec faults jsonb)) S)"

abbreviation pg_hook ::
  "(float64 \<Rightarrow> decimal) \<Rightarrow> (nat \<Rightarrow> error option) \<Rightarrow> (string \<Rightarrow> string option) \<Rightarrow> pg_world Services
   \<Rightarrow> Batch \<Rightarrow> pg_world \<Rightarrow> pg_world" where
  "pg_hook dec faults jsonb S \<equiv> onBatchOpen (on_postgres dec (NewDB (pool dec faults jsonb)) S)"

lemma pg_consumer_fields [simp]:
  "cd_Batches (pg_consumer cfg dec faults jsonb S) = pgBatch (pool dec faults jsonb)"
  "cd_Memberships (pg_consumer cfg dec faults jsonb S) = pgMember (pool dec faults jsonb)"
  "cd_Idem (pg_consumer cfg dec faults jsonb S) = memIdem (pg_rt dec) g_idem (\<lambda>m. g_idem_update (\<lambda>_. m))"
  "cd_DeadLetters (pg_consumer cfg dec faults jsonb S) = None"
  "cd_OnBatchOpen (pg_consumer cfg dec faults jsonb S) = Some (pg_hook dec faults jsonb S)"
  by (simp_all add: app_consumer_def on_postgres_def NewDB_def)

section \<open>What an operation leaves alone\<close>

text \<open>The clock, the keys and the generator of identifiers, which only moves on; and the members.\<close>

definition keeps :: "pg_world \<Rightarrow> pg_world \<Rightarrow> bool" where
  "keeps w w' \<longleftrightarrow> g_clock w' = g_clock w \<and> g_ids w' = g_ids w \<and> g_idem w' = g_idem w \<and> g_idn w \<le> g_idn w'"

lemma keeps_refl [simp]: "keeps w w"
  by (simp add: keeps_def)

lemma keeps_trans [trans]: "keeps u v \<Longrightarrow> keeps v w \<Longrightarrow> keeps u w"
  by (simp add: keeps_def)

lemma keeps_query: "keeps w (snd (query (pool dec faults jsonb) q w))"
  by (auto simp: keeps_def query_def stmt_def split: option.split)

lemma keeps_exec: "keeps w (snd (exec_sql (pool dec faults jsonb) u w))"
  by (auto simp: keeps_def exec_sql_def stmt_def case_prod_beta split: option.split sum.split)

lemma reads_pg [simp]:
  "g_db (snd (ListMemberships (pgMember (pool dec faults jsonb)) uid w)) = g_db w"
  "g_db (snd (SumNotional (pgMember (pool dec faults jsonb)) uid w)) = g_db w"
  "g_db (snd (ExistsByTxID (pgMember (pool dec faults jsonb)) tx w)) = g_db w"
  using pgc.query_db by (simp_all add: pgMember_def pg_ListMemberships_def pg_SumNotional_def pg_ExistsByTxID_def)

lemma reads_keep:
  "keeps w (snd (ListMemberships (pgMember (pool dec faults jsonb)) uid w))"
  "keeps w (snd (SumNotional (pgMember (pool dec faults jsonb)) uid w))"
  "keeps w (snd (ExistsByTxID (pgMember (pool dec faults jsonb)) tx w))"
  "keeps w (snd (SetBatchNotional (pgBatch (pool dec faults jsonb)) uid n w))"
  by (simp_all add: pgMember_def pg_ListMemberships_def pg_SumNotional_def pg_ExistsByTxID_def pgBatch_def
      pg_SetBatchNotional_def keeps_query keeps_exec)

lemma notional_pg:
  "db_members (g_db (snd (SetBatchNotional (pgBatch (pool dec faults jsonb)) uid n w))) = db_members (g_db w)"
  "map br_id (db_batches (g_db (snd (SetBatchNotional (pgBatch (pool dec faults jsonb)) uid n w)))) = map br_id (db_batches (g_db w))"
  by (auto simp: pgBatch_def pg_SetBatchNotional_def exec_sql_def stmt_def split: option.split)

lemma hook_pg:
  "keeps w (pg_hook dec faults jsonb S b w)"
  "db_members (g_db (pg_hook dec faults jsonb S b w)) = db_members (g_db w)"
  "db_batches (g_db (pg_hook dec faults jsonb S b w)) = db_batches (g_db w)"
  by (auto simp: onBatchOpen_def app_event_def emit_append_def app_emitter_def on_postgres_def NewDB_def pgOutbox_def pg_Append_def
      keeps_def exec_sql_def stmt_def insert_entry_def Let_def case_prod_beta split: option.split sum.split)

lemma open_pg:
  "keeps w (snd (pg_OpenBatch (pool dec faults jsonb) p w))"
  "db_members (g_db (snd (pg_OpenBatch (pool dec faults jsonb) p w))) = db_members (g_db w)"
  by (auto simp: pg_OpenBatch_def begin_tx_def commit_def stmt_def insert_open_def keeps_def Let_def
      split: option.split)

text \<open>A write of a membership: it is refused, it is there already, or its row is appended.\<close>

lemma add_pg:
  assumes "(r, w') = pg_AddMembership (pool dec faults jsonb) m w"
  shows "keeps w w'" and "db_batches (g_db w') = db_batches (g_db w)"
    and "db_members (g_db w') = db_members (g_db w) \<or>
      (\<exists>x. db_members (g_db w') = db_members (g_db w) @ [x] \<and> scan_member x = m\<lparr>m_ID := g_ids w (g_idn w),
         m_CreatedAt := of_tstz (to_tstz (m_CreatedAt m))\<rparr> \<and> m_TxID m \<notin> mr_tx_id ` set (db_members (g_db w)))"
  using assms
  by (auto simp: pg_AddMembership_def keeps_def exec_sql_def stmt_def insert_member_def scan_member_def Let_def case_prod_beta
      split: option.splits sum.splits if_splits)

section \<open>One event\<close>

text \<open>
  \<open>adds_at_most ev w w'\<close>: the members of \<open>w'\<close> are those of \<open>w\<close>, or these and one of \<open>ev\<close>, whose
  transaction was new.
\<close>

definition pg_txs :: "pg_world \<Rightarrow> string set" where
  "pg_txs w = mr_tx_id ` set (db_members (g_db w))"

definition pg_views :: "pg_world \<Rightarrow> (string \<times> decimal \<times> decimal \<times> string \<times> string) list" where
  "pg_views w = map (member_view \<circ> scan_member) (db_members (g_db w))"

definition adds_at_most :: "TxCompletedEvent \<Rightarrow> pg_world \<Rightarrow> pg_world \<Rightarrow> bool" where
  "adds_at_most ev w w' \<longleftrightarrow> db_members (g_db w') = db_members (g_db w) \<or>
     valid_event ev \<and> ev_TxID ev \<notin> pg_txs w \<and> pg_views w' = pg_views w @ [event_view ev]"

lemma joined_row:
  "scan_member x = (event_membership uid ev)\<lparr>m_ID := i, m_CreatedAt := t\<rparr> \<Longrightarrow> member_view (scan_member x) = event_view ev"
  by (simp add: member_view_def event_view_def event_membership_def pair_of_member_def)

lemma join_pg:
  assumes "valid_event ev" and "w' = join_batch (pg_rt dec) (pg_consumer cfg dec faults jsonb S) ev pair w"
  shows "adds_at_most ev w w' \<and> g_idem w' = g_idem w \<and> g_clock w' = g_clock w"
proof -
  let ?bs = "pgBatch (pool dec faults jsonb)" and ?ms = "pgMember (pool dec faults jsonb)"
  obtain r1 s1 where o1: "pg_OpenBatch (pool dec faults jsonb) pair w = (r1, s1)" by fastforce
  then have s1: "keeps w s1" "db_members (g_db s1) = db_members (g_db w)"
    using open_pg [where w = w and dec = dec and faults = faults and jsonb = jsonb and p = pair] by simp_all
  show ?thesis
  proof (cases r1)
    case (Inl e)
    then have "w' = s1\<lparr>g_metrics := g_metrics s1 @ [EventsConsumed pair ''open_error'']\<rparr>"
      using assms(2) o1 by (simp add: join_batch_def pgBatch_def)
    with s1 show ?thesis by (simp add: adds_at_most_def keeps_def)
  next
    case (Inr b)
    define ex where "ex = fst (ListMemberships ?ms (b_ID b) s1)"
    define s2 where "s2 = snd (ListMemberships ?ms (b_ID b) s1)"
    obtain r3 s3 where o3: "pg_AddMembership (pool dec faults jsonb) (event_membership (b_ID b) ev) s2 = (r3, s3)" by fastforce
    note a = add_pg [OF o3 [symmetric]]
    define fire where "fire = (case ex of Inl _ \<Rightarrow> True | Inr ms \<Rightarrow> ms = [])"
    define s4 where "s4 = (if fire then pg_hook dec faults jsonb S b s3 else s3)"
    define s5 where "s5 = snd (SumNotional ?ms (b_ID b) s4)"
    define s6 where "s6 = snd (SetBatchNotional ?bs (b_ID b) (value_or_zero (fst (SumNotional ?ms (b_ID b) s4))) s5)"
    have w': "w' = (case r3 of Inl e \<Rightarrow> s3\<lparr>g_metrics := g_metrics s3 @ [EventsConsumed pair ''store_error'']\<rparr>
        | Inr _ \<Rightarrow> s6\<lparr>g_metrics := g_metrics s6 @ [EventsConsumed pair ''ok'']\<rparr>)"
      using assms(2) o1 Inr o3
      by (simp add: join_batch_def pgBatch_def pgMember_def s6_def s5_def s4_def s2_def ex_def fire_def case_prod_beta Let_def
          split: sum.split)
    have s2: "keeps s1 s2" "g_db s2 = g_db s1" by (simp_all add: s2_def reads_keep)
    have k3: "keeps w s3" by (rule keeps_trans [OF keeps_trans [OF s1(1) s2(1)] a(1)])
    have s4: "keeps s3 s4" "db_members (g_db s4) = db_members (g_db s3)" by (simp_all add: s4_def hook_pg)
    have s5: "keeps s4 s5" "g_db s5 = g_db s4" by (simp_all add: s5_def reads_keep)
    have s6: "keeps s5 s6" "db_members (g_db s6) = db_members (g_db s5)" by (simp_all add: s6_def reads_keep notional_pg)
    have k6: "keeps w s6" by (rule keeps_trans [OF keeps_trans [OF keeps_trans [OF k3 s4(1)] s5(1)] s6(1)])
    have "db_members (g_db s3) = db_members (g_db w) \<or>
        ev_TxID ev \<notin> pg_txs w \<and> (\<exists>x. db_members (g_db s3) = db_members (g_db w) @ [x] \<and> member_view (scan_member x) = event_view ev)"
      using a(3) joined_row unfolding pg_txs_def s2(2) s1(2) by (auto simp: event_membership_def)
    then have "adds_at_most ev w s3" using assms(1) by (auto simp: adds_at_most_def pg_views_def)
    moreover have "db_members (g_db s6) = db_members (g_db s3)" using s4 s5 s6 by simp
    ultimately show ?thesis
      using k3 k6 unfolding w' by (cases r3) (simp_all add: adds_at_most_def pg_views_def keeps_def)
  qed
qed

text \<open>An event claims the key of its transaction before anything is stored.\<close>

lemma handle_pg:
  assumes "w' = handle (pg_rt dec) (pg_consumer cfg dec faults jsonb S) ev w"
  shows "adds_at_most ev w w'" and "g_clock w' = g_clock w"
    and "g_idem w' = (if valid_event ev then snd (ms_CheckAndMark (g_clock w (g_reads w)) (''tx:'' @ ev_TxID ev) (24 * hour) (g_idem w))
      else g_idem w)"
    and "valid_event ev \<Longrightarrow> held (ms_seen (g_idem w)) (g_clock w (g_reads w)) (''tx:'' @ ev_TxID ev) \<Longrightarrow> g_db w' = g_db w"
proof -
  let ?pair = "ev_Asset ev @ ''/'' @ ev_FiatCurrency ev"
  have "adds_at_most ev w w' \<and> g_clock w' = g_clock w \<and>
    g_idem w' = (if valid_event ev then snd (ms_CheckAndMark (g_clock w (g_reads w)) (''tx:'' @ ev_TxID ev) (24 * hour) (g_idem w))
      else g_idem w) \<and>
    (valid_event ev \<and> held (ms_seen (g_idem w)) (g_clock w (g_reads w)) (''tx:'' @ ev_TxID ev) \<longrightarrow> g_db w' = g_db w)"
  proof (cases "valid_event ev")
    case False
    then show ?thesis by (auto simp: assms handle_def deadLetter_def valid_event_def adds_at_most_def)
  next
    case True
    obtain ok m where m: "ms_CheckAndMark (g_clock w (g_reads w)) (''tx:'' @ ev_TxID ev) (24 * hour) (g_idem w) = (ok, m)"
      by fastforce
    define s1 where "s1 = w\<lparr>g_reads := Suc (g_reads w), g_idem := m\<rparr>"
    obtain r2 s2 where o2: "ExistsByTxID (pgMember (pool dec faults jsonb)) (ev_TxID ev) s1 = (r2, s2)" by fastforce
    have s2: "keeps s1 s2" "g_db s2 = g_db s1"
      using reads_keep(3) [where w = s1 and dec = dec and faults = faults and jsonb = jsonb and tx = "ev_TxID ev"]
        reads_pg(3) [where w = s1 and dec = dec and faults = faults and jsonb = jsonb and tx = "ev_TxID ev"] o2 by simp_all
    have j: "w' = (if \<not> ok then s1\<lparr>g_metrics := g_metrics s1 @ [EventsConsumed ?pair ''dup'']\<rparr>
        else case r2 of Inl e \<Rightarrow> s2\<lparr>g_metrics := g_metrics s2 @ [EventsConsumed ?pair ''store_error'']\<rparr>
          | Inr ex \<Rightarrow> if ex then s2\<lparr>g_metrics := g_metrics s2 @ [EventsConsumed ?pair ''dup'']\<rparr>
              else join_batch (pg_rt dec) (pg_consumer cfg dec faults jsonb S) ev ?pair s2)"
      using True m o2 by (simp add: assms handle_def valid_event_def memIdem_def s1_def Let_def split: sum.split)
    have ok: "ok = (\<not> held (ms_seen (g_idem w)) (g_clock w (g_reads w)) (''tx:'' @ ev_TxID ev))"
      using ms_claim_seen [OF m] by simp
    have same: "g_db s2 = g_db w" "g_clock s2 = g_clock w" "g_idem s2 = m" "g_db s1 = g_db w" "g_clock s1 = g_clock w" "g_idem s1 = m"
      using s2 by (simp_all add: s1_def keeps_def)
    have join: "adds_at_most ev w v \<and> g_idem v = m \<and> g_clock v = g_clock w"
      if "v = join_batch (pg_rt dec) (pg_consumer cfg dec faults jsonb S) ev ?pair s2" for v
      using join_pg [OF True that] same by (simp add: adds_at_most_def pg_txs_def pg_views_def)
    show ?thesis
    proof (cases "ok \<and> r2 = Inr False")
      case join': True
      then show ?thesis using join [of w'] j True m ok by simp
    next
      case False
      then have "g_db w' = g_db w \<and> g_clock w' = g_clock w \<and> g_idem w' = m"
        using j same by (auto split: sum.splits)
      then show ?thesis using True m by (simp add: adds_at_most_def)
    qed
  qed
  then show "adds_at_most ev w w'" and "g_clock w' = g_clock w"
    and "g_idem w' = (if valid_event ev then snd (ms_CheckAndMark (g_clock w (g_reads w)) (''tx:'' @ ev_TxID ev) (24 * hour) (g_idem w))
      else g_idem w)"
    and "valid_event ev \<Longrightarrow> held (ms_seen (g_idem w)) (g_clock w (g_reads w)) (''tx:'' @ ev_TxID ev) \<Longrightarrow> g_db w' = g_db w"
    by blast+
qed

section \<open>A stream, whatever fails\<close>

lemma pg_txs_views: "pg_txs w = fst ` set (pg_views w)"
  by (simp add: pg_txs_def pg_views_def image_image member_view_def scan_member_def)

lemma adds_at_most_txs:
  "adds_at_most ev w w' \<Longrightarrow> pg_txs w' = pg_txs w \<and> pg_views w' = pg_views w \<or>
     valid_event ev \<and> ev_TxID ev \<notin> pg_txs w \<and> pg_views w' = pg_views w @ [event_view ev] \<and>
     pg_txs w' = insert (ev_TxID ev) (pg_txs w)"
proof (unfold adds_at_most_def, elim disjE conjE)
  assume "db_members (g_db w') = db_members (g_db w)"
  then show ?thesis by (simp add: pg_txs_def pg_views_def)
next
  assume "valid_event ev" "ev_TxID ev \<notin> pg_txs w" "pg_views w' = pg_views w @ [event_view ev]"
  moreover from this(3) have "pg_txs w' = insert (ev_TxID ev) (pg_txs w)" by (simp add: pg_txs_views event_view_def)
  ultimately show ?thesis by blast
qed

text \<open>The members added are those of valid events of the stream, in its order, each transaction once.\<close>

lemma run_pg:
  "\<exists>es. subseq es (filter valid_event evs) \<and> distinct (map ev_TxID es) \<and> ev_TxID ` set es \<inter> pg_txs w = {} \<and>
     pg_views (Run_events (pg_rt dec) (pg_consumer cfg dec faults jsonb S) evs w) = pg_views w @ map event_view es"
proof (induction evs arbitrary: w)
  case Nil
  then show ?case by (intro exI [of _ "[]"]) simp
next
  case (Cons ev evs)
  let ?w = "handle (pg_rt dec) (pg_consumer cfg dec faults jsonb S) ev w"
  obtain es where es: "subseq es (filter valid_event evs)" "distinct (map ev_TxID es)" "ev_TxID ` set es \<inter> pg_txs ?w = {}"
    "pg_views (Run_events (pg_rt dec) (pg_consumer cfg dec faults jsonb S) evs ?w) = pg_views ?w @ map event_view es"
    using Cons.IH by blast
  from adds_at_most_txs [OF handle_pg(1) [OF refl, where dec = dec and cfg = cfg and faults = faults and jsonb = jsonb and S = S and ev = ev and w = w]] show ?case
  proof (elim disjE conjE)
    assume "pg_txs ?w = pg_txs w" "pg_views ?w = pg_views w"
    with es show ?thesis by (intro exI [of _ es]) (auto intro: subseq_Cons')
  next
    assume "valid_event ev" "ev_TxID ev \<notin> pg_txs w" "pg_views ?w = pg_views w @ [event_view ev]"
      "pg_txs ?w = insert (ev_TxID ev) (pg_txs w)"
    with es show ?thesis by (intro exI [of _ "ev # es"]) auto
  qed
qed

text \<open>
  An event that was handled once, stored or not, is never handled again within the day its key is
  held, however often it is delivered.
\<close>

lemma key_held_runs:
  assumes "ms_seen (g_idem w) (''tx:'' @ tx) = Some e" and "\<forall>n. g_clock w n < e" and "\<forall>ev \<in> set evs. ev_TxID ev = tx"
    and "\<forall>ev \<in> set evs. valid_event ev"
  shows "g_db (Run_events (pg_rt dec) (pg_consumer cfg dec faults jsonb S) evs w) = g_db w"
  using assms
proof (induction evs arbitrary: w)
  case Nil
  then show ?case by simp
next
  case (Cons ev evs)
  define u where "u = handle (pg_rt dec) (pg_consumer cfg dec faults jsonb S) ev w"
  have v: "valid_event ev" "ev_TxID ev = tx" using Cons.prems by simp_all
  have h: "held (ms_seen (g_idem w)) (g_clock w (g_reads w)) (''tx:'' @ ev_TxID ev)"
    using Cons.prems(1,2) v(2) by (simp add: held_def)
  note p = handle_pg [OF u_def]
  have idem: "ms_CheckAndMark (g_clock w (g_reads w)) (''tx:'' @ ev_TxID ev) (24 * hour) (g_idem w) = (False, g_idem w)"
    using Cons.prems(1,2) v(2) by (simp add: ms_CheckAndMark_def)
  have "g_idem u = g_idem w" using p(3) v(1) idem by simp
  with Cons.prems p(2) have "g_db (Run_events (pg_rt dec) (pg_consumer cfg dec faults jsonb S) evs u) = g_db u"
    by (intro Cons.IH) simp_all
  with p(4) [OF v(1) h] show ?case by (simp add: u_def)
qed

lemma redelivered_pg:
  assumes "valid_event ev" and "ms_seen (g_idem w) (''tx:'' @ ev_TxID ev) = None"
    and "\<forall>n. T \<le> g_clock w n \<and> g_clock w n < T + 24 * hour"
    and "w' = handle (pg_rt dec) (pg_consumer cfg dec faults jsonb S) ev w"
    and "\<forall>ev' \<in> set evs. valid_event ev' \<and> ev_TxID ev' = ev_TxID ev"
  shows "g_db (Run_events (pg_rt dec) (pg_consumer cfg dec faults' jsonb S) evs w') = g_db w'"
proof -
  note p = handle_pg [OF assms(4)]
  have "ms_seen (g_idem w') (''tx:'' @ ev_TxID ev) = Some (g_clock w (g_reads w) + 24 * hour)"
    using p(3) assms(1,2) by (simp add: ms_CheckAndMark_def)
  moreover have "\<forall>n. g_clock w' n < g_clock w (g_reads w) + 24 * hour"
  proof
    fix n
    have "g_clock w n < T + 24 * hour" "T \<le> g_clock w (g_reads w)" using assms(3) by blast+
    then show "g_clock w' n < g_clock w (g_reads w) + 24 * hour" unfolding p(2) by linarith
  qed
  ultimately show ?thesis using assms(5) by (intro key_held_runs) auto
qed

section \<open>A stream, while nothing fails\<close>

text \<open>Identifiers in use were generated, and a key that is held is that of a member.\<close>

definition pg_ok :: "pg_world \<Rightarrow> bool" where
  "pg_ok w \<longleftrightarrow> inj (g_ids w) \<and> br_id ` set (db_batches (g_db w)) \<subseteq> g_ids w ` {..<g_idn w} \<and>
     mr_id ` set (db_members (g_db w)) \<subseteq> g_ids w ` {..<g_idn w} \<and>
     (\<forall>tx. ms_seen (g_idem w) (''tx:'' @ tx) \<noteq> None \<longrightarrow> tx \<in> pg_txs w)"

lemma fresh_id: "inj f \<Longrightarrow> X \<subseteq> f ` {..<n} \<Longrightarrow> f (n::nat) \<notin> X"
  using inj_image_mem_iff [of f n "{..<n}"] by auto

lemma ids_grow: "X \<subseteq> f ` {..<n} \<Longrightarrow> n \<le> (m::nat) \<Longrightarrow> X \<subseteq> f ` {..<m}"
  by (meson image_mono lessThan_subset_iff order_trans)

lemma open_live:
  assumes "g_ids w (g_idn w) \<notin> br_id ` set (db_batches (g_db w))"
    and "(r, w') = pg_OpenBatch (pool dec no_faults jsonb) p w"
  shows "\<exists>b. r = Inr b \<and> b_ID b \<in> br_id ` set (db_batches (g_db w')) \<and>
    br_id ` set (db_batches (g_db w')) \<subseteq> insert (g_ids w (g_idn w)) (br_id ` set (db_batches (g_db w))) \<and>
    (g_idn w' = g_idn w \<longrightarrow> db_batches (g_db w') = db_batches (g_db w))"
  using assms find_open_in
  by (auto simp: pg_OpenBatch_def begin_tx_def commit_def insert_open_def Let_def split: option.splits)

lemma add_live:
  assumes "g_ids w (g_idn w) \<notin> mr_id ` set (db_members (g_db w))" and "m_TxID m \<notin> pg_txs w"
    and "m_BatchID m \<in> br_id ` set (db_batches (g_db w))"
    and "(r, w') = pg_AddMembership (pool dec no_faults jsonb) m w"
  shows "r = Inr True" and "g_idn w' = Suc (g_idn w)"
    and "\<exists>x. db_members (g_db w') = db_members (g_db w) @ [x] \<and> mr_id x = g_ids w (g_idn w) \<and> mr_tx_id x = m_TxID m"
  using assms
  by (auto simp: pg_AddMembership_def exec_sql_def insert_member_def pg_txs_def Let_def)

text \<open>A new transaction becomes a member, and the identifiers stay fresh.\<close>

lemma hook_live: "g_idn w \<le> g_idn (pg_hook dec faults jsonb S b w)" "g_ids (pg_hook dec faults jsonb S b w) = g_ids w"
  using hook_pg(1) [of w dec faults jsonb S b] by (simp_all add: keeps_def)

lemma join_live:
  assumes ok: "inj (g_ids w)" "br_id ` set (db_batches (g_db w)) \<subseteq> g_ids w ` {..<g_idn w}"
      "mr_id ` set (db_members (g_db w)) \<subseteq> g_ids w ` {..<g_idn w}"
    and new: "valid_event ev" "ev_TxID ev \<notin> pg_txs w"
    and w': "w' = join_batch (pg_rt dec) (pg_consumer cfg dec no_faults jsonb S) ev pair w"
  shows "ev_TxID ev \<in> pg_txs w' \<and> g_ids w' = g_ids w \<and> br_id ` set (db_batches (g_db w')) \<subseteq> g_ids w ` {..<g_idn w'} \<and>
    mr_id ` set (db_members (g_db w')) \<subseteq> g_ids w ` {..<g_idn w'}"
proof -
  let ?bs = "pgBatch (pool dec no_faults jsonb)" and ?ms = "pgMember (pool dec no_faults jsonb)"
  obtain r1 s1 where o1: "pg_OpenBatch (pool dec no_faults jsonb) pair w = (r1, s1)" by fastforce
  obtain b where b: "r1 = Inr b" "b_ID b \<in> br_id ` set (db_batches (g_db s1))"
      "br_id ` set (db_batches (g_db s1)) \<subseteq> insert (g_ids w (g_idn w)) (br_id ` set (db_batches (g_db w)))"
      "g_idn s1 = g_idn w \<longrightarrow> db_batches (g_db s1) = db_batches (g_db w)"
    using open_live [OF fresh_id [OF ok(1,2)] o1 [symmetric]] by blast
  have s1: "g_ids s1 = g_ids w" "g_idn w \<le> g_idn s1" "db_members (g_db s1) = db_members (g_db w)"
    using open_pg [where w = w and dec = dec and faults = no_faults and jsonb = jsonb and p = pair] o1 by (simp_all add: keeps_def)
  have b1: "br_id ` set (db_batches (g_db s1)) \<subseteq> g_ids w ` {..<g_idn s1}"
  proof (cases "g_idn s1 = g_idn w")
    case True
    then show ?thesis using b(4) ok(2) by simp
  next
    case False
    then have "g_idn w \<in> {..<g_idn s1}" using s1(2) by simp
    then show ?thesis using b(3) ids_grow [OF ok(2) s1(2)] by blast
  qed
  define s2 where "s2 = snd (ListMemberships ?ms (b_ID b) s1)"
  have s2: "g_ids s2 = g_ids w" "g_idn s1 \<le> g_idn s2" "g_db s2 = g_db s1"
    using reads_keep(1) [where w = s1 and dec = dec and faults = no_faults and jsonb = jsonb and uid = "b_ID b"] s1(1)
    by (simp_all add: s2_def keeps_def)
  obtain r3 s3 where o3: "pg_AddMembership (pool dec no_faults jsonb) (event_membership (b_ID b) ev) s2 = (r3, s3)" by fastforce
  have m2: "mr_id ` set (db_members (g_db s2)) \<subseteq> g_ids s2 ` {..<g_idn s2}"
    using ids_grow [OF ok(3)] s1 s2 by simp
  have a: "r3 = Inr True" "g_idn s3 = Suc (g_idn s2)"
    "\<exists>x. db_members (g_db s3) = db_members (g_db s2) @ [x] \<and> mr_id x = g_ids s2 (g_idn s2) \<and> mr_tx_id x = ev_TxID ev"
    using add_live [OF fresh_id [OF ok(1) [folded s2(1)] m2] _ _ o3 [symmetric]] new(2) b(2) s1(3) s2(3)
    by (simp_all add: event_membership_def pg_txs_def)
  note a' = add_pg(1,2) [OF o3 [symmetric]]
  define s4 where "s4 = (if (case fst (ListMemberships ?ms (b_ID b) s1) of Inl _ \<Rightarrow> True | Inr ms \<Rightarrow> ms = [])
    then pg_hook dec no_faults jsonb S b s3 else s3)"
  have s4: "g_ids s4 = g_ids w" "g_idn s3 \<le> g_idn s4" "db_members (g_db s4) = db_members (g_db s3)"
      "db_batches (g_db s4) = db_batches (g_db s3)"
    using a'(1) s2(1) by (simp_all add: s4_def hook_pg hook_live keeps_def)
  define s5 where "s5 = snd (SumNotional ?ms (b_ID b) s4)"
  define s6 where "s6 = snd (SetBatchNotional ?bs (b_ID b) (value_or_zero (fst (SumNotional ?ms (b_ID b) s4))) s5)"
  have w': "w' = s6\<lparr>g_metrics := g_metrics s6 @ [EventsConsumed pair ''ok'']\<rparr>"
    using w' o1 b(1) o3 a(1)
    by (simp add: join_batch_def pgBatch_def pgMember_def s6_def s5_def s4_def s2_def case_prod_beta Let_def)
  have s5: "g_ids s5 = g_ids w" "g_idn s4 \<le> g_idn s5" "g_db s5 = g_db s4"
    using reads_keep(2) [where w = s4 and dec = dec and faults = no_faults and jsonb = jsonb and uid = "b_ID b"] s4(1)
    by (simp_all add: s5_def keeps_def)
  have s6: "g_ids s6 = g_ids w" "g_idn s5 \<le> g_idn s6" "db_members (g_db s6) = db_members (g_db s5)"
      "br_id ` set (db_batches (g_db s6)) = br_id ` set (db_batches (g_db s5))"
    using reads_keep(4) [where w = s5 and dec = dec and faults = no_faults and jsonb = jsonb and uid = "b_ID b"] s5(1)
      arg_cong [OF notional_pg(2), where f = set]
    by (simp_all add: s6_def keeps_def notional_pg(1))
  have le: "g_idn s1 \<le> g_idn s6" "Suc (g_idn s2) \<le> g_idn s6" using s2(2) a(2) s4(2) s5(2) s6(2) by simp_all
  have "br_id ` set (db_batches (g_db s6)) = br_id ` set (db_batches (g_db s1))"
    using s6(4) s5(3) s4(4) a'(2) s2(3) by simp
  then have "br_id ` set (db_batches (g_db s6)) \<subseteq> g_ids w ` {..<g_idn s6}" using ids_grow [OF b1 le(1)] by simp
  moreover have "mr_id ` set (db_members (g_db s2)) \<subseteq> g_ids w ` {..<g_idn s6}" "g_ids w (g_idn s2) \<in> g_ids w ` {..<g_idn s6}"
    using ids_grow [OF m2 [unfolded s2(1)], of "g_idn s6"] le(2) by simp_all
  then have "mr_id ` set (db_members (g_db s6)) \<subseteq> g_ids w ` {..<g_idn s6}" "ev_TxID ev \<in> pg_txs s6"
    using a(3) s2(1) unfolding pg_txs_def s6(3) s5(3) s4(3) by (elim exE conjE, simp)+
  ultimately show ?thesis using s6(1) by (simp add: w' pg_txs_def)
qed

text \<open>On events that are not new nothing but the key store, the clock and the metrics moves.\<close>

lemma handle_live:
  assumes "pg_ok w" and w': "w' = handle (pg_rt dec) (pg_consumer cfg dec no_faults jsonb S) ev w"
  shows "pg_ok w' \<and> (valid_event ev \<longrightarrow> ev_TxID ev \<in> pg_txs w')"
proof -
  let ?pair = "ev_Asset ev @ ''/'' @ ev_FiatCurrency ev"
  note ok = assms(1) [unfolded pg_ok_def]
  note p = handle_pg [OF w']
  show ?thesis
  proof (cases "valid_event ev")
    case False
    then have "w' = w\<lparr>g_metrics := g_metrics w @ [DeadLettered (cd_Topic (pg_consumer cfg dec no_faults jsonb S))]\<rparr>"
      by (auto simp: w' handle_def deadLetter_def valid_event_def)
    with ok False show ?thesis by (simp add: pg_ok_def pg_txs_def)
  next
    case True
    obtain c m where cm: "ms_CheckAndMark (g_clock w (g_reads w)) (''tx:'' @ ev_TxID ev) (24 * hour) (g_idem w) = (c, m)"
      by fastforce
    have m: "g_idem w' = m" using p(3) True cm by simp
    have seen: "ms_seen m k \<noteq> None \<Longrightarrow> k = ''tx:'' @ ev_TxID ev \<or> ms_seen (g_idem w) k \<noteq> None" for k
      using cm by (auto simp: ms_CheckAndMark_def split: option.splits if_splits)
    define s1 where "s1 = w\<lparr>g_reads := Suc (g_reads w), g_idem := m\<rparr>"
    define s2 where "s2 = snd (ExistsByTxID (pgMember (pool dec no_faults jsonb)) (ev_TxID ev) s1)"
    have e: "ExistsByTxID (pgMember (pool dec no_faults jsonb)) (ev_TxID ev) s1 = (Inr (ev_TxID ev \<in> pg_txs w), s2)"
      by (auto simp: s2_def pgMember_def pg_ExistsByTxID_def query_def list_ex_iff pg_txs_def s1_def intro: rev_image_eqI)
    have s2: "keeps s1 s2" "g_db s2 = g_db w"
      using reads_keep(3) [where w = s1 and dec = dec and faults = no_faults and jsonb = jsonb and tx = "ev_TxID ev"]
        reads_pg(3) [where w = s1 and dec = dec and faults = no_faults and jsonb = jsonb and tx = "ev_TxID ev"]
      by (simp_all add: s2_def s1_def)
    have j: "w' = (if \<not> c then s1\<lparr>g_metrics := g_metrics s1 @ [EventsConsumed ?pair ''dup'']\<rparr>
        else if ev_TxID ev \<in> pg_txs w then s2\<lparr>g_metrics := g_metrics s2 @ [EventsConsumed ?pair ''dup'']\<rparr>
        else join_batch (pg_rt dec) (pg_consumer cfg dec no_faults jsonb S) ev ?pair s2)"
      using True e cm by (simp add: w' handle_def valid_event_def memIdem_def s1_def Let_def)
    have held: "\<not> c \<Longrightarrow> ev_TxID ev \<in> pg_txs w"
      using ok cm by (auto simp: ms_CheckAndMark_def split: option.splits if_splits)
    have "ev_TxID ev \<in> pg_txs w' \<and> pg_txs w \<subseteq> pg_txs w' \<and> inj (g_ids w') \<and>
      br_id ` set (db_batches (g_db w')) \<subseteq> g_ids w' ` {..<g_idn w'} \<and> mr_id ` set (db_members (g_db w')) \<subseteq> g_ids w' ` {..<g_idn w'}"
    proof (cases "ev_TxID ev \<in> pg_txs w")
      case known: True
      have "g_ids s2 = g_ids w" "g_idn w \<le> g_idn s2" using s2(1) by (simp_all add: keeps_def s1_def)
      then have "g_ids w' = g_ids w" "g_idn w \<le> g_idn w'" "g_db w' = g_db w" using j known s2(2) by (auto simp: s1_def)
      with known ok show ?thesis by (auto simp: pg_txs_def dest: set_mp [OF ids_grow])
    next
      case new: False
      then have c: c using held by blast
      have s2': "inj (g_ids s2)" "g_ids s2 = g_ids w" "g_idn w \<le> g_idn s2" "pg_txs s2 = pg_txs w"
        using s2 ok by (simp_all add: keeps_def s1_def pg_txs_def)
      have "br_id ` set (db_batches (g_db s2)) \<subseteq> g_ids s2 ` {..<g_idn s2}" "mr_id ` set (db_members (g_db s2)) \<subseteq> g_ids s2 ` {..<g_idn s2}"
        unfolding s2(2) s2'(2) by (rule ids_grow [OF _ s2'(3)], use ok in simp)+
      note jl = join_live [OF s2'(1) this True _ refl, unfolded s2'(4), OF new, where dec = dec and cfg = cfg and jsonb = jsonb
          and S = S and pair = ?pair]
      have w2: "w' = join_batch (pg_rt dec) (pg_consumer cfg dec no_faults jsonb S) ev ?pair s2" using j c new by simp
      have "pg_txs w \<subseteq> pg_txs w'" using adds_at_most_txs [OF p(1)] by auto
      with jl s2'(1) show ?thesis unfolding w2 by simp
    qed
    moreover have "tx = ev_TxID ev \<or> tx \<in> pg_txs w" if "ms_seen (g_idem w') (''tx:'' @ tx) \<noteq> None" for tx
    proof -
      have "ms_seen (g_idem w) (''tx:'' @ tx) \<noteq> None \<longrightarrow> tx \<in> pg_txs w" using ok by blast
      then show ?thesis using seen [OF that [unfolded m]] by auto
    qed
    ultimately show ?thesis unfolding pg_ok_def by blast
  qed
qed

text \<open>So the members are the accepted events of the stream, as they are in memory.\<close>

lemma run_live:
  assumes "pg_ok w"
  shows "pg_views (Run_events (pg_rt dec) (pg_consumer cfg dec no_faults jsonb S) evs w) =
    pg_views w @ map event_view (accepted (pg_txs w) evs)"
  using assms
proof (induction evs arbitrary: w)
  case Nil
  then show ?case by simp
next
  case (Cons ev evs)
  define u where "u = handle (pg_rt dec) (pg_consumer cfg dec no_faults jsonb S) ev w"
  have u: "pg_ok u" "valid_event ev \<longrightarrow> ev_TxID ev \<in> pg_txs u" using handle_live [OF Cons.prems u_def] by simp_all
  have "pg_views u @ map event_view (accepted (pg_txs u) evs) = pg_views w @ map event_view (accepted (pg_txs w) (ev # evs))"
    using adds_at_most_txs [OF handle_pg(1) [OF u_def]] u(2) by auto
  then show ?case using Cons.IH [OF u(1)] by (simp add: u_def)
qed

lemma pg_ok_new:
  assumes "inj (g_ids w)" and "g_db w = NewTables" and "g_idem w = NewMem"
  shows "pg_ok w" and "pg_views w = []" and "pg_txs w = {}"
  using assms by (simp_all add: pg_ok_def pg_views_def pg_txs_def NewTables_def NewMem_def)

end
