(* ===== verification/Migration_Db.thy ===== *)
theory Migration_Db
  imports Migrations
begin

text \<open>
  What the migrations promise. Reading a directory gives the versions named in it, in order and
  each complete, and is inverse to writing migrations out as files. On a database that answers
  (the locale \<open>migration_db\<close>) \<open>Up\<close> executes exactly the scripts of the versions that are not
  recorded, and \<open>Down\<close> those that are, in the reverse order; the database at the end of this
  theory keeps the contract, and shows that an interrupted run is completed by the next one.
\<close>

section \<open>Reading the directory\<close>

lemma suffix_split: "has_suffix sfx name \<longleftrightarrow> (\<exists>v. name = v @ sfx)"
  by (auto simp: has_suffix_def suffix_def)

lemma trim_suffix_append [simp]: "trim_suffix sfx (v @ sfx) = v"
  by (simp add: trim_suffix_def has_suffix_def suffix_def)

lemma has_suffix_append [simp]: "has_suffix sfx (v @ sfx)"
  by (simp add: has_suffix_def suffix_def)

text \<open>No name is a script of both kinds.\<close>

lemma up_not_down [simp]: "\<not> has_suffix up_suffix (v @ down_suffix)" "\<not> has_suffix down_suffix (v @ up_suffix)"
  by (auto simp: has_suffix_def up_suffix_def down_suffix_def suffix_to_prefix)

definition versions_wf :: "(string \<times> Migration) list \<Rightarrow> bool" where
  "versions_wf byv \<longleftrightarrow> distinct (map fst byv) \<and> (\<forall>(v, m) \<in> set byv. Version m = v)"

lemma versions_wf_map_of: "versions_wf byv \<Longrightarrow> map_of byv v = Some m \<Longrightarrow> Version m = v"
  by (auto simp: versions_wf_def dest: map_of_SomeD)

lemma update_set: "p \<in> set (AList.update k x al) \<Longrightarrow> p = (k, x) \<or> p \<in> set al"
  by (induction al) (auto split: if_splits)

lemma put_file_wf:
  assumes "versions_wf byv" and "\<And>m. Version (f m) = Version m"
  shows "versions_wf (put_file v f byv)"
proof -
  let ?m = "f (case map_of byv v of None \<Rightarrow> \<lparr>Version = v, Mig_Up = [], Mig_Down = []\<rparr> | Some m \<Rightarrow> m)"
  have "Version ?m = v" using versions_wf_map_of [OF assms(1)] assms(2) by (simp split: option.split)
  moreover have "distinct (map fst (put_file v f byv))"
    using assms(1) by (simp add: versions_wf_def put_file_def distinct_update)
  ultimately show ?thesis
    using assms(1) update_set unfolding versions_wf_def put_file_def by fastforce
qed

lemma put_file_keys: "fst ` set (put_file v f byv) = insert v (fst ` set byv)"
  by (simp add: put_file_def dom_update)

text \<open>The versions a directory names.\<close>

definition named :: "DirEntry list \<Rightarrow> string set" where
  "named es = {v. \<exists>e \<in> set es. \<not> IsDir e \<and> (Name e = v @ up_suffix \<or> Name e = v @ down_suffix)}"

lemma named_Cons:
  "named (e # es) = {v. \<not> IsDir e \<and> (Name e = v @ up_suffix \<or> Name e = v @ down_suffix)} \<union> named es"
  by (auto simp: named_def)

lemma read_entries_spec:
  assumes "read_entries es byv = Inr byv'" and "versions_wf byv"
  shows "versions_wf byv' \<and> fst ` set byv' = fst ` set byv \<union> named es"
  using assms
proof (induction es byv rule: read_entries.induct)
  case (1 byv)
  then show ?case by (simp add: named_def)
next
  case (2 e es byv)
  consider "IsDir e" | v where "\<not> IsDir e" "Name e = v @ up_suffix" | v where "\<not> IsDir e" "Name e = v @ down_suffix"
    | "\<not> IsDir e" "\<not> has_suffix up_suffix (Name e)" "\<not> has_suffix down_suffix (Name e)"
    by (auto simp: suffix_split)
  then show ?case
  proof cases
    case 1
    then show ?thesis using 2 by (simp add: named_Cons)
  next
    case (2 v)
    have "{v'. Name e = v' @ up_suffix \<or> Name e = v' @ down_suffix} = {v}"
      using 2 by (auto simp: up_not_down dest: arg_cong [where f = "has_suffix down_suffix"])
    with 2 show ?thesis using "2.IH"(2) "2.prems" put_file_wf [OF "2.prems"(2)]
      by (auto simp: named_Cons put_file_keys split: sum.splits)
  next
    case (3 v)
    have "{v'. Name e = v' @ up_suffix \<or> Name e = v' @ down_suffix} = {v}"
      using 3 by (auto dest: arg_cong [where f = "has_suffix up_suffix"])
    with 3 show ?thesis using "2.IH"(3) "2.prems" put_file_wf [OF "2.prems"(2)]
      by (auto simp: named_Cons put_file_keys split: sum.splits)
  next
    case 4
    then show ?thesis using 2 by (auto simp: named_Cons suffix_split)
  qed
qed

lemma collect_spec:
  assumes "collect_versions byv vs = Inr ms" and "versions_wf byv"
  shows "map Version ms = vs \<and> (\<forall>m \<in> set ms. Mig_Up m \<noteq> [] \<and> Mig_Down m \<noteq> [])"
  using assms
proof (induction vs arbitrary: ms)
  case Nil
  then show ?case by simp
next
  case (Cons v vs)
  then obtain m ms' where "map_of byv v = Some m" "Mig_Up m \<noteq> []" "Mig_Down m \<noteq> []"
      "collect_versions byv vs = Inr ms'" "ms = m # ms'"
    by (auto split: option.splits if_splits sum.splits)
  then show ?case using Cons.IH [of ms'] Cons.prems(2) versions_wf_map_of [OF Cons.prems(2)] by simp
qed

lemma versions_wf_Nil [simp]: "versions_wf []"
  by (simp add: versions_wf_def)

lemma All_spec:
  assumes "All (Inr es) = Inr migs"
  shows "sorted (map Version migs)" "distinct (map Version migs)" "Version ` set migs = named es"
    "\<forall>m \<in> set migs. Mig_Up m \<noteq> [] \<and> Mig_Down m \<noteq> []"
proof -
  obtain byv where byv: "read_entries es [] = Inr byv" "collect_versions byv (sort (map fst byv)) = Inr migs"
    using assms by (auto simp: All_def split: sum.splits)
  note wf = read_entries_spec [OF byv(1) versions_wf_Nil]
  note c = collect_spec [OF byv(2)]
  have v: "map Version migs = sort (map fst byv)" using c wf by blast
  show "sorted (map Version migs)" by (simp add: v)
  show "distinct (map Version migs)" using wf by (simp add: v versions_wf_def)
  have "set (map Version migs) = set (map fst byv)" by (simp only: v set_sort)
  then show "Version ` set migs = named es" using wf by simp
  show "\<forall>m \<in> set migs. Mig_Up m \<noteq> [] \<and> Mig_Down m \<noteq> []" using c wf by blast
qed

text \<open>Migrations written out as the files of a directory, both scripts of each.\<close>

definition files_of :: "Migration list \<Rightarrow> DirEntry list" where
  "files_of ms = concat (map (\<lambda>m. [\<lparr>Name = Version m @ down_suffix, IsDir = False, ReadFile = Inr (Mig_Down m)\<rparr>,
     \<lparr>Name = Version m @ up_suffix, IsDir = False, ReadFile = Inr (Mig_Up m)\<rparr>]) ms)"

lemma read_files:
  assumes "distinct (map fst byv @ map Version ms)"
  shows "read_entries (files_of ms) byv = Inr (byv @ map (\<lambda>m. (Version m, m)) ms)"
  using assms
proof (induction ms arbitrary: byv)
  case Nil
  then show ?case by (simp add: files_of_def)
next
  case (Cons m ms)
  have fresh: "map_of byv (Version m) = None" using Cons.prems by (auto simp: map_of_eq_None_iff)
  have upd: "AList.update (Version m) x (byv @ ys) = byv @ AList.update (Version m) x ys" for x ys
    using Cons.prems by (induction byv) auto
  have "read_entries (files_of (m # ms)) byv = read_entries (files_of ms) (byv @ [(Version m, m)])"
    using fresh upd [of _ "[]"] upd [of _ "[(Version m, _)]"] 
    by (cases m) (simp add: files_of_def put_file_def map_add_def)
  then show ?case using Cons by simp
qed

lemma collect_all:
  assumes "\<forall>v \<in> set vs. \<exists>m. map_of byv v = Some m \<and> Mig_Up m \<noteq> [] \<and> Mig_Down m \<noteq> []"
  shows "collect_versions byv vs = Inr (map (\<lambda>v. the (map_of byv v)) vs)"
  using assms by (induction vs) auto

lemma All_files:
  assumes "sorted (map Version ms)" and "distinct (map Version ms)"
    and "\<forall>m \<in> set ms. Mig_Up m \<noteq> [] \<and> Mig_Down m \<noteq> []"
  shows "All (Inr (files_of ms)) = Inr ms"
proof -
  let ?byv = "map (\<lambda>m. (Version m, m)) ms"
  have m: "map_of ?byv (Version m) = Some m" if "m \<in> set ms" for m
    using that assms(2) by (simp add: map_of_eq_Some_iff comp_def)
  have fst: "map fst ?byv = map Version ms" by simp
  have sorted: "sort (map fst ?byv) = map Version ms" unfolding fst using assms(1) by (rule sorted_sort_id)
  have "collect_versions ?byv (map Version ms) = Inr (map (\<lambda>v. the (map_of ?byv v)) (map Version ms))"
    by (rule collect_all) (use m assms(3) in auto)
  also have "map (\<lambda>v. the (map_of ?byv v)) (map Version ms) = ms" using m by (simp add: map_idI)
  finally show ?thesis using read_files [of "[]" ms] assms(2) sorted by (simp add: All_def)
qed

section \<open>Applying and reverting\<close>

definition bookkeeping :: "string set" where
  "bookkeeping = {create_versions, insert_version, delete_version}"

text \<open>
  A script may itself touch the bookkeeping, as \<^verbatim>\<open>0001_up.sql\<close> does, but no other
  version than its own. \<open>marks q\<close> is what the script \<open>q\<close> makes of the recorded versions.
\<close>

definition tidy_up :: "(string \<Rightarrow> string set \<Rightarrow> string set) \<Rightarrow> Migration \<Rightarrow> bool" where
  "tidy_up marks m \<longleftrightarrow> Mig_Up m \<notin> bookkeeping \<and>
     (\<forall>vs. insert (Version m) (marks (Mig_Up m) vs) = insert (Version m) vs)"

definition tidy_down :: "(string \<Rightarrow> string set \<Rightarrow> string set) \<Rightarrow> Migration \<Rightarrow> bool" where
  "tidy_down marks m \<longleftrightarrow> Mig_Down m \<notin> bookkeeping \<and>
     (\<forall>vs. marks (Mig_Down m) vs - {Version m} = vs - {Version m})"

text \<open>
  The contract of the two functions: \<open>recorded\<close> is the bookkeeping table (\<open>None\<close> before it
  is created), \<open>ran\<close> the scripts executed so far, oldest first.
\<close>

lemma filter_other:
  "k \<notin> f ` set xs \<Longrightarrow> filter (\<lambda>x. f x \<notin> insert k vs) xs = filter (\<lambda>x. f x \<notin> vs) xs"
  "k \<notin> f ` set xs \<Longrightarrow> filter (\<lambda>x. f x \<in> vs \<and> f x \<noteq> k) xs = filter (\<lambda>x. f x \<in> vs) xs"
  by (induction xs) auto

locale migration_db =
  fixes rt :: "'s Rt" and r :: "'s RunnerWithQuery"
    and recorded :: "'s \<Rightarrow> string set option" and ran :: "'s \<Rightarrow> string list"
    and marks :: "string \<Rightarrow> string set \<Rightarrow> string set"
  assumes creates: "\<exists>s'. rq_exec r create_versions [] s = (None, s') \<and> ran s' = ran s \<and>
      recorded s' = Some (case recorded s of None \<Rightarrow> {} | Some vs \<Rightarrow> vs)"
    and runs: "q \<notin> bookkeeping \<Longrightarrow> recorded s = Some vs \<Longrightarrow>
      \<exists>s'. rq_exec r q [] s = (None, s') \<and> ran s' = ran s @ [q] \<and> recorded s' = Some (marks q vs)"
    and records: "recorded s = Some vs \<Longrightarrow>
      \<exists>s'. rq_exec r insert_version [TextArg v, TimeArg t] s = (None, s') \<and> ran s' = ran s \<and> recorded s' = Some (insert v vs)"
    and erases: "recorded s = Some vs \<Longrightarrow>
      \<exists>s'. rq_exec r delete_version [TextArg v] s = (None, s') \<and> ran s' = ran s \<and> recorded s' = Some (vs - {v})"
    and asks: "recorded s = Some vs \<Longrightarrow>
      \<exists>s'. rq_query r v s = (Inr (v \<in> vs), s') \<and> ran s' = ran s \<and> recorded s' = recorded s"
    and clock_quiet: "ran (snd (Now rt s)) = ran s" "recorded (snd (Now rt s)) = recorded s"
begin

lemma up_loop_spec:
  assumes "recorded s = Some vs" and "distinct (map Version ms)" and "\<forall>m \<in> set ms. tidy_up marks m"
  shows "\<exists>s'. up_loop rt (rq_exec r) (rq_query r) ms s = (None, s') \<and> recorded s' = Some (vs \<union> Version ` set ms) \<and>
    ran s' = ran s @ map Mig_Up (filter (\<lambda>m. Version m \<notin> vs) ms)"
  using assms
proof (induction ms arbitrary: s vs)
  case Nil
  then show ?case by simp
next
  case (Cons m ms)
  obtain s1 where s1: "rq_query r (Version m) s = (Inr (Version m \<in> vs), s1)" "ran s1 = ran s" "recorded s1 = Some vs"
    using asks [OF Cons.prems(1)] Cons.prems(1) by metis
  show ?case
  proof (cases "Version m \<in> vs")
    case True
    then show ?thesis using Cons.IH [OF s1(3)] Cons.prems s1 by (auto simp: insert_absorb)
  next
    case False
    have q: "Mig_Up m \<notin> bookkeeping" and mk: "insert (Version m) (marks (Mig_Up m) vs) = insert (Version m) vs"
      using Cons.prems(3) by (simp_all add: tidy_up_def)
    obtain s2 where s2: "rq_exec r (Mig_Up m) [] s1 = (None, s2)" "ran s2 = ran s @ [Mig_Up m]"
        "recorded s2 = Some (marks (Mig_Up m) vs)"
      using runs [OF q s1(3)] s1(2) by metis
    obtain now s3 where s3: "Now rt s2 = (now, s3)" by fastforce
    have "ran s3 = ran s2" "recorded s3 = recorded s2" using clock_quiet [of s2] s3 by simp_all
    then obtain s4 where s4: "rq_exec r insert_version [TextArg (Version m), TimeArg now] s3 = (None, s4)"
        "ran s4 = ran s @ [Mig_Up m]" "recorded s4 = Some (insert (Version m) vs)"
      using records [of s3 _ "Version m" now] s2 mk by fastforce
    have skip: "filter (\<lambda>x. Version x \<notin> insert (Version m) vs) ms = filter (\<lambda>x. Version x \<notin> vs) ms"
      by (rule filter_other) (use Cons.prems(2) in simp)
    obtain s' where "up_loop rt (rq_exec r) (rq_query r) ms s4 = (None, s')"
        "recorded s' = Some (insert (Version m) vs \<union> Version ` set ms)"
        "ran s' = ran s4 @ map Mig_Up (filter (\<lambda>x. Version x \<notin> vs) ms)"
      using Cons.IH [OF s4(3)] Cons.prems skip by auto
    then show ?thesis using False s1(1) s2(1) s3 s4(1,2) by auto
  qed
qed

lemma down_loop_spec:
  assumes "recorded s = Some vs" and "distinct (map Version ms)" and "\<forall>m \<in> set ms. tidy_down marks m"
  shows "\<exists>s'. down_loop (rq_exec r) (rq_query r) ms s = (None, s') \<and> recorded s' = Some (vs - Version ` set ms) \<and>
    ran s' = ran s @ map Mig_Down (filter (\<lambda>m. Version m \<in> vs) ms)"
  using assms
proof (induction ms arbitrary: s vs)
  case Nil
  then show ?case by simp
next
  case (Cons m ms)
  obtain s1 where s1: "rq_query r (Version m) s = (Inr (Version m \<in> vs), s1)" "ran s1 = ran s" "recorded s1 = Some vs"
    using asks [OF Cons.prems(1)] Cons.prems(1) by metis
  show ?case
  proof (cases "Version m \<in> vs")
    case False
    then show ?thesis using Cons.IH [OF s1(3)] Cons.prems s1 by (auto simp: Diff_insert0)
  next
    case True
    have q: "Mig_Down m \<notin> bookkeeping" and mk: "marks (Mig_Down m) vs - {Version m} = vs - {Version m}"
      using Cons.prems(3) by (simp_all add: tidy_down_def)
    obtain s2 where s2: "rq_exec r (Mig_Down m) [] s1 = (None, s2)" "ran s2 = ran s @ [Mig_Down m]"
        "recorded s2 = Some (marks (Mig_Down m) vs)"
      using runs [OF q s1(3)] s1(2) by metis
    obtain s3 where s3: "rq_exec r delete_version [TextArg (Version m)] s2 = (None, s3)"
        "ran s3 = ran s @ [Mig_Down m]" "recorded s3 = Some (vs - {Version m})"
      using erases [OF s2(3)] s2(2) mk by metis
    have skip: "filter (\<lambda>x. Version x \<in> vs \<and> Version x \<noteq> Version m) ms = filter (\<lambda>x. Version x \<in> vs) ms"
      by (rule filter_other) (use Cons.prems(2) in simp)
    obtain s' where s': "down_loop (rq_exec r) (rq_query r) ms s3 = (None, s')"
        "recorded s' = Some (vs - {Version m} - Version ` set ms)"
        "ran s' = ran s3 @ map Mig_Down (filter (\<lambda>x. Version x \<in> vs) ms)"
      using Cons.IH [OF s3(3)] Cons.prems skip by auto
    have "vs - {Version m} - Version ` set ms = vs - Version ` set (m # ms)" by auto
    then show ?thesis using True s' s1(1) s2(1) s3(1,2) by (intro exI [of _ s']) simp
  qed
qed

lemma Up_spec:
  assumes "All dir = Inr migs" and "distinct (map Version migs)" and "\<forall>m \<in> set migs. tidy_up marks m"
    and "vs = (case recorded s of None \<Rightarrow> {} | Some vs \<Rightarrow> vs)"
  shows "\<exists>s'. RunnerWithQuery_Up rt dir r s = (None, s') \<and> recorded s' = Some (vs \<union> Version ` set migs) \<and>
    ran s' = ran s @ map Mig_Up (filter (\<lambda>m. Version m \<notin> vs) migs)"
proof -
  obtain s1 where s1: "rq_exec r create_versions [] s = (None, s1)" "ran s1 = ran s" "recorded s1 = Some vs"
    using creates [of s] assms(4) by auto
  show ?thesis using up_loop_spec [OF s1(3) assms(2,3)] s1 assms(1) by (simp add: RunnerWithQuery_Up_def)
qed

lemma Down_spec:
  assumes "All dir = Inr migs" and "distinct (map Version migs)" and "\<forall>m \<in> set migs. tidy_down marks m"
    and "recorded s = Some vs"
  shows "\<exists>s'. RunnerWithQuery_Down dir r s = (None, s') \<and> recorded s' = Some (vs - Version ` set migs) \<and>
    ran s' = ran s @ map Mig_Down (filter (\<lambda>m. Version m \<in> vs) (rev migs))"
  using down_loop_spec [OF assms(4), of "rev migs"] assms(1-3)
  by (simp add: RunnerWithQuery_Down_def rev_map [symmetric])

end

section \<open>The database\<close>

text \<open>
  The bookkeeping table and the scripts executed. A statement on a missing table is refused; a
  script runs when its own statements find what they need: with the table there always, without
  it only when the script creates it (\<open>creates\<close>, as \<^verbatim>\<open>0001_up.sql\<close> does).
\<close>

record migration_state =
  md_clock :: "nat \<Rightarrow> time"
  md_reads :: nat
  md_trips :: nat
  md_versions :: "string list option"
  md_ran :: "string list"

definition undefined_table :: error where
  "undefined_table = External ''undefined_table''"

definition md_rt :: "(float64 \<Rightarrow> decimal) \<Rightarrow> migration_state Rt" where
  "md_rt dec = \<lparr>Now = (\<lambda>s. (md_clock s (md_reads s), s\<lparr>md_reads := Suc (md_reads s)\<rparr>)), NewV7 = (\<lambda>s. ([], s)),
     NewFromFloat = dec, Metric = (\<lambda>_ s. s)\<rparr>"

text \<open>What a script does to the table: the versions it deletes, then those it inserts.\<close>

definition script_marks :: "(string \<Rightarrow> string list \<times> string list) \<Rightarrow> string \<Rightarrow> string list \<Rightarrow> string list" where
  "script_marks writes q vs = fold List.insert (snd (writes q)) (filter (\<lambda>v. v \<notin> set (fst (writes q))) vs)"

definition md_stmt :: "(string \<Rightarrow> bool) \<Rightarrow> (string \<Rightarrow> string list \<times> string list) \<Rightarrow> string \<Rightarrow> sql_arg list
    \<Rightarrow> migration_state \<Rightarrow> error option \<times> migration_state" where
  "md_stmt creates writes q args s =
     (let vs = (case md_versions s of None \<Rightarrow> [] | Some vs \<Rightarrow> vs)
      in if q = create_versions then (None, s\<lparr>md_versions := Some vs\<rparr>)
         else if q = insert_version \<or> q = delete_version then
           case (md_versions s, args) of
             (Some _, TextArg v # _) \<Rightarrow>
               (None, s\<lparr>md_versions := Some (if q = insert_version then List.insert v vs else removeAll v vs)\<rparr>)
           | _ \<Rightarrow> (Some undefined_table, s)
         else if md_versions s = None \<and> \<not> creates q then (Some undefined_table, s)
         else (None, s\<lparr>md_versions := Some (script_marks writes q vs), md_ran := md_ran s @ [q]\<rparr>))"

definition md_runner :: "(nat \<Rightarrow> error option) \<Rightarrow> (string \<Rightarrow> bool) \<Rightarrow> (string \<Rightarrow> string list \<times> string list)
    \<Rightarrow> migration_state RunnerWithQuery" where
  "md_runner faults creates writes = \<lparr>
     rq_exec = (\<lambda>q args s. case faults (md_trips s) of
         Some e \<Rightarrow> (Some e, s\<lparr>md_trips := Suc (md_trips s)\<rparr>)
       | None \<Rightarrow> md_stmt creates writes q args (s\<lparr>md_trips := Suc (md_trips s)\<rparr>)),
     rq_query = (\<lambda>v s. (case faults (md_trips s) of
         Some e \<Rightarrow> Inl e
       | None \<Rightarrow> (case md_versions s of None \<Rightarrow> Inl undefined_table | Some vs \<Rightarrow> Inr (v \<in> set vs)),
       s\<lparr>md_trips := Suc (md_trips s)\<rparr>))\<rparr>"

abbreviation md_recorded :: "migration_state \<Rightarrow> string set option" where
  "md_recorded s \<equiv> map_option set (md_versions s)"

text \<open>The scripts of one migration that name only their own version.\<close>

definition own_writes :: "Migration \<Rightarrow> string \<Rightarrow> string list \<times> string list" where
  "own_writes m q = (if q = Mig_Up m then ([], [Version m]) else if q = Mig_Down m then ([Version m], []) else ([], []))"

lemma bookkeeping_distinct [simp]:
  "create_versions \<noteq> insert_version" "create_versions \<noteq> delete_version" "insert_version \<noteq> delete_version"
  by (simp_all add: create_versions_def insert_version_def delete_version_def)


lemma set_script_marks: "set (script_marks writes q vs) = (set vs - set (fst (writes q))) \<union> set (snd (writes q))"
proof -
  have "set (fold List.insert xs ys) = set ys \<union> set xs" for xs ys :: "string list" by (induction xs arbitrary: ys) auto
  then show ?thesis by (auto simp: script_marks_def)
qed

lemma md_rt_Now [simp]: "Now (md_rt dec) s = (md_clock s (md_reads s), s\<lparr>md_reads := Suc (md_reads s)\<rparr>)"
  by (simp add: md_rt_def)

interpretation mdb: migration_db "md_rt dec" "md_runner (\<lambda>_. None) creates writes" md_recorded md_ran
  "\<lambda>q vs. (vs - set (fst (writes q))) \<union> set (snd (writes q))" for dec creates writes
  by unfold_locales
    (auto simp: md_runner_def md_stmt_def bookkeeping_def set_script_marks Let_def bookkeeping_distinct [symmetric] split: option.splits)

section \<open>Interrupted runs\<close>

text \<open>Whatever fails, \<open>Up\<close> only adds versions, and only those of its migrations.\<close>

definition names_own :: "(string \<Rightarrow> string list \<times> string list) \<Rightarrow> Migration \<Rightarrow> bool" where
  "names_own writes m \<longleftrightarrow> Mig_Up m \<notin> bookkeeping \<and> fst (writes (Mig_Up m)) = [] \<and> set (snd (writes (Mig_Up m))) \<subseteq> {Version m}"

lemma md_up_step:
  assumes "md_recorded s = Some vs" and "names_own writes m" and "rq_exec (md_runner fs creates writes) (Mig_Up m) [] s = (e, s')"
  shows "\<exists>ws. md_recorded s' = Some ws \<and> vs \<subseteq> ws \<and> ws \<subseteq> insert (Version m) vs"
  using assms
  by (auto simp: md_runner_def md_stmt_def names_own_def bookkeeping_def Let_def set_script_marks split: option.splits if_splits)

lemma md_record_step:
  assumes "md_recorded s = Some vs" and "rq_exec (md_runner fs creates writes) insert_version [TextArg v, t] s = (e, s')"
  shows "\<exists>ws. md_recorded s' = Some ws \<and> vs \<subseteq> ws \<and> ws \<subseteq> insert v vs"
  using assms bookkeeping_distinct(1)
  by (auto simp: md_runner_def md_stmt_def Let_def split: option.splits if_splits)

lemma md_query_step:
  assumes "rq_query (md_runner fs creates writes) v s = (x, s')"
  shows "md_recorded s' = md_recorded s"
  using assms by (auto simp: md_runner_def)

lemma up_loop_grows:
  assumes "md_recorded s = Some vs" and "\<forall>m \<in> set ms. names_own writes m"
    and "up_loop (md_rt dec) (rq_exec (md_runner fs creates writes)) (rq_query (md_runner fs creates writes)) ms s = (e, s')"
  shows "\<exists>ws. md_recorded s' = Some ws \<and> vs \<subseteq> ws \<and> ws \<subseteq> vs \<union> Version ` set ms"
  using assms
proof (induction ms arbitrary: s vs)
  case Nil
  then show ?case by auto
next
  case (Cons m ms)
  let ?ex = "rq_exec (md_runner fs creates writes)" and ?qa = "rq_query (md_runner fs creates writes)"
  obtain x s1 where s1: "?qa (Version m) s = (x, s1)" by fastforce
  have r1: "md_recorded s1 = Some vs" using md_query_step [OF s1] Cons.prems(1) by simp
  obtain e2 s2 where s2: "?ex (Mig_Up m) [] s1 = (e2, s2)" by fastforce
  obtain vs2 where r2: "md_recorded s2 = Some vs2" "vs \<subseteq> vs2" "vs2 \<subseteq> insert (Version m) vs"
    using md_up_step [OF r1 _ s2] Cons.prems(2) by auto
  let ?s3 = "s2\<lparr>md_reads := Suc (md_reads s2)\<rparr>"
  obtain e4 s4 where s4: "?ex insert_version [TextArg (Version m), TimeArg (md_clock s2 (md_reads s2))] ?s3 = (e4, s4)" by fastforce
  obtain vs4 where r4: "md_recorded s4 = Some vs4" "vs2 \<subseteq> vs4" "vs4 \<subseteq> insert (Version m) vs2"
    using md_record_step [OF _ s4, of vs2] r2(1) by auto
  consider err where "x = Inl err" | "x = Inr True" | "x = Inr False" "e2 \<noteq> None" | "x = Inr False" "e2 = None" "e4 \<noteq> None"
    | "x = Inr False" "e2 = None" "e4 = None" by (cases x) auto
  then show ?case
  proof cases
    case 1
    then show ?thesis using Cons.prems(3) s1 r1 by auto
  next
    case 2
    then show ?thesis using Cons.IH [OF r1] Cons.prems(2,3) s1 by auto
  next
    case 3
    then have "s' = s2" using Cons.prems(3) s1 s2 by auto
    then show ?thesis using r2 by auto
  next
    case 4
    then have "s' = s4" using Cons.prems(3) s1 s2 s4 by auto
    moreover have "vs \<subseteq> vs4" "vs4 \<subseteq> vs \<union> Version ` set (m # ms)" using r2 r4 by auto
    ultimately show ?thesis using r4(1) by blast
  next
    case 5
    then have "up_loop (md_rt dec) ?ex ?qa ms s4 = (e, s')" using Cons.prems(3) s1 s2 s4 by simp
    from Cons.IH [OF r4(1) _ this] obtain ws where ws: "md_recorded s' = Some ws" "vs4 \<subseteq> ws" "ws \<subseteq> vs4 \<union> Version ` set ms"
      using Cons.prems(2) by auto
    have "vs \<subseteq> ws" "ws \<subseteq> vs \<union> Version ` set (m # ms)" using ws(2,3) r2(2,3) r4(2,3) by auto
    then show ?thesis using ws(1) by blast
  qed
qed

text \<open>The same for a whole run, whose first statement creates the table.\<close>

abbreviation recorded_or_none :: "migration_state \<Rightarrow> string set" where
  "recorded_or_none s \<equiv> (case md_recorded s of None \<Rightarrow> {} | Some vs \<Rightarrow> vs)"

lemma Up_grows:
  assumes "All dir = Inr migs" and "\<forall>m \<in> set migs. names_own writes m"
    and "RunnerWithQuery_Up (md_rt dec) dir (md_runner fs creates writes) s = (e, s')"
  shows "recorded_or_none s \<subseteq> recorded_or_none s' \<and> recorded_or_none s' \<subseteq> recorded_or_none s \<union> Version ` set migs"
proof (cases "fs (md_trips s)")
  case (Some x)
  then show ?thesis using assms(3) by (auto simp: RunnerWithQuery_Up_def md_runner_def)
next
  case None
  let ?s1 = "s\<lparr>md_trips := Suc (md_trips s), md_versions := Some (case md_versions s of None \<Rightarrow> [] | Some vs \<Rightarrow> vs)\<rparr>"
  have create: "rq_exec (md_runner fs creates writes) create_versions [] s = (None, ?s1)"
    using None by (simp add: md_runner_def md_stmt_def)
  have rec: "md_recorded ?s1 = Some (recorded_or_none s)" by (simp split: option.split)
  have "up_loop (md_rt dec) (rq_exec (md_runner fs creates writes)) (rq_query (md_runner fs creates writes)) migs ?s1 = (e, s')"
    using assms(1,3) create by (simp add: RunnerWithQuery_Up_def)
  from up_loop_grows [OF rec assms(2) this] show ?thesis by auto
qed

lemma names_own_tidy: "names_own writes m \<Longrightarrow> tidy_up (\<lambda>q vs. (vs - set (fst (writes q))) \<union> set (snd (writes q))) m"
  by (auto simp: names_own_def tidy_up_def)

lemma All_distinct: "All dir = Inr migs \<Longrightarrow> distinct (map Version migs)"
  by (cases dir) (auto simp: All_def [of "Inl _"] dest: All_spec(2))

lemma Up_completes:
  assumes "All dir = Inr migs" and "\<forall>m \<in> set migs. names_own writes m"
  shows "\<exists>s'. RunnerWithQuery_Up (md_rt dec) dir (md_runner (\<lambda>_. None) creates writes) s = (None, s') \<and>
    md_recorded s' = Some (recorded_or_none s \<union> Version ` set migs) \<and>
    md_ran s' = md_ran s @ map Mig_Up (filter (\<lambda>m. Version m \<notin> recorded_or_none s) migs)"
  by (rule mdb.Up_spec [OF assms(1) All_distinct [OF assms(1)]]) (use assms(2) names_own_tidy in auto)

section \<open>The runner without a query\<close>

text \<open>It takes no version for applied: its \<open>Down\<close> never executes a statement.\<close>

lemma Runner_Down_idle:
  "Runner_Down dir r s = (case All dir of Inl e \<Rightarrow> (Some e, s) | Inr _ \<Rightarrow> (None, s))"
proof -
  have "down_loop (r_exec r) (isApplied r) ms s = (None, s)" for ms
    by (induction ms) (simp_all add: isApplied_def)
  then show ?thesis by (simp add: Runner_Down_def split: sum.split)
qed

end
