(* ===== verification/Server.thy ===== *)
theory Server
  imports Store
begin

text \<open>
  The life of the process in \<^verbatim>\<open>internal/app/app.go\<close>: \<open>Run\<close> starts the four background
  loops and the HTTP server and waits for a signal or for the listener to fail; \<open>Shutdown\<close>
  cancels the loops, drains the HTTP server for at most five seconds, waits for the loops and
  then closes the database. What the loops and the handlers do is modelled elsewhere; here they
  are running or not, and the goroutines interleave as steps of one relation.
\<close>

section \<open>The server\<close>

datatype loop = SchedulerLoop | ConsumerLoop | DispatcherLoop | SweeperLoop

datatype HttpState = Idle | Listening | Closed
datatype DbHandle = NoDb | DbOpen | DbClosed

text \<open>
  Where the goroutine of \<open>Run\<close> is: before it, in its \<open>select\<close>, in \<open>http.Shutdown\<close>, in
  \<open>wg.Wait\<close> with the error \<open>http.Shutdown\<close> returned, or after it with the result of \<open>Run\<close>.
\<close>

datatype phase = Built | Serving | Draining | Waiting "error option" | Returned "error option"

record Server =
  srv_http :: HttpState
  srv_requests :: nat
  srv_cancel :: bool
  srv_ctx_done :: bool
  srv_loops :: "loop list"
  srv_db :: DbHandle
  srv_phase :: phase

definition NewServer :: "DbHandle \<Rightarrow> Server" where
  "NewServer db = \<lparr>srv_http = Idle, srv_requests = 0, srv_cancel = False, srv_ctx_done = False, srv_loops = [],
     srv_db = db, srv_phase = Built\<rparr>"

definition startLoops :: "Server \<Rightarrow> Server" where
  "startLoops s = s\<lparr>srv_loops := [SchedulerLoop, ConsumerLoop, DispatcherLoop, SweeperLoop]\<rparr>"

text \<open>\<open>Run\<close> up to its \<open>select\<close>.\<close>

definition Run_start :: "Server \<Rightarrow> Server" where
  "Run_start s = (startLoops (s\<lparr>srv_cancel := True, srv_ctx_done := False\<rparr>))\<lparr>srv_http := Listening, srv_phase := Serving\<rparr>"

text \<open>
  \<open>Shutdown\<close> up to the wait in \<open>http.Shutdown\<close>, which closes the listener at once. A server that
  \<open>Build\<close> has made always has its HTTP server, so the test for it is left out.
\<close>

definition Shutdown_begin :: "Server \<Rightarrow> Server" where
  "Shutdown_begin s =
     (let s1 = s\<lparr>srv_cancel := False\<rparr>;
          s2 = (if srv_cancel s then s1\<lparr>srv_ctx_done := True\<rparr> else s1)
      in s2\<lparr>srv_http := Closed, srv_phase := Draining\<rparr>)"

text \<open>\<open>Shutdown\<close> after \<open>wg.Wait\<close>.\<close>

definition Shutdown_end :: "error option \<Rightarrow> Server \<Rightarrow> Server" where
  "Shutdown_end err s =
     (if srv_db s = NoDb then s else s\<lparr>srv_db := DbClosed\<rparr>)\<lparr>srv_phase := Returned err\<rparr>"

section \<open>Steps\<close>

text \<open>
  A loop returns some time after its context is done (\<open>loop_returns\<close>); the consumer also when
  its feed ends (\<open>feed_ends\<close>). A request is accepted while the server listens and answered at
  any time after that. \<open>http.Shutdown\<close> returns when no request is left, or else at its deadline.
\<close>

inductive server_step :: "Server \<Rightarrow> Server \<Rightarrow> bool" where
  run: "srv_phase s = Built \<Longrightarrow> server_step s (Run_start s)"
| accept: "srv_http s = Listening \<Longrightarrow> server_step s (s\<lparr>srv_requests := Suc (srv_requests s)\<rparr>)"
| answer: "srv_requests s = Suc n \<Longrightarrow> server_step s (s\<lparr>srv_requests := n\<rparr>)"
| listen_fails: "srv_phase s = Serving \<Longrightarrow> server_step s (s\<lparr>srv_http := Closed, srv_phase := Returned (Some e)\<rparr>)"
| signal: "srv_phase s = Serving \<Longrightarrow> server_step s (Shutdown_begin s)"
| loop_returns: "srv_ctx_done s \<Longrightarrow> l \<in> set (srv_loops s) \<Longrightarrow> server_step s (s\<lparr>srv_loops := remove1 l (srv_loops s)\<rparr>)"
| feed_ends: "ConsumerLoop \<in> set (srv_loops s) \<Longrightarrow>
    server_step s (s\<lparr>srv_loops := remove1 ConsumerLoop (srv_loops s)\<rparr>)"
| drained: "srv_phase s = Draining \<Longrightarrow> srv_requests s = 0 \<Longrightarrow> server_step s (s\<lparr>srv_phase := Waiting None\<rparr>)"
| deadline: "srv_phase s = Draining \<Longrightarrow> 0 < srv_requests s \<Longrightarrow> server_step s (s\<lparr>srv_phase := Waiting (Some CtxErr)\<rparr>)"
| waited: "srv_phase s = Waiting err \<Longrightarrow> srv_loops s = [] \<Longrightarrow> server_step s (Shutdown_end err s)"

inductive_cases server_step_cases: "server_step s s'"

abbreviation server_reach :: "DbHandle \<Rightarrow> Server \<Rightarrow> bool" where
  "server_reach db s \<equiv> server_step\<^sup>*\<^sup>* (NewServer db) s"

lemmas server_ops = Run_start_def startLoops_def Shutdown_begin_def Shutdown_end_def Let_def

text \<open>What the phase says of the rest of the state.\<close>

fun phase_ok :: "phase \<Rightarrow> Server \<Rightarrow> bool" where
  "phase_ok Built s \<longleftrightarrow> srv_http s = Idle \<and> srv_requests s = 0 \<and> srv_loops s = [] \<and> srv_db s \<noteq> DbClosed"
| "phase_ok Serving s \<longleftrightarrow> srv_http s = Listening \<and> srv_cancel s \<and> srv_db s \<noteq> DbClosed"
| "phase_ok Draining s \<longleftrightarrow> srv_http s = Closed \<and> srv_ctx_done s \<and> srv_db s \<noteq> DbClosed"
| "phase_ok (Waiting e) s \<longleftrightarrow> srv_http s = Closed \<and> srv_ctx_done s \<and> srv_db s \<noteq> DbClosed \<and>
     (srv_requests s = 0 \<or> e = Some CtxErr)"
| "phase_ok (Returned e) s \<longleftrightarrow> srv_http s = Closed \<and>
     (srv_db s = DbClosed \<longrightarrow> srv_ctx_done s \<and> srv_loops s = [] \<and> (srv_requests s = 0 \<or> e = Some CtxErr))"

lemma step_phase_ok: "server_step s s' \<Longrightarrow> phase_ok (srv_phase s) s \<Longrightarrow> phase_ok (srv_phase s') s'"
  by (erule server_step_cases; cases "srv_phase s") (auto simp: server_ops)

lemma reach_phase_ok:
  assumes "server_reach db s" and "db \<noteq> DbClosed"
  shows "phase_ok (srv_phase s) s"
  using assms(1)
proof (induction rule: rtranclp_induct)
  case base
  then show ?case using assms(2) by (simp add: NewServer_def)
next
  case (step s s')
  then show ?case using step_phase_ok by blast
qed

section \<open>Shutting down\<close>

fun phase_rank :: "phase \<Rightarrow> nat" where
  "phase_rank Draining = 2"
| "phase_rank (Waiting e) = 1"
| "phase_rank p = 0"

definition stopping :: "Server \<Rightarrow> bool" where
  "stopping s \<longleftrightarrow> srv_http s = Closed \<and> (srv_phase s = Draining \<or> (\<exists>e. srv_phase s = Waiting e \<or> srv_phase s = Returned e))"

definition shutdown_work :: "Server \<Rightarrow> nat" where
  "shutdown_work s = length (srv_loops s) + srv_requests s + phase_rank (srv_phase s)"

text \<open>Once the listener is closed every step uses up some of the work left.\<close>

lemma stopping_step:
  assumes "server_step s s'" and "stopping s"
  shows "stopping s' \<and> Suc (shutdown_work s') \<le> shutdown_work s"
  using assms
  by (elim server_step_cases)
    (auto simp: stopping_def shutdown_work_def server_ops length_remove1 dest: length_pos_if_in_set)

lemma stopping_run: "(server_step ^^ n) s s' \<Longrightarrow> stopping s \<Longrightarrow> stopping s' \<and> n + shutdown_work s' \<le> shutdown_work s"
proof (induction n arbitrary: s')
  case 0
  then show ?case by simp
next
  case (Suc n)
  then obtain u where "(server_step ^^ n) s u" "server_step u s'" by auto
  then show ?case using Suc.IH [of u] Suc.prems(2) stopping_step [of u s'] by auto
qed

text \<open>A shutdown does not get stuck: some step is possible until \<open>Run\<close> has returned.\<close>

lemma shutdown_progress:
  assumes "phase_ok (srv_phase s) s" and "srv_phase s = Draining \<or> srv_phase s = Waiting e"
  shows "\<exists>s'. server_step s s'"
proof (cases "srv_phase s = Draining")
  case True
  then show ?thesis using server_step.drained server_step.deadline by blast
next
  case False
  then have w: "srv_phase s = Waiting e" using assms(2) by simp
  show ?thesis
  proof (cases "srv_loops s")
    case Nil
    then show ?thesis using server_step.waited [OF w] by blast
  next
    case (Cons l ls)
    then show ?thesis using server_step.loop_returns [of s l] assms(1) w by auto
  qed
qed

text \<open>Only a completed shutdown leads from a draining server to a returned one.\<close>

lemma draining_run:
  assumes "(server_step ^^ n) s s'" and "srv_phase s = Draining" and "phase_ok Draining s"
  shows "phase_ok (srv_phase s') s' \<and> stopping s' \<and> (\<forall>e. srv_phase s' = Returned e \<longrightarrow> srv_db s' \<noteq> DbOpen \<and> srv_loops s' = [])"
  using assms(1)
proof (induction n arbitrary: s')
  case 0
  then show ?case using assms(2,3) by (auto simp: stopping_def)
next
  case (Suc n)
  then obtain u where u: "(server_step ^^ n) s u" "server_step u s'" by auto
  note IH = Suc.IH [OF u(1)]
  from u(2) IH have "\<forall>e. srv_phase s' = Returned e \<longrightarrow> srv_db s' \<noteq> DbOpen \<and> srv_loops s' = []"
    by (elim server_step_cases) (auto simp: server_ops stopping_def split: if_splits)
  then show ?case using IH stopping_step [OF u(2)] step_phase_ok [OF u(2)] by blast
qed

lemma shutdown_ends:
  assumes "server_reach db s" and "db \<noteq> DbClosed" and "srv_phase s = Draining" and "(server_step ^^ n) s s'"
  shows "n \<le> length (srv_loops s) + srv_requests s + 2"
    and "(\<nexists>s''. server_step s' s'') \<Longrightarrow> \<exists>e. srv_phase s' = Returned e \<and> srv_loops s' = [] \<and> srv_db s' \<noteq> DbOpen"
proof -
  have ok: "phase_ok Draining s" using reach_phase_ok [OF assms(1,2)] assms(3) by simp
  then have "stopping s" using assms(3) by (simp add: stopping_def)
  from stopping_run [OF assms(4) this] show "n \<le> length (srv_loops s) + srv_requests s + 2"
    using assms(3) by (simp add: shutdown_work_def)
  assume stuck: "\<nexists>s''. server_step s' s''"
  note d = draining_run [OF assms(4,3) ok]
  then show "\<exists>e. srv_phase s' = Returned e \<and> srv_loops s' = [] \<and> srv_db s' \<noteq> DbOpen"
    using shutdown_progress [of s'] stuck unfolding stopping_def by blast
qed

end
