(* ===== verification/Startup.thy ===== *)
theory Startup
  imports Migration_Db Server App
begin

text \<open>
  The entry points: \<^verbatim>\<open>postgres.Open\<close>, which migrates before it hands out the stores,
  \<^verbatim>\<open>cmd/migrate/main.go\<close>, the choice of the event subscriber in \<open>Build\<close>,
  \<^verbatim>\<open>internal/otel/otel.go\<close> and \<^verbatim>\<open>cmd/treasury/main.go\<close>. The pgx pool and the
  OpenTelemetry SDK are parameters; a process that ends early is the code and the lines it leaves.
\<close>

section \<open>Opening the database\<close>

record ('p, 's) Pgx =
  px_New :: "string \<Rightarrow> 's \<Rightarrow> (error + 'p) \<times> 's"
  px_Ping :: "'p \<Rightarrow> 's \<Rightarrow> error option \<times> 's"
  px_Exec :: "'p \<Rightarrow> 's ExecFunc"
  px_QueryRow :: "'p \<Rightarrow> string \<Rightarrow> sql_arg list \<Rightarrow> 's \<Rightarrow> (error + bool) \<times> 's"
  px_Close :: "'p \<Rightarrow> 's \<Rightarrow> 's"

definition select_version :: string where
  "select_version = ''SELECT EXISTS(SELECT 1 FROM schema_migrations WHERE version=$1)''"

definition pool_runner :: "('p, 's) Pgx \<Rightarrow> 'p \<Rightarrow> 's RunnerWithQuery" where
  "pool_runner px pool = \<lparr>rq_exec = px_Exec px pool,
     rq_query = (\<lambda>version. px_QueryRow px pool select_version [TextArg version])\<rparr>"

definition pg_Open ::
  "'s Rt \<Rightarrow> error + DirEntry list \<Rightarrow> ('p, 's) Pgx \<Rightarrow> string \<Rightarrow> 's \<Rightarrow> (error + 'p) \<times> 's"
where
  "pg_Open rt dir px dsn s =
     (case px_New px dsn s of
        (Inl e, s1) \<Rightarrow> (Inl e, s1)
      | (Inr pool, s1) \<Rightarrow>
          case px_Ping px pool s1 of
            (Some e, s2) \<Rightarrow> (Inl e, px_Close px pool s2)
          | (None, s2) \<Rightarrow>
              case RunnerWithQuery_Up rt dir (pool_runner px pool) s2 of
                (Some e, s3) \<Rightarrow> (Inl (Annotate ''migrate'' e), px_Close px pool s3)
              | (None, s3) \<Rightarrow> (Inr pool, s3))"

section \<open>The migrate command\<close>

record exit =
  ex_code :: nat
  ex_stdout :: "string list"
  ex_stderr :: "string list"

definition done_with :: "string \<Rightarrow> exit" where
  "done_with line = \<lparr>ex_code = 0, ex_stdout = [line], ex_stderr = []\<rparr>"

definition failed_with :: "nat \<Rightarrow> string \<Rightarrow> exit" where
  "failed_with code line = \<lparr>ex_code = code, ex_stdout = [], ex_stderr = [line]\<rparr>"

text \<open>\<open>os.Exit\<close> runs no deferred call, so the pool is closed only on success.\<close>

definition migrate_main ::
  "'s Rt \<Rightarrow> error + DirEntry list \<Rightarrow> ('p, 's) Pgx \<Rightarrow> bool \<Rightarrow> bool \<Rightarrow> string \<Rightarrow> 's \<Rightarrow> exit \<times> 's"
where
  "migrate_main rt dir px up down dsn s =
     (if \<not> up \<and> \<not> down then (failed_with 2 ''usage: migrate [--up|--down]'', s)
      else if dsn = [] then (failed_with 1 ''DB_URL is required'', s)
      else
        case px_New px dsn s of
          (Inl e, s1) \<Rightarrow> (failed_with 1 (''open db: '' @ error_str e), s1)
        | (Inr pool, s1) \<Rightarrow>
            case px_Ping px pool s1 of
              (Some e, s2) \<Rightarrow> (failed_with 1 (''ping db: '' @ error_str e), s2)
            | (None, s2) \<Rightarrow>
                if up then
                  case RunnerWithQuery_Up rt dir (pool_runner px pool) s2 of
                    (Some e, s3) \<Rightarrow> (failed_with 1 (''migrate up: '' @ error_str e), s3)
                  | (None, s3) \<Rightarrow> (done_with ''migrations applied'', px_Close px pool s3)
                else
                  case RunnerWithQuery_Down dir (pool_runner px pool) s2 of
                    (Some e, s3) \<Rightarrow> (failed_with 1 (''migrate down: '' @ error_str e), s3)
                  | (None, s3) \<Rightarrow> (done_with ''migrations reverted'', px_Close px pool s3))"

text \<open>The command reports success exactly when the runner had no error, and then has run it.\<close>

lemma migrate_main_up:
  "migrate_main rt dir px True down dsn s = (x, s') \<Longrightarrow> ex_code x = 0 \<longleftrightarrow>
   dsn \<noteq> [] \<and> (\<exists>pool s1 s2 s3. px_New px dsn s = (Inr pool, s1) \<and> px_Ping px pool s1 = (None, s2) \<and>
     RunnerWithQuery_Up rt dir (pool_runner px pool) s2 = (None, s3) \<and> s' = px_Close px pool s3)"
  by (auto simp: migrate_main_def done_with_def failed_with_def split: if_splits sum.splits option.splits prod.splits)

lemma pg_Open_migrated:
  "pg_Open rt dir px dsn s = (Inr pool, s') \<Longrightarrow> \<exists>s2. RunnerWithQuery_Up rt dir (pool_runner px pool) s2 = (None, s')"
  by (auto simp: pg_Open_def split: sum.splits option.splits prod.splits)

section \<open>Where the events come from\<close>

datatype subscriber = PushSubscriber | KafkaFeed KafkaReader

definition build_subscriber :: "Config \<Rightarrow> subscriber" where
  "build_subscriber cfg =
     (if EventBusURL cfg = [] then PushSubscriber
      else case NewKafkaSubscriberFromURL (EventBusURL cfg) (EventBusGroupID cfg) of
             Inr ks \<Rightarrow> KafkaFeed ks
           | Inl e \<Rightarrow> PushSubscriber)"

text \<open>
  The bus behind \<^verbatim>\<open>/v1/events/\<close> as \<open>Build\<close> leaves it once the consumer runs: the consumer
  subscribes to it only when it is the chosen subscriber.
\<close>

definition push_bus :: "Config \<Rightarrow> Bus" where
  "push_bus cfg = (case build_subscriber cfg of
     PushSubscriber \<Rightarrow> snd (Subscribe (TxOrchEventTopic cfg) NewInMemory)
   | KafkaFeed ks \<Rightarrow> NewInMemory)"

text \<open>With a Kafka feed, an event pushed over HTTP is accepted and reaches nobody.\<close>

lemma push_unheard:
  assumes "build_subscriber cfg = KafkaFeed ks" and "decode body = Inr ev" and "topic \<noteq> []"
  shows "http_push decode ''POST'' (''/v1/events/'' @ topic) body (push_bus cfg) = Some (202, push_bus cfg)"
  using assms by (simp add: http_push_def push_bus_def Push_def push_snapshot_def NewInMemory_def)

section \<open>Telemetry\<close>

text \<open>The SDK: merging the resource of a service name, and the two exporters of an endpoint.\<close>

record ('r, 'x, 'y) OtelSdk =
  ot_Merge :: "string \<Rightarrow> error + 'r"
  ot_TraceExporter :: "string \<Rightarrow> error + 'x"
  ot_MetricExporter :: "string \<Rightarrow> error + 'y"

datatype ('r, 'x, 'y) Telemetry = NoopTelemetry | OtlpTelemetry 'r 'x 'y

definition trim_prefix :: "string \<Rightarrow> string \<Rightarrow> string" where
  "trim_prefix s p = (if prefix p s then drop (length p) s else s)"

definition otel_Init :: "environ \<Rightarrow> ('r, 'x, 'y) OtelSdk \<Rightarrow> string \<Rightarrow> error + ('r, 'x, 'y) Telemetry" where
  "otel_Init env sdk serviceName =
     (let endpoint = trim_space (Getenv env ''OTEL_EXPORTER_OTLP_ENDPOINT'')
      in if endpoint = [] then Inr NoopTelemetry
         else
           let name = trim_space (Getenv env ''OTEL_SERVICE_NAME'');
               serviceName = (if name \<noteq> [] then name else serviceName);
               endpoint = trim_prefix (trim_prefix endpoint ''http://'') ''grpc://''
           in case ot_Merge sdk serviceName of
                Inl e \<Rightarrow> Inl (Annotate ''otel resource'' e)
              | Inr res \<Rightarrow>
                  case ot_TraceExporter sdk endpoint of
                    Inl e \<Rightarrow> Inl (Annotate ''otel trace exporter'' e)
                  | Inr spanExp \<Rightarrow>
                      case ot_MetricExporter sdk endpoint of
                        Inl e \<Rightarrow> Inl (Annotate ''otel metric exporter'' e)
                      | Inr metricExp \<Rightarrow> Inr (OtlpTelemetry res spanExp metricExp))"

text \<open>The shutdown function: both providers are stopped, the error of the tracer comes first.\<close>

definition otel_shutdown ::
  "('s \<Rightarrow> error option \<times> 's) \<Rightarrow> ('s \<Rightarrow> error option \<times> 's) \<Rightarrow> ('r, 'x, 'y) Telemetry \<Rightarrow> 's \<Rightarrow> error option \<times> 's"
where
  "otel_shutdown tp_Shutdown mp_Shutdown tel s =
     (case tel of
        NoopTelemetry \<Rightarrow> (None, s)
      | OtlpTelemetry _ _ _ \<Rightarrow>
          let (traceErr, s1) = tp_Shutdown s;
              (metricErr, s2) = mp_Shutdown s1
          in (case traceErr of
                Some e \<Rightarrow> Some (Annotate ''trace shutdown'' e)
              | None \<Rightarrow> map_option (Annotate ''metric shutdown'') metricErr, s2))"

text \<open>Without an endpoint no exporter is made.\<close>

lemma otel_unset: "trim_space (Getenv env ''OTEL_EXPORTER_OTLP_ENDPOINT'') = [] \<Longrightarrow> otel_Init env sdk name = Inr NoopTelemetry"
  by (simp add: otel_Init_def)

lemma trim_scheme: "trim_prefix (trim_prefix (''http://'' @ a) ''http://'') ''grpc://'' = trim_prefix a ''grpc://''"
  by (simp add: trim_prefix_def)

section \<open>The service\<close>

text \<open>
  \<^verbatim>\<open>cmd/treasury/main.go\<close>: \<open>log.Fatalf\<close> exits without the deferred shutdown of the
  telemetry, so that runs only after \<open>Run\<close> has returned without an error. The parameter \<open>run\<close>
  is the result of \<open>Run\<close> on the server that was built.
\<close>

definition treasury_main ::
  "(string \<Rightarrow> float64 option) \<Rightarrow> (string \<Rightarrow> error option) \<Rightarrow> environ \<Rightarrow> ('r, 'x, 'y) OtelSdk
   \<Rightarrow> ('s \<Rightarrow> error option \<times> 's) \<Rightarrow> ('s \<Rightarrow> error option \<times> 's)
   \<Rightarrow> (Config \<times> dep \<times> downstreamClients \<Rightarrow> 's \<Rightarrow> error option \<times> 's) \<Rightarrow> 's \<Rightarrow> string option \<times> 's"
where
  "treasury_main pf pg_open env sdk tp_Shutdown mp_Shutdown run s =
     (case otel_Init env sdk ''treasury-orchestration'' of
        Inl e \<Rightarrow> (Some (''otel init: '' @ error_str e), s)
      | Inr tel \<Rightarrow>
          case Build pg_open env (Load pf env) of
            Inl e \<Rightarrow> (Some (''build: '' @ error_str e), s)
          | Inr srv \<Rightarrow>
              case run srv s of
                (Some e, s1) \<Rightarrow> (Some (''run: '' @ error_str e), s1)
              | (None, s1) \<Rightarrow> (None, snd (otel_shutdown tp_Shutdown mp_Shutdown tel s1)))"

lemma treasury_main_ok:
  "treasury_main pf pg_open env sdk tp mp run s = (None, s') \<Longrightarrow>
   \<exists>srv s1. Build pg_open env (Load pf env) = Inr srv \<and> run srv s = (None, s1)"
  by (auto simp: treasury_main_def split: sum.splits option.splits prod.splits)

end
