(* ===== verification/Race.thy ===== *)
theory Race
  imports Lifecycle
begin

text \<open>
  The consumer and the scheduler run in goroutines of their own, and the consumer takes an open
  batch and adds to it in two separate calls to the stores. This theory splits the consumer there
  (\<open>join_found\<close> is what follows \<open>OpenBatch\<close>) and runs a close in between: the member then joins
  a batch whose parent order is already placed.
\<close>

definition join_found :: "'s Rt \<Rightarrow> 's ConsumerDeps \<Rightarrow> TxCompletedEvent \<Rightarrow> string \<Rightarrow> Batch \<Rightarrow> 's \<Rightarrow> 's" where
  "join_found rt d ev assetPair batch s =
     (let (existing, s2) = ListMemberships (cd_Memberships d) (b_ID batch) s;
          isNew = (case existing of Inl _ \<Rightarrow> True | Inr ms \<Rightarrow> ms = [])
      in case AddMembership (cd_Memberships d) (event_membership (b_ID batch) ev) s2 of
           (Inl e, s3) \<Rightarrow> Metric rt (EventsConsumed assetPair ''store_error'') s3
         | (Inr _, s3) \<Rightarrow>
             let s4 = (case cd_OnBatchOpen d of
                         None \<Rightarrow> s3
                       | Some h \<Rightarrow> if isNew then h batch s3 else s3);
                 (r, s5) = SumNotional (cd_Memberships d) (b_ID batch) s4;
                 (_, s6) = SetBatchNotional (cd_Batches d) (b_ID batch) (value_or_zero r) s5
             in Metric rt (EventsConsumed assetPair ''ok'') s6)"

text \<open>Uninterrupted, the two halves are the whole.\<close>

lemma join_batch_halves:
  "join_batch rt d ev assetPair s =
     (case OpenBatch (cd_Batches d) assetPair s of
        (Inl e, s1) \<Rightarrow> Metric rt (EventsConsumed assetPair ''open_error'') s1
      | (Inr batch, s1) \<Rightarrow> join_found rt d ev assetPair batch s1)"
  by (auto simp: join_batch_def join_found_def split: prod.split sum.split)

text \<open>The second half on the state, whatever has happened to the batch.\<close>

lemma join_found_tables:
  assumes "\<not> mt_byTx (w_member w) (ev_TxID ev)" and "batch_map (w_batch w) (b_ID b) = Some b'"
    and "w' = join_found (world_rt dec) (app_consumer cfg (dev_services dec mar unm)) ev pair b w"
  shows "\<exists>m. m_BatchID m = b_ID b \<and> m_TxID m = ev_TxID ev \<and> m_NotionalUSD m = event_notional ev \<and>
    mt_rows (w_member w') = mt_rows (w_member w) @ [m] \<and>
    batch_map (w_batch w') (b_ID b) =
      Some (b'\<lparr>b_NotionalUSD := notional_of (b_ID b) (mt_rows (w_member w)) + event_notional ev\<rparr>) \<and>
    w_order w' = w_order w \<and> liq_calls w' = liq_calls w"
proof -
  let ?m = "stamped (w_ids w (w_idn w)) (w_clock w (w_reads w)) (event_membership (b_ID b) ev)"
  have m: "m_BatchID ?m = b_ID b" "m_TxID ?m = ev_TxID ev" "m_NotionalUSD ?m = event_notional ev"
    by (simp_all add: stamped_def event_membership_def)
  have [simp]: "m_TxID (event_membership x ev) = ev_TxID ev" for x by (simp add: event_membership_def)
  have "mt_rows (w_member w') = mt_rows (w_member w) @ [?m] \<and>
    w_batch w' = snd (mb_SetBatchNotional (b_ID b) (notional_of (b_ID b) (mt_rows (w_member w) @ [?m])) (w_batch w)) \<and>
    w_order w' = w_order w \<and> liq_calls w' = liq_calls w"
    using assms(1) unfolding assms(3) dev_components
    by (simp add: join_found_def W_simps Let_def mm_AddMembership_cases mm_SumNotional_eq value_or_zero_def
        onBatchOpen_def)
  then show ?thesis
    using m assms(2) by (intro exI [of _ ?m]) (simp add: mb_SetBatchNotional_map notional_of_def)
qed

text \<open>
  The race. The notional of the batch counts the late member, the order and the request to
  liquidity-routing do not.
\<close>

lemma late_member:
  assumes "books w" and "(Inr b, w1) = OpenBatch (W_batch dec) pair w" and "b \<in> set (w_batch w)"
    and "w2 = snd (CloseBatch (world_rt dec) (app_scheduler (world_rt dec) cfg (dev_services dec mar unm)) (b_ID b) w1)"
    and "\<not> mt_byTx (w_member w) (ev_TxID ev)"
    and "w3 = join_found (world_rt dec) (app_consumer cfg (dev_services dec mar unm)) ev pair b w2"
    and "n = notional_of (b_ID b) (mt_rows (w_member w))"
  shows "\<exists>b3 ord r. batch_map (w_batch w3) (b_ID b) = Some b3 \<and> b_Status b3 \<noteq> BatchOpen \<and>
    b_NotionalUSD b3 = n + event_notional ev \<and>
    order_map (w_order w3) (b_ID b) = Some ord \<and> o_NotionalUSD ord = n \<and>
    liq_calls w3 = liq_calls w @ [r] \<and> ao_NotionalUSD r = n \<and>
    (\<exists>m \<in> set (mt_rows (w_member w3)). m_BatchID m = b_ID b \<and> m_TxID m = ev_TxID ev)"
proof -
  define v where "v = w\<lparr>w_reads := Suc (w_reads w), w_idn := Suc (w_idn w)\<rparr>"
  have opn: "isOpenFor pair b"
    using assms(2) mb_OpenBatch_open [of pair] by (simp add: W_simps Let_def)
  have same: "snd (mb_OpenBatch i t pair (w_batch w)) = w_batch w" for i t
    using mb_OpenBatch_reuse [OF assms(3) opn] .
  have v: "w1 = v" using assms(2) same by (simp add: W_simps Let_def v_def)
  have "quiet w v" by (rule quietI) (simp_all add: v_def)
  from books_quiet [OF assms(1) this] have bv: "books v" .
  have fields: "w_member v = w_member w" "liq_calls v = liq_calls w" "w_batch v = w_batch w" by (simp_all add: v_def)
  have "distinct (map b_ID (w_batch v))" using core_invD(2) [OF booksD(1) [OF bv]] by (simp add: batch_inv_def)
  then have "batch_map (w_batch v) (b_ID b) = Some b" using rowmap_in_set assms(3) fields(3) by metis
  then obtain j where b: "batch_at (b_ID b) (w_batch v) j b" "b_Status b = BatchOpen"
    using rowmap_Some_ix opn by (metis isOpenFor_def)
  have n: "n = notional_of (b_ID b) (mt_rows (w_member v))" by (simp add: assms(7) fields)
  have w2: "w2 = snd (close_batch (world_rt dec) (app_scheduler (world_rt dec) cfg (dev_services dec mar unm)) (b_ID b) ReasonManual v)"
    by (simp add: assms(4) v CloseBatch_def)
  from close_any [OF b n books_fresh [OF bv b] w2]
  obtain b' tf where c: "b_Status b' \<in> {BatchExecuting, BatchSettled}" "w_batch w2 = (w_batch v)[j := b']" "b_ID b' = b_ID b"
    "b_NotionalUSD b' = n" "map order_view (w_order w2) = map order_view (w_order v) @ [(b_ID b, n, tf)]"
    "liq_calls w2 = liq_calls v @ [parent_request b']" "untouched v w2"
    by (elim exE conjE)
  have bm: "batch_map (w_batch w2) (b_ID b) = Some b'"
    using batch_at_map [OF batch_at_update [OF b(1) c(3)]] by (simp add: c(2))
  have tx: "\<not> mt_byTx (w_member w2) (ev_TxID ev)" and mem: "w_member w2 = w_member w"
    using assms(5) c(7) fields(1) by (simp_all add: untouched_def)
  from join_found_tables [OF tx bm assms(6)] obtain m where
    m: "m_BatchID m = b_ID b" "m_TxID m = ev_TxID ev" "mt_rows (w_member w3) = mt_rows (w_member w2) @ [m]"
      "batch_map (w_batch w3) (b_ID b) =
        Some (b'\<lparr>b_NotionalUSD := notional_of (b_ID b) (mt_rows (w_member w2)) + event_notional ev\<rparr>)"
      "w_order w3 = w_order w2" "liq_calls w3 = liq_calls w2" by (elim exE conjE)
  have "order_view ` set (w_order w2) \<supseteq> {(b_ID b, n, tf)}" using c(5) by (metis in_set_conv_decomp list.set_map subset_iff singletonD)
  then obtain x where x: "x \<in> set (w_order w2)" "o_BatchID x = b_ID b" by (auto simp: order_view_def)
  have none: "order_map (w_order v) (b_ID b) = None" by (rule books_fresh(1) [OF bv b])
  obtain ord where ord: "order_map (w_order w2) (b_ID b) = Some ord"
    using x by (cases "order_map (w_order w2) (b_ID b)") (force simp: rowmap_None)+
  have on: "o_NotionalUSD ord = n"
  proof -
    have "order_view ord \<in> set (map order_view (w_order w2))" using rowmap_SomeD [OF ord] by simp
    then consider "order_view ord \<in> order_view ` set (w_order v)" | "order_view ord = (b_ID b, n, tf)"
      unfolding c(5) by auto
    then show ?thesis
    proof cases
      case 1
      then have "b_ID b \<in> o_BatchID ` set (w_order v)"
        using rowmap_SomeD [OF ord] by (auto simp: order_view_def)
      then show ?thesis using none by (auto simp: rowmap_None)
    qed (simp add: order_view_def)
  qed
  show ?thesis
    using c(1) m ord on mem assms(7) c(4,6) fields(2)
    by (intro exI [of _ "b'\<lparr>b_NotionalUSD := notional_of (b_ID b) (mt_rows (w_member w2)) + event_notional ev\<rparr>"]
        exI [of _ ord] exI [of _ "parent_request b'"]) (auto simp: parent_request_def)
qed

end
