(* ===== verification/Kafka_Feed.thy ===== *)
theory Kafka_Feed
  imports Eventbus
begin

text \<open>
  \<^verbatim>\<open>KafkaSubscriber.Subscribe\<close> of \<^verbatim>\<open>internal/eventbus/eventbus.go\<close>: the goroutine
  that reads, decodes and sends, the consumer that receives, and the stop function, which closes
  the reader and the channel once and is called by either of them. Their interleavings are the
  steps of one relation. \<open>kf_source\<close> are the results \<open>ReadMessage\<close> would still return.

  The consumer gets the decodable messages in their order, none twice and none left out
  (\<open>feed_in_order\<close>); when it stops while the goroutine holds an event, the send meets a closed
  channel and may panic (\<open>stop_while_holding\<close>).
\<close>

section \<open>The goroutine\<close>

text \<open>Before its check of the context, in \<open>ReadMessage\<close>, in the \<open>select\<close> with an event, or gone.\<close>

datatype reader_at = Checking | Reading | Holding TxCompletedEvent | Gone | Panicked

record KafkaFeed =
  kf_source :: "(string + string) list"
  kf_at :: reader_at
  kf_ch :: Chan
  kf_stopped :: bool
  kf_ctx_done :: bool
  kf_received :: "TxCompletedEvent list"

definition kafka_subscribe :: "(string + string) list \<Rightarrow> KafkaFeed" where
  "kafka_subscribe msgs = \<lparr>kf_source = msgs, kf_at = Checking, kf_ch = \<lparr>ch_buf = [], ch_closed = False\<rparr>,
     kf_stopped = False, kf_ctx_done = False, kf_received = []\<rparr>"

text \<open>\<open>stop\<close>, under its \<open>sync.Once\<close>: the reader is closed with the channel.\<close>

definition kafka_stop :: "KafkaFeed \<Rightarrow> KafkaFeed" where
  "kafka_stop s = (if kf_stopped s then s else s\<lparr>kf_stopped := True, kf_ch := (kf_ch s)\<lparr>ch_closed := True\<rparr>\<rparr>)"

text \<open>\<open>Push\<close> does nothing.\<close>

definition kafka_Push :: "string \<Rightarrow> TxCompletedEvent \<Rightarrow> KafkaFeed \<Rightarrow> KafkaFeed" where
  "kafka_Push topic ev s = s"

text \<open>
  A read fails when the reader is closed, when the context is done or by itself; the deferred
  \<open>stop\<close> runs wherever the goroutine returns. The \<open>select\<close> takes any case that is ready: a send
  on a closed channel is ready, and panics.
\<close>

inductive feed_step :: "(string \<Rightarrow> string + TxCompletedEvent) \<Rightarrow> KafkaFeed \<Rightarrow> KafkaFeed \<Rightarrow> bool" for decode where
  check_done: "kf_at s = Checking \<Longrightarrow> kf_ctx_done s \<Longrightarrow> feed_step decode s ((kafka_stop s)\<lparr>kf_at := Gone\<rparr>)"
| check_on: "kf_at s = Checking \<Longrightarrow> \<not> kf_ctx_done s \<Longrightarrow> feed_step decode s (s\<lparr>kf_at := Reading\<rparr>)"
| read_fails: "kf_at s = Reading \<Longrightarrow> kf_stopped s \<or> kf_ctx_done s \<or> kf_source s = Inl e # ms \<Longrightarrow>
    feed_step decode s ((kafka_stop s)\<lparr>kf_at := Gone\<rparr>)"
| read_skips: "kf_at s = Reading \<Longrightarrow> kf_source s = Inr m # ms \<Longrightarrow> decode m = Inl e \<Longrightarrow>
    feed_step decode s (s\<lparr>kf_source := ms, kf_at := Checking\<rparr>)"
| read_event: "kf_at s = Reading \<Longrightarrow> kf_source s = Inr m # ms \<Longrightarrow> decode m = Inr ev \<Longrightarrow>
    feed_step decode s (s\<lparr>kf_source := ms, kf_at := Holding ev\<rparr>)"
| send: "kf_at s = Holding ev \<Longrightarrow> \<not> ch_closed (kf_ch s) \<Longrightarrow> length (ch_buf (kf_ch s)) < chan_cap \<Longrightarrow>
    feed_step decode s (s\<lparr>kf_ch := (kf_ch s)\<lparr>ch_buf := ch_buf (kf_ch s) @ [ev]\<rparr>, kf_at := Checking\<rparr>)"
| send_closed: "kf_at s = Holding ev \<Longrightarrow> ch_closed (kf_ch s) \<Longrightarrow> feed_step decode s (s\<lparr>kf_at := Panicked\<rparr>)"
| send_cancelled: "kf_at s = Holding ev \<Longrightarrow> kf_ctx_done s \<Longrightarrow> feed_step decode s ((kafka_stop s)\<lparr>kf_at := Gone\<rparr>)"
| receive: "ch_buf (kf_ch s) = ev # evs \<Longrightarrow>
    feed_step decode s (s\<lparr>kf_ch := (kf_ch s)\<lparr>ch_buf := evs\<rparr>, kf_received := kf_received s @ [ev]\<rparr>)"
| cancel: "feed_step decode s (s\<lparr>kf_ctx_done := True\<rparr>)"
| consumer_stops: "feed_step decode s (kafka_stop s)"

inductive_cases feed_step_cases: "feed_step decode s s'"

section \<open>The feed\<close>

text \<open>What the consumer has, what it may still receive, and what the goroutine would send next.\<close>

fun in_hand :: "reader_at \<Rightarrow> TxCompletedEvent list" where
  "in_hand (Holding ev) = [ev]"
| "in_hand p = []"

definition on_its_way :: "KafkaFeed \<Rightarrow> TxCompletedEvent list" where
  "on_its_way s = kf_received s @ ch_buf (kf_ch s)"

definition feed_inv :: "TxCompletedEvent list \<Rightarrow> (string \<Rightarrow> string + TxCompletedEvent) \<Rightarrow> KafkaFeed \<Rightarrow> bool" where
  "feed_inv evs decode s \<longleftrightarrow>
     prefix (on_its_way s) evs \<and> length (ch_buf (kf_ch s)) \<le> chan_cap \<and> (ch_closed (kf_ch s) \<longleftrightarrow> kf_stopped s) \<and>
     (kf_at s \<notin> {Gone, Panicked} \<longrightarrow> on_its_way s @ in_hand (kf_at s) @ kafka_forward decode (kf_source s) = evs)"

lemma on_its_way_stop [simp]: "on_its_way (kafka_stop s) = on_its_way s" "on_its_way (s\<lparr>kf_at := p\<rparr>) = on_its_way s"
  "on_its_way (s\<lparr>kf_source := ms\<rparr>) = on_its_way s" "on_its_way (s\<lparr>kf_ctx_done := b\<rparr>) = on_its_way s"
  by (simp_all add: on_its_way_def kafka_stop_def)

lemma kafka_stop_fields [simp]:
  "kf_at (kafka_stop s) = kf_at s" "kf_source (kafka_stop s) = kf_source s" "kf_stopped (kafka_stop s)"
  "ch_buf (kf_ch (kafka_stop s)) = ch_buf (kf_ch s)" "kf_received (kafka_stop s) = kf_received s"
  by (simp_all add: kafka_stop_def)

lemma kafka_stop_closed: "(ch_closed (kf_ch s) \<longleftrightarrow> kf_stopped s) \<Longrightarrow> ch_closed (kf_ch (kafka_stop s))"
  by (auto simp: kafka_stop_def)

lemma feed_step_inv:
  assumes "feed_step decode s s'" and "feed_inv evs decode s"
  shows "feed_inv evs decode s'"
  using assms
proof (elim feed_step_cases, goal_cases)
  case (6 ev)
  then have "(on_its_way s @ [ev]) @ kafka_forward decode (kf_source s) = evs" by (simp add: feed_inv_def)
  then have "prefix (on_its_way s @ [ev]) evs" unfolding prefix_def by metis
  with 6 show ?case by (auto simp: feed_inv_def on_its_way_def)
qed (auto simp: feed_inv_def kafka_stop_closed on_its_way_def)

lemma feed_reach_inv:
  assumes "(feed_step decode)\<^sup>*\<^sup>* (kafka_subscribe msgs) s"
  shows "feed_inv (kafka_forward decode msgs) decode s"
  using assms
proof (induction rule: rtranclp_induct)
  case base
  then show ?case by (simp add: feed_inv_def kafka_subscribe_def on_its_way_def)
next
  case (step s s')
  then show ?case using feed_step_inv by blast
qed

lemma feed_in_order:
  assumes "(feed_step decode)\<^sup>*\<^sup>* (kafka_subscribe msgs) s"
  shows "prefix (kf_received s) (kafka_forward decode msgs)"
    and "kf_at s \<notin> {Gone, Panicked} \<Longrightarrow>
      kf_received s @ ch_buf (kf_ch s) @ in_hand (kf_at s) @ kafka_forward decode (kf_source s) = kafka_forward decode msgs"
  using feed_reach_inv [OF assms] by (auto simp: feed_inv_def on_its_way_def dest: append_prefixD)

lemma stop_while_holding:
  assumes "kf_at s = Holding ev" and "\<not> kf_stopped s" and "ch_closed (kf_ch s) \<longleftrightarrow> kf_stopped s"
  shows "\<exists>s1 s2. feed_step decode s s1 \<and> feed_step decode s1 s2 \<and> kf_at s2 = Panicked"
  using feed_step.consumer_stops [of decode s] feed_step.send_closed [of "kafka_stop s" ev decode] assms kafka_stop_closed [OF assms(3)]
  by (intro exI [of _ "kafka_stop s"] exI [of _ "(kafka_stop s)\<lparr>kf_at := Panicked\<rparr>"]) simp

text \<open>Events the consumer leaves in the buffer when it stops are lost, though they were read.\<close>

lemma stop_is_once: "kafka_stop (kafka_stop s) = kafka_stop s"
  by (simp add: kafka_stop_def)

end
