(* ===== verification/Loops.thy ===== *)
theory Loops
  imports Scheduler Float_Tracker Emitter Funding
begin

text \<open>
  The loops over a ticker: \<open>Run\<close> and \<open>Stop\<close> of \<^verbatim>\<open>internal/batch/scheduler.go\<close>,
  \<open>RunSweeperLoop\<close>, \<open>RunDispatcherLoop\<close> and \<open>RunRebalanceLoop\<close>. Each is a \<open>select\<close> between its
  context and its ticker; they differ in the body, in the period, and in that the scheduler makes
  a context of its own which \<open>Stop\<close> cancels.

  Whatever happens when, the state is that after some number of bodies (\<open>loop_bodies\<close>), so the
  functions that count ticks (\<open>Run_ticks\<close> and its like) are what the loops do; and a body runs at
  most once per period (\<open>loop_paced\<close>).
\<close>

section \<open>A loop\<close>

text \<open>Before it, in its \<open>select\<close>, returned with its result (\<open>None\<close> for nil), or panicked.\<close>

datatype run_at = NotRunning | Selecting | Exited "error option" | Crashed

text \<open>
  \<open>lo_stop\<close>: the field \<open>stop\<close> is set; \<open>lo_stopped\<close>: the context made by \<open>Run\<close> is canceled;
  \<open>lo_done\<close>: the one it was given is. \<open>lo_tick\<close>: the channel of the ticker holds a tick (it has room for
  one); \<open>lo_next\<close> is the instant of the next one. \<open>lo_bodies\<close> counts the bodies run.
\<close>

record 's Loop =
  lo_at :: run_at
  lo_stop :: bool
  lo_stopped :: bool
  lo_done :: bool
  lo_now :: time
  lo_next :: time
  lo_period :: duration
  lo_tick :: bool
  lo_state :: 's
  lo_bodies :: nat

definition NewLoop :: "time \<Rightarrow> 's \<Rightarrow> 's Loop" where
  "NewLoop now s = \<lparr>lo_at = NotRunning, lo_stop = False, lo_stopped = False, lo_done = False, lo_now = now,
     lo_next = now, lo_period = 0, lo_tick = False, lo_state = s, lo_bodies = 0\<rparr>"

text \<open>\<open>time.NewTicker\<close> panics on a period that is not positive.\<close>

definition NewTicker :: "duration \<Rightarrow> 's Loop \<Rightarrow> 's Loop" where
  "NewTicker period l =
     (if period \<le> 0 then l\<lparr>lo_at := Crashed\<rparr>
      else l\<lparr>lo_at := Selecting, lo_period := period, lo_next := lo_now l + period, lo_tick := False\<rparr>)"

definition Scheduler_Run :: "Config \<Rightarrow> 's Loop \<Rightarrow> 's Loop" where
  "Scheduler_Run cfg l = NewTicker (tick_period cfg) (l\<lparr>lo_stop := True, lo_stopped := False\<rparr>)"

definition Scheduler_Stop :: "'s Loop \<Rightarrow> 's Loop" where
  "Scheduler_Stop l = (if lo_stop l then l\<lparr>lo_stopped := True\<rparr> else l)"

definition RunSweeperLoop :: "duration \<Rightarrow> 's Loop \<Rightarrow> 's Loop" where
  "RunSweeperLoop interval = NewTicker (sweeper_interval interval)"

definition RunDispatcherLoop :: "duration \<Rightarrow> 's Loop \<Rightarrow> 's Loop" where
  "RunDispatcherLoop interval = NewTicker (dispatcher_interval interval)"

definition RunRebalanceLoop :: "duration \<Rightarrow> 's Loop \<Rightarrow> 's Loop" where
  "RunRebalanceLoop interval = NewTicker (rebalance_interval interval)"

text \<open>
  Time passes, and the ticker fires once it has reached the instant of the next tick; a tick that
  finds its channel full is dropped, and one that is late skips those it has missed. The \<open>select\<close>
  takes either branch that is ready.
\<close>

inductive loop_step :: "('s \<Rightarrow> 's) \<Rightarrow> 's Loop \<Rightarrow> 's Loop \<Rightarrow> bool" for body where
  passes: "0 \<le> dt \<Longrightarrow> loop_step body l (l\<lparr>lo_now := lo_now l + dt\<rparr>)"
| fires: "lo_at l = Selecting \<Longrightarrow> lo_next l \<le> lo_now l \<Longrightarrow>
    loop_step body l (l\<lparr>lo_tick := True, lo_next := lo_next l + lo_period l * (1 + (lo_now l - lo_next l) div lo_period l)\<rparr>)"
| ticks: "lo_at l = Selecting \<Longrightarrow> lo_tick l \<Longrightarrow>
    loop_step body l (l\<lparr>lo_tick := False, lo_state := body (lo_state l), lo_bodies := Suc (lo_bodies l)\<rparr>)"
| leaves: "lo_at l = Selecting \<Longrightarrow> lo_stopped l \<or> lo_done l \<Longrightarrow>
    loop_step body l (l\<lparr>lo_at := Exited (Some CtxErr)\<rparr>)"
| cancels: "loop_step body l (l\<lparr>lo_done := True\<rparr>)"
| stops: "loop_step body l (Scheduler_Stop l)"

inductive_cases loop_step_cases: "loop_step body l l'"

abbreviation loop_run :: "('s \<Rightarrow> 's) \<Rightarrow> 's Loop \<Rightarrow> 's Loop \<Rightarrow> bool" where
  "loop_run body \<equiv> (loop_step body)\<^sup>*\<^sup>*"

section \<open>What a loop does\<close>

lemma loop_bodies:
  assumes "loop_run body l l'"
  shows "\<exists>n. lo_bodies l' = lo_bodies l + n \<and> lo_state l' = (body ^^ n) (lo_state l)"
  using assms
proof (induction rule: rtranclp_induct)
  case base
  then show ?case by (intro exI [of _ 0]) simp
next
  case (step u v)
  then obtain n where n: "lo_bodies u = lo_bodies l + n" "lo_state u = (body ^^ n) (lo_state l)" by blast
  from step(2) n show ?case
    by (elim loop_step_cases)
      (auto simp: Scheduler_Stop_def intro: exI [of _ n] exI [of _ "Suc n"])
qed

text \<open>
  The pace: \<open>k\<close> ticks have fired since the loop was entered at \<open>t0\<close>, all of them at their time, and
  every body but the one whose tick is waiting has used one up.
\<close>

definition paced :: "time \<Rightarrow> nat \<Rightarrow> duration \<Rightarrow> 's Loop \<Rightarrow> bool" where
  "paced t0 b0 p l \<longleftrightarrow>
     (\<exists>k. b0 \<le> lo_bodies l \<and> lo_bodies l + (if lo_tick l then 1 else 0) \<le> b0 + k \<and> t0 + int k * p \<le> lo_now l \<and>
        t0 + int (Suc k) * p \<le> lo_next l \<and> lo_period l = p)"

lemma paced_fires:
  assumes "paced t0 b0 p l" and "0 < p" and "lo_next l \<le> lo_now l"
  shows "paced t0 b0 p (l\<lparr>lo_tick := True, lo_next := lo_next l + lo_period l * (1 + (lo_now l - lo_next l) div lo_period l)\<rparr>)"
proof -
  obtain k where k: "b0 \<le> lo_bodies l" "lo_bodies l + (if lo_tick l then 1 else 0) \<le> b0 + k"
    "t0 + int (Suc k) * p \<le> lo_next l" "lo_period l = p" using assms(1) by (auto simp: paced_def)
  have "0 \<le> p * ((lo_now l - lo_next l) div p)"
    using assms(2,3) by (simp add: pos_imp_zdiv_nonneg_iff)
  then have "t0 + int (Suc (Suc k)) * p \<le> lo_next l + p * (1 + (lo_now l - lo_next l) div p)"
    using k(3) by (simp add: algebra_simps)
  then show ?thesis
    unfolding paced_def using k assms(3) by (intro exI [of _ "Suc k"]) (auto split: if_splits)
qed

lemma loop_step_paced:
  assumes "loop_step body l l'" and "paced t0 b0 p l" and "0 < p"
  shows "paced t0 b0 p l'"
  using assms(1)
proof cases
  case (passes dt)
  then show ?thesis using assms(2) by (auto simp: paced_def)
next
  case fires
  then show ?thesis using paced_fires [OF assms(2,3)] by simp
next
  case ticks
  then show ?thesis using assms(2) by (auto simp: paced_def)
qed (use assms(2) in \<open>auto simp: paced_def Scheduler_Stop_def\<close>)

lemma paced_start: "0 < p \<Longrightarrow> paced (lo_now l) (lo_bodies l) p (NewTicker p l)"
  by (auto simp: paced_def NewTicker_def intro: exI [of _ 0])

lemma loop_paced:
  assumes "loop_run body (NewTicker p l) l'" and "0 < p"
  shows "int (lo_bodies l' - lo_bodies l) * p \<le> lo_now l' - lo_now l"
proof -
  from assms(1) have "paced (lo_now l) (lo_bodies l) p l'"
    by (induction rule: rtranclp_induct) (auto intro: paced_start [OF assms(2)] loop_step_paced [OF _ _ assms(2)])
  then obtain k where b: "lo_bodies l' + (if lo_tick l' then 1 else 0) \<le> lo_bodies l + k" "lo_now l + int k * p \<le> lo_now l'"
    unfolding paced_def by blast
  then have k: "lo_bodies l' \<le> lo_bodies l + k" "int k * p \<le> lo_now l' - lo_now l" by simp_all
  have "int (lo_bodies l' - lo_bodies l) * p \<le> int k * p"
    using k(1) assms(2) by (intro mult_right_mono) auto
  with k(2) show ?thesis by simp
qed

text \<open>A loop that has returned stays returned; until then, once its context is done, it can return.\<close>

lemma loop_exit_final:
  assumes "loop_run body l l'" and "lo_at l = Exited e"
  shows "lo_at l' = Exited e \<and> lo_state l' = lo_state l"
  using assms
proof (induction rule: rtranclp_induct)
  case (step u v)
  then show ?case by (auto elim!: loop_step_cases simp: Scheduler_Stop_def)
qed simp

lemma stopped_loop_exits:
  "lo_at l = Selecting \<Longrightarrow> lo_stop l \<Longrightarrow>
   \<exists>l'. loop_step body (Scheduler_Stop l) l' \<and> lo_at l' = Exited (Some CtxErr) \<and> lo_state l' = lo_state l"
  using loop_step.leaves [of "Scheduler_Stop l" body]
  by (intro exI [of _ "(Scheduler_Stop l)\<lparr>lo_at := Exited (Some CtxErr)\<rparr>"]) (simp add: Scheduler_Stop_def)

text \<open>A \<open>Stop\<close> that comes before \<open>Run\<close> is lost.\<close>

lemma stop_before_run: "Scheduler_Run cfg (Scheduler_Stop (NewLoop now s)) = Scheduler_Run cfg (NewLoop now s)"
  by (simp add: Scheduler_Stop_def NewLoop_def)

section \<open>The four loops\<close>

lemma ticks_are_bodies:
  "Run_ticks rt d n s = (tick rt d ^^ n) s"
  "Sweeper_ticks n rt fd s = ((\<lambda>s. snd (SweepMatured rt fd s)) ^^ n) s"
  "Dispatcher_ticks n rt ed s = ((\<lambda>s. snd (Dispatch rt ed 100 s)) ^^ n) s"
  "Rebalance_ticks n rt md asset wallet s = (checkAndRebalance rt md asset wallet ^^ n) s"
  by (induction n arbitrary: s) (simp_all add: funpow_Suc_right del: funpow.simps(2))

lemma intervals_positive [simp]: "0 < sweeper_interval i" "0 < dispatcher_interval i" "0 < rebalance_interval i"
  by (simp_all add: sweeper_interval_def dispatcher_interval_def rebalance_interval_def)

lemma new_ticker_fields [simp]:
  "lo_bodies (NewTicker p l) = lo_bodies l" "lo_state (NewTicker p l) = lo_state l"
  by (simp_all add: NewTicker_def)

text \<open>
  The loop of the scheduler: its state is that of \<open>Run_ticks\<close>, a tick at most every quarter of the
  configured interval, and it does not panic when the interval is positive and below the overflow.
\<close>

lemma scheduler_loop:
  assumes "loop_run (tick rt d) (Scheduler_Run cfg (NewLoop now s)) l"
    and "0 < BatchIntervalSeconds cfg" and "BatchIntervalSeconds cfg \<le> 9223372036"
  shows "\<exists>n. lo_state l = Run_ticks rt d n s \<and> int n * tick_period cfg \<le> lo_now l - now \<and> lo_at l \<noteq> Crashed"
proof -
  note p = tick_period_quarter [OF assms(2,3)]
  let ?l = "(NewLoop now s)\<lparr>lo_stop := True, lo_stopped := False\<rparr>"
  have run: "loop_run (tick rt d) (NewTicker (tick_period cfg) ?l) l"
    using assms(1) by (simp add: Scheduler_Run_def)
  from loop_bodies [OF run] obtain n where n: "lo_bodies l = n" "lo_state l = (tick rt d ^^ n) s"
    by (auto simp: NewLoop_def)
  have "int n * tick_period cfg \<le> lo_now l - now"
    using loop_paced [OF run] p n(1) by (simp add: NewLoop_def)
  moreover have "lo_at l \<noteq> Crashed"
    using run
  proof (induction rule: rtranclp_induct)
    case base
    then show ?case using p by (simp add: NewTicker_def)
  next
    case (step u v)
    then show ?case by (auto elim!: loop_step_cases simp: Scheduler_Stop_def split: if_splits)
  qed
  ultimately show ?thesis using n(2) by (auto simp: ticks_are_bodies)
qed

lemma scheduler_overflow:
  "tick_period cfg \<le> 0 \<Longrightarrow> lo_at (Scheduler_Run cfg l) = Crashed"
  by (simp add: Scheduler_Run_def NewTicker_def)

end
