(* ===== verification/Live_Feed.thy ===== *)
theory Live_Feed
  imports Lifecycle Loops
begin

text \<open>
  The in-memory feed as it runs: \<open>Run\<close> and \<open>Stop\<close> of \<^verbatim>\<open>internal/consumer/consumer.go\<close>, the
  goroutine that \<^verbatim>\<open>InMemorySubscriber.Subscribe\<close> of \<^verbatim>\<open>internal/eventbus/eventbus.go\<close>
  leaves behind, the pushes of the HTTP handlers, and everything else that changes the stores
  meanwhile, as the steps of one relation. A push is interleaved between its snapshot and each of
  its sends.

  The consumer handles what reached its channel, in order, each event once (\<open>live_order\<close>); once it
  has returned, what is left in its channel stays there (\<open>left_final\<close>). On the stores of the
  service the memberships are then a function of the events handled, whatever the other
  goroutines do in between (\<open>live_members\<close>).
\<close>

section \<open>The consumer's goroutine\<close>

text \<open>
  \<open>lf_at\<close> is where \<open>Run\<close> is. \<open>lf_stop\<close>: \<open>c.stop\<close> is set; \<open>lf_stopped\<close>: the context \<open>Run\<close> made is canceled; \<open>lf_done\<close>: the one
  it was given is. \<open>lf_pushes\<close> are the pushes under way, with the channels each has still to send
  to. \<open>lf_sent\<close> and \<open>lf_handled\<close> record what was put into the consumer's channel and what it handled.
\<close>

record 's LiveFeed =
  lf_at :: run_at
  lf_stop :: bool
  lf_stopped :: bool
  lf_done :: bool
  lf_ch :: nat
  lf_bus :: Bus
  lf_pushes :: "(TxCompletedEvent \<times> nat list) list"
  lf_state :: 's
  lf_sent :: "TxCompletedEvent list"
  lf_handled :: "TxCompletedEvent list"

definition NewLive :: "'s \<Rightarrow> 's LiveFeed" where
  "NewLive st = \<lparr>lf_at = NotRunning, lf_stop = False, lf_stopped = False, lf_done = False, lf_ch = 0,
     lf_bus = NewInMemory, lf_pushes = [], lf_state = st, lf_sent = [], lf_handled = []\<rparr>"

text \<open>\<open>Run\<close> up to its loop; the in-memory \<open>Subscribe\<close> never fails.\<close>

definition Consumer_Run :: "'s ConsumerDeps \<Rightarrow> 's LiveFeed \<Rightarrow> 's LiveFeed" where
  "Consumer_Run d s =
     (let (ch, bus) = Subscribe (cd_Topic d) (lf_bus s)
      in s\<lparr>lf_bus := bus, lf_ch := ch, lf_stop := True, lf_stopped := False, lf_at := Selecting\<rparr>)"

definition Consumer_Stop :: "'s LiveFeed \<Rightarrow> 's LiveFeed" where
  "Consumer_Stop s = (if lf_stop s then s\<lparr>lf_stopped := True\<rparr> else s)"

text \<open>A return of \<open>Run\<close>, with the deferred \<open>stop\<close> of the subscription.\<close>

definition Consumer_leave :: "'s ConsumerDeps \<Rightarrow> error option \<Rightarrow> 's LiveFeed \<Rightarrow> 's LiveFeed" where
  "Consumer_leave d err s = s\<lparr>lf_at := Exited err, lf_bus := stop_sub (cd_Topic d) (lf_ch s) (lf_bus s)\<rparr>"

text \<open>The goroutine \<open>Subscribe\<close> leaves behind, once its context is done.\<close>

definition release_sub :: "'s ConsumerDeps \<Rightarrow> 's LiveFeed \<Rightarrow> 's LiveFeed" where
  "release_sub d s = s\<lparr>lf_bus := stop_sub (cd_Topic d) (lf_ch s) (lf_bus s)\<rparr>"

text \<open>One send of a push, to the first channel it has left.\<close>

definition send_next :: "TxCompletedEvent \<Rightarrow> nat \<Rightarrow> 's LiveFeed \<Rightarrow> 's LiveFeed option" where
  "send_next ev c s =
     map_option (\<lambda>bus. s\<lparr>lf_bus := bus,
       lf_sent := lf_sent s @ (if lf_at s \<noteq> NotRunning \<and> c = lf_ch s \<and> length (ch_buf (bus_chan (lf_bus s) c)) < chan_cap
         then [ev] else [])\<rparr>) (try_send ev c (lf_bus s))"

section \<open>Steps\<close>

text \<open>
  The \<open>select\<close> takes any branch that is ready. A send on a closed channel panics; the HTTP server
  recovers the panic of a handler, so that the push is abandoned (\<open>send_panics\<close>). \<open>env\<close> is what the
  other goroutines do to the state.
\<close>

inductive live_step ::
  "'s Rt \<Rightarrow> 's ConsumerDeps \<Rightarrow> ('s \<Rightarrow> 's \<Rightarrow> bool) \<Rightarrow> 's LiveFeed \<Rightarrow> 's LiveFeed \<Rightarrow> bool" for rt d env where
  runs: "lf_at s = NotRunning \<Longrightarrow> live_step rt d env s (Consumer_Run d s)"
| receives: "lf_at s = Selecting \<Longrightarrow> recv (lf_ch s) (lf_bus s) = (Event ev, bus) \<Longrightarrow>
    live_step rt d env s (s\<lparr>lf_bus := bus, lf_state := handle rt d ev (lf_state s), lf_handled := lf_handled s @ [ev]\<rparr>)"
| ends: "lf_at s = Selecting \<Longrightarrow> recv (lf_ch s) (lf_bus s) = (Ended, bus) \<Longrightarrow>
    live_step rt d env s (Consumer_leave d None s)"
| leaves: "lf_at s = Selecting \<Longrightarrow> lf_stopped s \<or> lf_done s \<Longrightarrow>
    live_step rt d env s (Consumer_leave d (Some CtxErr) s)"
| releases: "lf_at s \<noteq> NotRunning \<Longrightarrow> lf_done s \<Longrightarrow>
    live_step rt d env s (release_sub d s)"
| cancels: "live_step rt d env s (s\<lparr>lf_done := True\<rparr>)"
| stops: "live_step rt d env s (Consumer_Stop s)"
| push_begins: "live_step rt d env s (s\<lparr>lf_pushes := (ev, push_snapshot topic (lf_bus s)) # lf_pushes s\<rparr>)"
| push_sends: "lf_pushes s = ps @ (ev, c # cs) # qs \<Longrightarrow> send_next ev c s = Some s' \<Longrightarrow>
    live_step rt d env s (s'\<lparr>lf_pushes := ps @ (ev, cs) # qs\<rparr>)"
| send_panics: "lf_pushes s = ps @ (ev, c # cs) # qs \<Longrightarrow> send_next ev c s = None \<Longrightarrow>
    live_step rt d env s (s\<lparr>lf_pushes := ps @ qs\<rparr>)"
| push_ends: "lf_pushes s = ps @ (ev, []) # qs \<Longrightarrow> live_step rt d env s (s\<lparr>lf_pushes := ps @ qs\<rparr>)"
| others: "env (lf_state s) st \<Longrightarrow> live_step rt d env s (s\<lparr>lf_state := st\<rparr>)"

inductive_cases live_step_cases: "live_step rt d env s s'"

section \<open>The channel\<close>

lemma bus_inv_recv:
  assumes "bus_inv s"
  shows "bus_inv (snd (recv c s))"
proof (cases "ch_buf (bus_chan s c)")
  case Nil
  with assms show ?thesis by (simp add: recv_def Let_def)
next
  case (Cons ev evs)
  have "length evs \<le> chan_cap" using bus_invD(5) [OF assms, of c] Cons by simp
  with Cons assms show ?thesis by (auto simp: recv_def Let_def bus_inv_def)
qed

lemma bus_inv_send: "bus_inv s \<Longrightarrow> try_send ev c s = Some s' \<Longrightarrow> bus_inv s'"
  by (auto simp: bus_inv_def try_send_def Let_def split: if_splits)

lemma stop_sub_chan:
  "ch_buf (bus_chan (stop_sub t c s) x) = ch_buf (bus_chan s x)"
  "bus_next (stop_sub t c s) = bus_next s"
  "ch_closed (bus_chan s x) \<Longrightarrow> ch_closed (bus_chan (stop_sub t c s) x)"
  by (simp_all add: stop_sub_def Let_def split: option.split)

lemma stop_sub_closes:
  assumes "c \<in> set (bus_channels s t) \<or> ch_closed (bus_chan s c)"
  shows "ch_closed (bus_chan (stop_sub t c s) c)"
proof (cases "first_ix (\<lambda>x. x = c) (bus_channels s t)")
  case None
  then have "c \<notin> set (bus_channels s t)" by (auto simp: first_ix_None)
  with assms None show ?thesis by (simp add: stop_sub_def)
qed (simp add: stop_sub_def Let_def)

text \<open>
  What holds of the feed: the channel was allocated and is subscribed or closed; what is in it and
  what was handled is what was sent; it is closed once \<open>Run\<close> has returned, and empty if it
  returned without an error.
\<close>

definition live_inv :: "string \<Rightarrow> 's LiveFeed \<Rightarrow> bool" where
  "live_inv topic s \<longleftrightarrow>
     bus_inv (lf_bus s) \<and> (\<forall>(ev, cs) \<in> set (lf_pushes s). \<forall>c \<in> set cs. c < bus_next (lf_bus s)) \<and>
     (if lf_at s = NotRunning then lf_sent s = [] \<and> lf_handled s = []
      else lf_ch s < bus_next (lf_bus s) \<and>
        lf_handled s @ ch_buf (bus_chan (lf_bus s) (lf_ch s)) = lf_sent s \<and>
        (lf_ch s \<in> set (bus_channels (lf_bus s) topic) \<or> ch_closed (bus_chan (lf_bus s) (lf_ch s)))) \<and>
     (\<forall>e. lf_at s = Exited e \<longrightarrow> ch_closed (bus_chan (lf_bus s) (lf_ch s)) \<and>
        (e = None \<longrightarrow> ch_buf (bus_chan (lf_bus s) (lf_ch s)) = []))"

lemma live_invD:
  assumes "live_inv topic s"
  shows "bus_inv (lf_bus s)" and "\<forall>(ev, cs) \<in> set (lf_pushes s). \<forall>c \<in> set cs. c < bus_next (lf_bus s)"
    and "lf_at s = NotRunning \<Longrightarrow> lf_sent s = [] \<and> lf_handled s = []"
    and "lf_at s \<noteq> NotRunning \<Longrightarrow> lf_ch s < bus_next (lf_bus s)"
    and "lf_at s \<noteq> NotRunning \<Longrightarrow> lf_handled s @ ch_buf (bus_chan (lf_bus s) (lf_ch s)) = lf_sent s"
    and "lf_at s \<noteq> NotRunning \<Longrightarrow>
      lf_ch s \<in> set (bus_channels (lf_bus s) topic) \<or> ch_closed (bus_chan (lf_bus s) (lf_ch s))"
    and "lf_at s = Exited e \<Longrightarrow> ch_closed (bus_chan (lf_bus s) (lf_ch s))"
    and "lf_at s = Exited None \<Longrightarrow> ch_buf (bus_chan (lf_bus s) (lf_ch s)) = []"
  using assms by (auto simp: live_inv_def split: if_splits)

lemma live_inv_stop:
  assumes "live_inv topic s" and "lf_at s \<noteq> NotRunning"
  shows "live_inv topic (s\<lparr>lf_bus := stop_sub topic (lf_ch s) (lf_bus s)\<rparr>)"
    and "ch_closed (bus_chan (stop_sub topic (lf_ch s) (lf_bus s)) (lf_ch s))"
proof -
  note D = live_invD [OF assms(1)]
  show c: "ch_closed (bus_chan (stop_sub topic (lf_ch s) (lf_bus s)) (lf_ch s))"
    using stop_sub_closes [OF D(6) [OF assms(2)]] .
  then show "live_inv topic (s\<lparr>lf_bus := stop_sub topic (lf_ch s) (lf_bus s)\<rparr>)"
    using D(2,4,5,8) assms(2) bus_inv_stop [OF D(1)] by (simp add: live_inv_def stop_sub_chan)
qed

lemma live_inv_run:
  assumes "live_inv (cd_Topic d) s" and "lf_at s = NotRunning"
  shows "live_inv (cd_Topic d) (Consumer_Run d s)"
proof -
  note D = live_invD [OF assms(1)]
  have "bus_inv (snd (Subscribe (cd_Topic d) (lf_bus s)))" by (rule bus_inv_subscribe [OF D(1)])
  moreover have "\<forall>(ev, cs) \<in> set (lf_pushes s). \<forall>c \<in> set cs. c < Suc (bus_next (lf_bus s))"
    using D(2) by fastforce
  ultimately show ?thesis
    using D(3) [OF assms(2)] by (simp add: live_inv_def Consumer_Run_def Subscribe_def Let_def)
qed

lemma live_inv_recv:
  assumes "live_inv topic s" and "lf_at s = Selecting" and "recv (lf_ch s) (lf_bus s) = (Event ev, bus)"
  shows "live_inv topic (s\<lparr>lf_bus := bus, lf_state := st, lf_handled := lf_handled s @ [ev]\<rparr>)"
proof -
  note D = live_invD [OF assms(1)]
  have run: "lf_at s \<noteq> NotRunning" using assms(2) by simp
  obtain evs where c: "ch_buf (bus_chan (lf_bus s) (lf_ch s)) = ev # evs"
    and bus: "bus = (lf_bus s)\<lparr>bus_chan := (bus_chan (lf_bus s))(lf_ch s := (bus_chan (lf_bus s) (lf_ch s))\<lparr>ch_buf := evs\<rparr>)\<rparr>"
    using assms(3) by (auto simp: recv_def Let_def split: list.splits if_splits)
  have "bus_inv bus" using bus_inv_recv [OF D(1), of "lf_ch s"] assms(3) by simp
  then show ?thesis
    using D(2) D(4) [OF run] D(5) [OF run] D(6) [OF run] assms(2) c by (simp add: live_inv_def bus)
qed

lemma live_inv_send:
  assumes "live_inv topic s" and "lf_pushes s = ps @ (ev, c # cs) # qs" and "send_next ev c s = Some s'"
  shows "live_inv topic (s'\<lparr>lf_pushes := ps @ (ev, cs) # qs\<rparr>)"
proof -
  note D = live_invD [OF assms(1)]
  obtain bus where t: "try_send ev c (lf_bus s) = Some bus"
    and s': "s' = s\<lparr>lf_bus := bus, lf_sent := lf_sent s @ (if lf_at s \<noteq> NotRunning \<and> c = lf_ch s \<and>
        length (ch_buf (bus_chan (lf_bus s) c)) < chan_cap then [ev] else [])\<rparr>"
    using assms(3) by (auto simp: send_next_def)
  have opn: "\<not> ch_closed (bus_chan (lf_bus s) c)" using t by (auto simp: try_send_def Let_def split: if_splits)
  have b: "bus_inv bus" by (rule bus_inv_send [OF D(1) t])
  have f: "bus_channels bus = bus_channels (lf_bus s)" "bus_next bus = bus_next (lf_bus s)"
    "ch_closed (bus_chan bus x) = ch_closed (bus_chan (lf_bus s) x)"
    "ch_buf (bus_chan bus x) = ch_buf (bus_chan (lf_bus s) x) @
        (if x = c \<and> length (ch_buf (bus_chan (lf_bus s) c)) < chan_cap then [ev] else [])" for x
    using try_send_open [OF opn, of ev] t by auto
  have p: "\<forall>(ev', cs') \<in> set (ps @ (ev, cs) # qs). \<forall>x \<in> set cs'. x < bus_next (lf_bus s)"
    using D(2) unfolding assms(2) by auto
  show ?thesis
  proof (cases "lf_at s = NotRunning")
    case True
    then show ?thesis using b p D(3) by (simp add: live_inv_def s' f)
  next
    case False
    have "lf_at s = Exited e \<Longrightarrow> c \<noteq> lf_ch s" for e using D(7) opn by blast
    then show ?thesis
      using b p False D(4-8) by (auto simp: live_inv_def s' f)
  qed
qed

lemma live_step_inv:
  assumes "live_step rt d env s s'" and "live_inv (cd_Topic d) s"
  shows "live_inv (cd_Topic d) s'"
  using assms(1)
proof cases
  case runs
  then show ?thesis using live_inv_run assms(2) by blast
next
  case (receives ev bus)
  then show ?thesis using live_inv_recv [OF assms(2)] by blast
next
  case (ends bus)
  have "ch_buf (bus_chan (lf_bus s) (lf_ch s)) = []"
    using ends(3) by (auto simp: recv_def Let_def split: list.splits)
  then show ?thesis
    using live_inv_stop [OF assms(2)] ends(1,2) by (auto simp: live_inv_def Consumer_leave_def release_sub_def stop_sub_chan)
next
  case leaves
  then show ?thesis
    using live_inv_stop [OF assms(2)] by (auto simp: live_inv_def Consumer_leave_def release_sub_def)
next
  case releases
  then show ?thesis using live_inv_stop(1) [OF assms(2)] by (simp add: release_sub_def)
next
  case (push_begins ev topic)
  then show ?thesis
    using assms(2) bus_invD(2) [OF live_invD(1) [OF assms(2)]] by (auto simp: live_inv_def push_snapshot_def)
next
  case (push_sends ps ev c cs qs s1)
  then show ?thesis using live_inv_send [OF assms(2)] by blast
qed (use assms(2) in \<open>auto simp: live_inv_def Consumer_Stop_def\<close>)

lemma live_inv_new: "live_inv topic (NewLive st)"
  by (simp add: live_inv_def NewLive_def)

abbreviation live_run ::
  "'s Rt \<Rightarrow> 's ConsumerDeps \<Rightarrow> ('s \<Rightarrow> 's \<Rightarrow> bool) \<Rightarrow> 's LiveFeed \<Rightarrow> 's LiveFeed \<Rightarrow> bool" where
  "live_run rt d env \<equiv> (live_step rt d env)\<^sup>*\<^sup>*"

lemma live_run_inv:
  assumes "live_run rt d env s s'" and "live_inv (cd_Topic d) s"
  shows "live_inv (cd_Topic d) s'"
  using assms by (induction rule: rtranclp_induct) (auto intro: live_step_inv)

text \<open>The order: what was handled, then what waits in the channel, is what was sent to it.\<close>

lemma live_order:
  assumes "live_run rt d env (NewLive st) s"
  shows "prefix (lf_handled s) (lf_sent s)" and "length (lf_sent s) \<le> length (lf_handled s) + chan_cap"
    and "lf_at s = Exited None \<Longrightarrow> lf_handled s = lf_sent s"
proof -
  note D = live_invD [OF live_run_inv [OF assms live_inv_new]]
  have "lf_handled s @ (if lf_at s = NotRunning then [] else ch_buf (bus_chan (lf_bus s) (lf_ch s))) = lf_sent s"
    using D(3,5) by simp
  from this [symmetric] show "prefix (lf_handled s) (lf_sent s)" "length (lf_sent s) \<le> length (lf_handled s) + chan_cap"
    "lf_at s = Exited None \<Longrightarrow> lf_handled s = lf_sent s"
    using D(8) bus_invD(5) [OF D(1), of "lf_ch s"] by simp_all
qed

text \<open>After the return of \<open>Run\<close> nothing more is handled, nor sent to its channel.\<close>

lemma left_step:
  assumes "live_step rt d env s s'" and "live_inv (cd_Topic d) s" and "lf_at s = Exited e"
  shows "lf_at s' = Exited e \<and> lf_handled s' = lf_handled s \<and> lf_sent s' = lf_sent s"
  using assms(1,3) live_invD(7) [OF assms(2,3)]
  by cases (auto simp: Consumer_Stop_def release_sub_def send_next_def try_send_def Let_def split: if_splits)

lemma left_final:
  assumes "live_run rt d env s s'" and "live_inv (cd_Topic d) s" and "lf_at s = Exited e"
  shows "lf_at s' = Exited e \<and> lf_handled s' = lf_handled s \<and> lf_sent s' = lf_sent s"
  using assms(1)
proof (induction rule: rtranclp_induct)
  case base
  then show ?case using assms(3) by simp
next
  case (step u v)
  then show ?case using left_step [OF step(2) live_run_inv [OF step(1) assms(2)]] by auto
qed

section \<open>What the other goroutines leave alone\<close>

text \<open>The members, and the transactions not yet claimed.\<close>

definition aside :: "'n service \<Rightarrow> 'n service \<Rightarrow> bool" where
  "aside w w' \<longleftrightarrow> w_member w' = w_member w \<and> claimed_txs w' \<subseteq> claimed_txs w"

lemma aside_refl [simp]: "aside w w"
  by (simp add: aside_def)

lemma aside_trans [trans]: "aside u v \<Longrightarrow> aside v w \<Longrightarrow> aside u w"
  by (auto simp: aside_def)

lemma quiet_aside: "quiet w w' \<Longrightarrow> aside w w'"
  by (simp add: quiet_def calm_def aside_def)

lemma close_aside:
  assumes "books w"
  shows "aside w (snd (close_batch (world_rt dec) (app_scheduler (world_rt dec) cfg (dev_services dec mar unm)) uid reason w))"
proof (cases "\<exists>b. batch_map (w_batch w) uid = Some b \<and> b_Status b = BatchOpen")
  case False
  then show ?thesis using close_refused [of w uid] by auto
next
  case True
  then obtain b j where b: "batch_at uid (w_batch w) j b" "b_Status b = BatchOpen"
    using rowmap_Some_ix by (metis (full_types))
  define w' where "w' = snd (close_batch (world_rt dec) (app_scheduler (world_rt dec) cfg (dev_services dec mar unm)) uid reason w)"
  from close_any [OF b refl books_fresh [OF assms b] w'_def]
  have "known_keys w' \<subseteq> insert (agg_key uid) (insert (hedge_key uid) (known_keys w)) \<and> untouched w w'"
    by (elim exE conjE) simp
  moreover have "''tx:'' @ tx \<noteq> agg_key uid" "''tx:'' @ tx \<noteq> hedge_key uid" for tx
    by (simp_all add: agg_key_def hedge_key_def)
  ultimately show ?thesis unfolding w'_def [symmetric] aside_def claimed_txs_def untouched_def by blast
qed

lemma tick_loop_aside:
  assumes "books w"
  shows "aside w (tick_loop (world_rt dec) (app_scheduler (world_rt dec) cfg (dev_services dec mar unm)) bs w)"
  using assms
proof (induction bs arbitrary: w)
  case Nil
  then show ?case by simp
next
  case (Cons b bs)
  let ?d = "app_scheduler (world_rt dec) cfg (dev_services dec mar unm)"
  define w1 where "w1 = snd (shouldClose (world_rt dec) ?d b w)"
  define w2 where "w2 = snd (Acquire (sd_Lock ?d) (b_AssetPair b) w1)"
  define w3 where "w3 = snd (close_batch (world_rt dec) ?d (b_ID b) (fst (shouldClose (world_rt dec) ?d b w)) w2)"
  have q1: "quiet w w1" by (simp add: w1_def dev_components shouldClose_quiet)
  have q2: "quiet w w2"
    by (rule quiet_trans [OF q1]) (simp add: w2_def dev_components acquire_quiet)
  note b1 = books_quiet [OF Cons.prems q1] and b2 = books_quiet [OF Cons.prems q2]
  have a3: "aside w w3"
    using aside_trans [OF quiet_aside [OF q2] close_aside [OF b2]] by (simp add: w3_def)
  have b3: "books w3" by (rule progress_books [OF close_progress [OF b2 w3_def]])
  have "tick_loop (world_rt dec) ?d (b # bs) w \<in>
      {tick_loop (world_rt dec) ?d bs w1, tick_loop (world_rt dec) ?d bs w2, tick_loop (world_rt dec) ?d bs w3}"
    by (simp add: w1_def w2_def w3_def Let_def case_prod_beta split: sum.split)
  then show ?case
    using aside_trans [OF quiet_aside [OF q1] Cons.IH [OF b1]] aside_trans [OF quiet_aside [OF q2] Cons.IH [OF b2]]
      aside_trans [OF a3 Cons.IH [OF b3]] by auto
qed

lemma other_aside: "other_step dec mar unm cfg w w' \<Longrightarrow> books w \<Longrightarrow> aside w w'"
proof (induction rule: other_step.induct)
  case (other_tick w)
  then show ?case using tick_loop_aside by (simp add: tick_def dev_components W_simps)
next
  case (other_close w uid)
  then show ?case using close_aside by (simp add: CloseBatch_def)
next
  case (other_outside x w)
  then show ?case by (simp add: aside_def claimed_txs_def)
qed (rule quiet_aside, rule dispatch_quiet sweep_quiet create_quiet rebalance_quiet topup_quiet)+

section \<open>The feed of the service\<close>

text \<open>The feed in front of the stores, with all that the service's other goroutines do.\<close>

abbreviation service_feed ::
  "(float64 \<Rightarrow> decimal) \<Rightarrow> (Payload \<Rightarrow> string) \<Rightarrow> (string \<Rightarrow> Payload) \<Rightarrow> Config
   \<Rightarrow> 'n service LiveFeed \<Rightarrow> 'n service LiveFeed \<Rightarrow> bool" where
  "service_feed dec mar unm cfg \<equiv>
     live_run (world_rt dec) (app_consumer cfg (dev_services dec mar unm)) (other_step dec mar unm cfg)"

definition members_of :: "TxCompletedEvent list \<Rightarrow> 'n service \<Rightarrow> bool" where
  "members_of handled w \<longleftrightarrow>
     claims_ok w \<and> (\<forall>evs. map member_view (mt_rows (w_member w)) @
       map event_view (accepted (Collect (mt_byTx (w_member w))) evs) = map event_view (accepted {} (handled @ evs)))"

lemma claims_ok_txs: "claims_ok w \<longleftrightarrow> claimed_txs w \<subseteq> Collect (mt_byTx (w_member w))"
  by (auto simp: claims_ok_def claimed_txs_def domIff)

lemma members_of_aside: "members_of hs w \<Longrightarrow> aside w w' \<Longrightarrow> members_of hs w'"
  by (auto simp: members_of_def claims_ok_txs aside_def)

lemma members_of_handle:
  assumes "members_of hs w"
  shows "members_of (hs @ [ev]) (handle (world_rt dec) (app_consumer cfg (dev_services dec mar unm)) ev w)"
proof -
  have c: "benign_chan None" by (simp add: benign_chan_def)
  have ok: "claims_ok w"
    and eq: "map member_view (mt_rows (w_member w)) @ map event_view (accepted (Collect (mt_byTx (w_member w))) evs) =
      map event_view (accepted {} (hs @ evs))" for evs
    using assms by (simp_all add: members_of_def)
  show ?thesis
    unfolding members_of_def dev_components using handle_accepts [OF ok onBatchOpen_benign c refl] eq
    by (simp del: accepted.simps)
qed

lemma members_of_new: "members_of [] (NewAll clock ids ext)"
  by (simp add: members_of_def claims_ok_new) (simp add: NewAll_def NewMembershipStore_def)

text \<open>In a step the state is left alone, takes one event, or makes a step of another goroutine.\<close>

lemma live_step_state:
  assumes "live_step rt d env s s'"
  shows "lf_state s' = lf_state s \<and> lf_handled s' = lf_handled s \<or>
    env (lf_state s) (lf_state s') \<and> lf_handled s' = lf_handled s \<or>
    (\<exists>ev. lf_state s' = handle rt d ev (lf_state s) \<and> lf_handled s' = lf_handled s @ [ev])"
  using assms
  by cases (auto simp: Consumer_Run_def Consumer_Stop_def Consumer_leave_def release_sub_def send_next_def Let_def case_prod_beta)

lemma live_service:
  assumes "service_feed dec mar unm cfg (NewLive w0) s" and "books w0" and "members_of [] w0"
  shows "service_run dec mar unm cfg w0 (lf_state s) \<and> members_of (lf_handled s) (lf_state s)"
  using assms(1)
proof (induction rule: rtranclp_induct)
  case base
  then show ?case using assms(3) by (simp add: NewLive_def)
next
  case (step u v)
  have bu: "books (lf_state u)" using progress_books [OF run_progress [OF _ assms(2)]] step.IH by blast
  from live_step_state [OF step.hyps(2)] consider
    "lf_state v = lf_state u" "lf_handled v = lf_handled u"
    | "other_step dec mar unm cfg (lf_state u) (lf_state v)" "lf_handled v = lf_handled u"
    | ev where "lf_state v = handle (world_rt dec) (app_consumer cfg (dev_services dec mar unm)) ev (lf_state u)"
        "lf_handled v = lf_handled u @ [ev]"
    by blast
  then show ?case
  proof cases
    case 1
    then show ?thesis using step.IH by simp
  next
    case 2
    then have "service_run dec mar unm cfg w0 (lf_state v)"
      using step.IH step_other [OF 2(1)] by (meson rtranclp.rtrancl_into_rtrancl)
    then show ?thesis using members_of_aside [OF _ other_aside [OF 2(1) bu]] step.IH 2(2) by simp
  next
    case 3
    then have "service_run dec mar unm cfg w0 (lf_state v)"
      using step.IH step_event 3(1) by (metis rtranclp.rtrancl_into_rtrancl)
    then show ?thesis using members_of_handle step.IH 3 by metis
  qed
qed

text \<open>The memberships are the accepted events among those handled, in their order.\<close>

lemma live_members:
  assumes "service_feed dec mar unm cfg (NewLive (NewAll clock ids (NewOutside net))) s"
    and "inj ids" and "\<forall>n. clock n \<noteq> zero_time"
  shows "reachable dec mar unm cfg (lf_state s)"
    and "map member_view (mt_rows (w_member (lf_state s))) = map event_view (accepted {} (lf_handled s))"
proof -
  note L = live_service [OF assms(1) books_new [OF assms(2)] members_of_new]
  then show "reachable dec mar unm cfg (lf_state s)" using assms(2,3) unfolding reachable_def by blast
  have "map member_view (mt_rows (w_member (lf_state s))) @ map event_view (accepted (Collect (mt_byTx (w_member (lf_state s)))) [])
      = map event_view (accepted {} (lf_handled s @ []))" using L unfolding members_of_def by blast
  then show "map member_view (mt_rows (w_member (lf_state s))) = map event_view (accepted {} (lf_handled s))" by simp
qed

section \<open>A stream from the beginning\<close>

text \<open>From an empty service, the memberships are the accepted events.\<close>

lemma members_from_empty:
  "map member_view (mt_rows (w_member (Run_events (world_rt dec)
     (app_consumer cfg (dev_services dec mar unm)) evs (NewAll clock ids ext)))) =
   map event_view (accepted {} evs)"
proof -
  have c: "benign_chan None" by (simp add: benign_chan_def)
  have e: "mt_rows (w_member (NewAll clock ids ext)) = []"
      "Collect (mt_byTx (w_member (NewAll clock ids ext))) = {}"
    by (simp_all add: NewAll_def NewMembershipStore_def)
  show ?thesis
    unfolding dev_components Run_events_accepted [OF claims_ok_new onBatchOpen_benign c] e by simp
qed

text \<open>
  Every valid transaction of the stream has exactly one membership, however often its
  event is delivered, and no membership has another origin.
\<close>

lemma each_transaction_once:
  "let txs = map m_TxID (mt_rows (w_member (Run_events (world_rt dec)
     (app_consumer cfg (dev_services dec mar unm)) evs (NewAll clock ids ext))))
   in distinct txs \<and> set txs = {tx. \<exists>ev. ev \<in> set evs \<and> valid_event ev \<and> ev_TxID ev = tx}"
proof -
  let ?ms = "mt_rows (w_member (Run_events (world_rt dec)
     (app_consumer cfg (dev_services dec mar unm)) evs (NewAll clock ids ext)))"
  have "map (fst \<circ> member_view) ?ms = map (fst \<circ> event_view) (accepted {} evs)"
    using members_from_empty [of dec cfg mar unm evs clock ids ext] by (metis map_map)
  then have m: "map m_TxID ?ms = map ev_TxID (accepted {} evs)"
    by (simp add: member_view_def event_view_def comp_def)
  have "ev_TxID ` set (accepted {} evs) = {tx. \<exists>ev. ev \<in> set evs \<and> valid_event ev \<and> ev_TxID ev = tx}"
    using accepted_covers [of _ evs "{}"] accepted_subset [of _ "{}" evs] by force
  then show ?thesis
    using accepted_distinct [of "{}" evs] unfolding Let_def m set_map by blast
qed

end
