(* ===== verification/Examples.thy ===== *)
theory Examples
  imports Routes Pg_Ops Pg_Sessions Pg_Sql Pg_Consumer Startup Race Kafka_Feed Live_Feed
begin

text \<open>
  Concrete inputs on which the properties are evaluated: a clock, a generator of identifiers,
  a fresh service in development mode, a service with one open batch of one member, and the
  events, payloads and rows they are made of.
\<close>

definition ex_clock :: "nat \<Rightarrow> time" where
  "ex_clock n = 1000 + int n"

definition ex_ids :: "nat \<Rightarrow> uuid" where
  "ex_ids n = replicate n CHR ''i''"

definition ex_dec :: "float64 \<Rightarrow> decimal" where
  "ex_dec x = x"

definition ex_mar :: "Payload \<Rightarrow> string" where
  "ex_mar p = pl_EventType p"

definition ex_unm :: "string \<Rightarrow> Payload" where
  "ex_unm s = no_payload\<lparr>pl_EventType := s\<rparr>"

definition ex_cfg :: Config where
  "ex_cfg = \<lparr>Port = ''8080'', DBURL = [], RedisURL = [], BatchIntervalSeconds = 30,
     BatchSizeThresholdUSD = 50000, MinFloatUSD = 0, MaxFloatUSD = 100, HotWalletTargets = Map.empty,
     LiquidityRoutingURL = [], WalletMgmtURL = [], FXHedgingURL = [], LedgerURL = [], AuditLogURL = [],
     TxOrchEventTopic = ''tx.completed'', EventBusURL = [], EventBusGroupID = [], LogLevel = ''info'',
     SettlementDays = Map.empty, BatchIntervalOverrides = Map.empty, BatchThresholdOverrides = Map.empty\<rparr>"

definition ex_world :: "unit service" where
  "ex_world = NewAll ex_clock ex_ids (NewOutside ())"

definition ex_event :: "string \<Rightarrow> TxCompletedEvent" where
  "ex_event tx = \<lparr>ev_TxID = tx, ev_Amount = 2, ev_Asset = ''BTC'', ev_FiatCurrency = ''USD'',
     ev_NotionalUSD = 100, ev_UserID = ''u'', ev_CompletedAt = []\<rparr>"

definition ex_batch :: Batch where
  "ex_batch = \<lparr>b_ID = ''b1'', b_AssetPair = ''BTC/USD'', b_Status = BatchOpen, b_NotionalUSD = 100,
     b_OpenedAt = 7, b_ClosedAt = 0\<rparr>"

definition ex_member :: Membership where
  "ex_member = \<lparr>m_ID = ''m1'', m_BatchID = ''b1'', m_TxID = ''t1'', m_Amount = 2, m_Asset = ''BTC'',
     m_FiatCurrency = ''USD'', m_NotionalUSD = 100, m_UserID = ''u'', m_CreatedAt = 7\<rparr>"

text \<open>One open batch with one member.\<close>

definition ex_open :: "unit service" where
  "ex_open = ex_world\<lparr>w_batch := [ex_batch],
     w_member := \<lparr>mt_rows = [ex_member], mt_byTx = (\<lambda>tx. tx = ''t1'')\<rparr>\<rparr>"

lemma ex_ids_inj: "inj ex_ids"
  by (rule injI) (metis ex_ids_def length_replicate)

lemmas ex_defs = ex_open_def ex_world_def NewAll_def NewOutside_def ex_batch_def ex_member_def ex_clock_def
  NewFake_def NewMem_def NewOutboxStore_def NewFakeWallet_def NewMembershipStore_def dev_fill_def dev_hedge_def

lemma ex_clock_pos: "\<forall>n. ex_clock n \<noteq> zero_time"
  by (simp add: ex_clock_def)

lemma ex_open_batch: "batch_map (w_batch ex_open) ''b1'' = Some ex_batch" "b_Status ex_batch = BatchOpen"
  by (simp_all add: ex_defs rowmap_def)

lemma ex_open_fresh:
  "100 = notional_of ''b1'' (mt_rows (w_member ex_open))" "order_map (w_order ex_open) uid = None"
  "seen_key ex_open k = None" "\<not> seen_event ex_open k" "services_up ex_open"
  by (simp_all add: ex_defs services_up_def)

section \<open>A run\<close>

text \<open>One event, then a manual close of the batch it opened: a settled batch.\<close>

definition ex_joined :: "unit service" where
  "ex_joined = handle (world_rt ex_dec) (app_consumer ex_cfg (dev_services ex_dec ex_mar ex_unm)) (ex_event ''t1'') ex_world"

definition ex_uid :: uuid where
  "ex_uid = ex_ids 0"

definition ex_settled :: "unit service" where
  "ex_settled = snd (CloseBatch (world_rt ex_dec) (app_scheduler (world_rt ex_dec) ex_cfg
     (dev_services ex_dec ex_mar ex_unm)) ex_uid ex_joined)"

lemma ex_joined_run: "service_run ex_dec ex_mar ex_unm ex_cfg (NewAll ex_clock ex_ids (NewOutside ())) ex_joined"
  unfolding ex_joined_def ex_world_def by (rule r_into_rtranclp, rule step_event)

lemma ex_settled_run: "service_run ex_dec ex_mar ex_unm ex_cfg ex_joined ex_settled"
  unfolding ex_settled_def by (rule r_into_rtranclp, rule step_close)

lemma ex_joined_reachable: "reachable ex_dec ex_mar ex_unm ex_cfg ex_joined"
  unfolding reachable_def using ex_ids_inj ex_clock_pos ex_joined_run by blast

lemma ex_settled_reachable: "reachable ex_dec ex_mar ex_unm ex_cfg ex_settled"
  by (rule reachable_step [OF ex_joined_reachable ex_settled_run])

text \<open>Then another event of the same pair.\<close>

definition ex_later :: "unit service" where
  "ex_later = handle (world_rt ex_dec) (app_consumer ex_cfg (dev_services ex_dec ex_mar ex_unm)) (ex_event ''t2'') ex_settled"

lemma ex_later_run: "service_run ex_dec ex_mar ex_unm ex_cfg ex_settled ex_later"
  unfolding ex_later_def by (rule r_into_rtranclp, rule step_event)

lemmas joining = handle_def dev_components join_batch_def ex_event_def ex_world_def NewAll_def
  NewMem_def NewMembershipStore_def W_simps Let_def ms_CheckAndMark_def mm_ExistsByTxID_def mb_OpenBatch_def
  mm_ListMemberships_def mm_AddMembership_cases event_membership_def onBatchOpen_def mm_SumNotional_eq
  value_or_zero_def mb_SetBatchNotional_def

definition ex_joined_batch :: Batch where
  "ex_joined_batch = \<lparr>b_ID = ex_uid, b_AssetPair = ''BTC/USD'', b_Status = BatchOpen, b_NotionalUSD = 100,
     b_OpenedAt = 1001, b_ClosedAt = 0\<rparr>"

lemma ex_joined_tables:
  "w_batch ex_joined = [ex_joined_batch]" "notional_of ex_uid (mt_rows (w_member ex_joined)) = 100"
  "w_order ex_joined = []" "seen_key ex_joined = [''tx:t1'' \<mapsto> 1000 + 24 * hour]"
  "w_ext ex_joined = NewOutside ()"
  by (simp_all add: ex_joined_def joining ex_joined_batch_def ex_uid_def stamped_def event_notional_def
      ex_clock_def)

lemma ex_joined_members: "mt_byTx (w_member ex_joined) tx \<longleftrightarrow> tx = ''t1''"
  by (simp add: ex_joined_def joining)

lemma ex_joined_events: "seen_event ex_joined k \<longleftrightarrow> k = Key AggBatch EvBatchOpen ex_uid"
  by (simp add: ex_joined_def joining NewOutboxStore_def ex_uid_def)

lemma ex_settled_batch:
  "\<exists>b. batch_map (w_batch ex_settled) ex_uid = Some b \<and> b_Status b = BatchSettled \<and> b_NotionalUSD b = 100"
proof -
  have b: "batch_map (w_batch ex_joined) ex_uid = Some ex_joined_batch" "b_Status ex_joined_batch = BatchOpen"
    by (simp_all add: ex_joined_tables rowmap_def ex_joined_batch_def)
  have n: "100 = notional_of ex_uid (mt_rows (w_member ex_joined))" "(0::decimal) < 100"
    by (simp_all add: ex_joined_tables)
  have f: "order_map (w_order ex_joined) ex_uid = None" "seen_key ex_joined (agg_key ex_uid) = None"
    "seen_key ex_joined (hedge_key ex_uid) = None" "services_up ex_joined"
    by (simp_all add: ex_joined_tables agg_key_def hedge_key_def services_up_def NewOutside_def NewFake_def)
  have e: "\<not> seen_event ex_joined (Key AggBatch EvBatchClose ex_uid)"
    "\<not> seen_event ex_joined (Key AggFloat EvFloatAdjust ex_uid)"
    "\<not> seen_event ex_joined (Key AggAggregate EvAggregateExec ex_uid)"
    by (simp_all add: ex_joined_events Key_inject event_kinds_def event_names)
  from close_end_to_end(1) [OF b n f(1-3) e f(4) surjective_pairing [symmetric], of ex_dec ex_cfg ex_mar ex_unm ReasonManual]
  show ?thesis by (simp add: ex_settled_def CloseBatch_def)
qed

text \<open>The same event under a policy whose size threshold it reaches.\<close>

definition ex_small :: Config where
  "ex_small = ex_cfg\<lparr>BatchSizeThresholdUSD := 100\<rparr>"

definition ex_joined_small :: "unit service" where
  "ex_joined_small = handle (world_rt ex_dec) (app_consumer ex_small (dev_services ex_dec ex_mar ex_unm)) (ex_event ''t1'') ex_world"

lemma ex_joined_small_eq: "ex_joined_small = ex_joined"
  by (simp add: ex_joined_small_def ex_joined_def handle_def dev_components join_batch_def ex_event_def ex_small_def
      ex_cfg_def)

lemma ex_joined_small_tables:
  "w_batch ex_joined_small = [ex_joined_batch]" "notional_of ex_uid (mt_rows (w_member ex_joined_small)) = 100"
  "seen_key ex_joined_small = [''tx:t1'' \<mapsto> 1000 + 24 * hour]"
  by (simp_all add: ex_joined_small_eq ex_joined_tables)

lemma ex_joined_small_reachable: "reachable ex_dec ex_mar ex_unm ex_small ex_joined_small"
proof -
  have "service_run ex_dec ex_mar ex_unm ex_small (NewAll ex_clock ex_ids (NewOutside ())) ex_joined_small"
    unfolding ex_joined_small_def ex_world_def by (rule r_into_rtranclp, rule step_event)
  then show ?thesis unfolding reachable_def using ex_ids_inj ex_clock_pos by blast
qed

lemma ex_joined_pending: "length (pending_keys ex_joined) = 1"
  by (simp add: ex_joined_def joining NewOutboxStore_def)

section \<open>Failures\<close>

text \<open>An entry the ledger has accepted and refuses to accept again.\<close>

definition ex_entry :: OutboxEntry where
  "ex_entry = \<lparr>oe_ID = ''e1'', oe_Aggregate = AggBatch, oe_EventType = EvBatchOpen, oe_DedupKey = ''k'',
     oe_Payload = [], oe_CreatedAt = 1, oe_EmittedAt = 0\<rparr>"

definition ex_blocked :: "unit service" where
  "ex_blocked = ex_world\<lparr>w_ext := (NewOutside ())\<lparr>x_ledger := (NewFake ())\<lparr>fk_dupErr := True, fk_keys := (\<lambda>k. k = ''k'')\<rparr>\<rparr>\<rparr>"

text \<open>A service whose clock stands still, and one whose breaker has just tripped.\<close>

definition ex_stopped :: "unit service" where
  "ex_stopped = ex_open\<lparr>w_clock := (\<lambda>_. 1000), w_batch := [ex_batch\<lparr>b_Status := BatchClosed\<rparr>]\<rparr>"

definition ex_wait :: "duration \<Rightarrow> unit \<Rightarrow> error option \<times> unit" where
  "ex_wait d n = (None, n)"

definition ex_tripped :: "unit service" where
  "ex_tripped = ex_world\<lparr>w_ext := (NewOutside ())\<lparr>x_liq_cb := \<lparr>cb_failures = 5, cb_failThreshold = 5,
     cb_resetTimeout = 30 * second, cb_openedAt = 1000, cb_open = True, cb_halfOpen = False\<rparr>\<rparr>\<rparr>"

section \<open>Requests\<close>

definition ex_parsers :: Parsers where
  "ex_parsers = \<lparr>uuid_Parse = (\<lambda>x. Some (tl x)),
     decode_funding = (\<lambda>b. if b = [] then None
       else Some \<lparr>fb_WalletID = ''hot'', fb_Asset = ''BTC'', fb_Amount = 5, fb_SourceVenue = ''kraken''\<rparr>)\<rparr>"

definition ex_close :: Request where
  "ex_close = \<lparr>rq_Method = ''POST'', rq_Path = ''/v1/batches/'' @ ''0'' @ ''/close'', rq_Query = (\<lambda>_. []), rq_Body = []\<rparr>"

definition ex_fund :: Request where
  "ex_fund = \<lparr>rq_Method = ''POST'', rq_Path = ''/v1/funding-requests'', rq_Query = (\<lambda>_. []), rq_Body = ''{}''\<rparr>"

definition ex_list :: Request where
  "ex_list = \<lparr>rq_Method = ''GET'', rq_Path = ''/v1/batches'', rq_Query = (\<lambda>_. []), rq_Body = []\<rparr>"

text \<open>A demand of 25 against a target of 10.\<close>

definition ex_demand :: "unit service" where
  "ex_demand = ex_world\<lparr>w_proj := ObserveSample 1000 ''BTC'' 25 1000 (NewModel (5 * minute))\<rparr>"

definition ex_target :: Config where
  "ex_target = ex_cfg\<lparr>HotWalletTargets := [''BTC'' \<mapsto> 10]\<rparr>"

text \<open>A position of seven dollars that is due.\<close>

definition ex_position :: FloatPosition where
  "ex_position = \<lparr>fp_ID = ''f1'', fp_FiatCurrency = ''USD'', fp_ShortFiatAmount = 7, fp_LongCryptoAmount = 1,
     fp_LongCryptoAsset = ''BTC'', fp_SettlementDueAt = 500, fp_Settled = False, fp_BatchID = ''b1'',
     fp_CreatedAt = 100, fp_UpdatedAt = 100\<rparr>"

text \<open>An order to hedge, with fx-hedging down.\<close>

definition ex_order :: AggregateOrder where
  "ex_order = (parent_order ex_batch)\<lparr>o_ID := ''o1''\<rparr>"

definition ex_unhedged :: "unit service" where
  "ex_unhedged = ex_world\<lparr>w_order := [ex_order],
     w_ext := (NewOutside ())\<lparr>x_fx := (NewFake dev_hedge)\<lparr>fk_err := Some ClientErrUnavailable\<rparr>\<rparr>\<rparr>"

section \<open>Transport and start-up\<close>

text \<open>A service that answers every request with a conflict.\<close>

definition ex_http :: "unit HTTP" where
  "ex_http = \<lparr>http_parse = (\<lambda>_. None), http_do = (\<lambda>_ _ _ _ s. (Inr (409, ''dup''), s)),
     http_json = (\<lambda>_. []), http_dec = (\<lambda>_. [])\<rparr>"

definition ex_prod :: Config where
  "ex_prod = ex_cfg\<lparr>DBURL := ''pg'', LiquidityRoutingURL := ''l'', FXHedgingURL := ''f'', WalletMgmtURL := ''w'',
     LedgerURL := ''g''\<rparr>"

section \<open>Postgres\<close>

text \<open>The open batch with its member, opened on a whole microsecond, in memory and in the tables.\<close>

definition ex_micro :: "unit service" where
  "ex_micro = ex_open\<lparr>w_batch := [ex_batch\<lparr>b_OpenedAt := 7000\<rparr>]\<rparr>"

definition ex_db :: PgDb where
  "ex_db = NewTables\<lparr>
     db_batches := [\<lparr>br_id = ''b1'', br_asset_pair = ''BTC/USD'', br_status = BatchOpen, br_notional_usd = 100,
       br_opened_at = 7, br_closed_at = None\<rparr>],
     db_members := [\<lparr>mr_id = ''m1'', mr_batch_id = ''b1'', mr_tx_id = ''t1'', mr_amount = 2, mr_asset = ''BTC'',
       mr_fiat_currency = ''USD'', mr_notional_usd = 100, mr_user_id = ''u'', mr_created_at = 0\<rparr>],
     db_floats := [\<lparr>fl_id = ''f1'', fl_fiat_currency = ''USD'', fl_short_fiat_amount = 7, fl_long_crypto_amount = 1,
       fl_long_crypto_asset = ''BTC'', fl_settlement_due_at = 0, fl_settled = False, fl_batch_id = ''b1'',
       fl_created_at = 0, fl_updated_at = 0\<rparr>]\<rparr>"

definition ex_pg :: pg_world where
  "ex_pg = \<lparr>g_clock = ex_clock, g_reads = 0, g_ids = ex_ids, g_idn = 0, g_metrics = [], g_idem = NewMem,
     g_server = int, g_nows = 0, g_trips = 0, g_db = ex_db\<rparr>"

lemmas ex_pg_defs = ex_pg_def ex_db_def NewTables_def

lemma ex_agree: "agree (pg_batches (g_db ex_pg)) (batch_map (w_batch ex_micro))"
  by (simp add: agree_def ex_pg_defs ex_micro_def ex_batch_def pg_batches_def rowmap_def scan_batch_def of_tstz_def same_batch_def)

text \<open>A network that loses the round trip \<open>n\<close>.\<close>

definition ex_lost :: "nat \<Rightarrow> nat \<Rightarrow> error option" where
  "ex_lost n k = (if k = n then Some (External ''timeout'') else None)"

section \<open>Migrations and the server\<close>

definition ex_migration :: Migration where
  "ex_migration = \<lparr>Version = ''0001'', Mig_Up = ''UP'', Mig_Down = ''DOWN''\<rparr>"

definition ex_migrations :: "Migration list" where
  "ex_migrations = [ex_migration, \<lparr>Version = ''0002'', Mig_Up = ''UP2'', Mig_Down = ''DOWN2''\<rparr>]"

definition ex_fresh :: migration_state where
  "ex_fresh = \<lparr>md_clock = ex_clock, md_reads = 0, md_trips = 0, md_versions = None, md_ran = []\<rparr>"

text \<open>A server told to stop while a request is in flight.\<close>

definition ex_stopping :: Server where
  "ex_stopping = Shutdown_begin ((Run_start (NewServer DbOpen))\<lparr>srv_requests := 1\<rparr>)"

lemma ex_stopping_reach: "server_reach DbOpen ex_stopping"
proof -
  have s1: "server_step (NewServer DbOpen) (Run_start (NewServer DbOpen))"
    by (rule server_step.run) (simp add: NewServer_def)
  have s2: "server_step (Run_start (NewServer DbOpen)) ((Run_start (NewServer DbOpen))\<lparr>srv_requests := 1\<rparr>)"
    using server_step.accept [of "Run_start (NewServer DbOpen)"] by (simp add: Run_start_def startLoops_def NewServer_def)
  have s3: "server_step ((Run_start (NewServer DbOpen))\<lparr>srv_requests := 1\<rparr>) ex_stopping"
    unfolding ex_stopping_def by (rule server_step.signal) (simp add: Run_start_def)
  show ?thesis
    by (rule converse_rtranclp_into_rtranclp [of server_step, OF s1],
        rule converse_rtranclp_into_rtranclp [of server_step, OF s2], rule r_into_rtranclp [of server_step, OF s3])
qed

text \<open>Its run: the deadline passes, the loops return, the database is closed.\<close>

definition ex_left :: "phase \<Rightarrow> loop list \<Rightarrow> Server" where
  "ex_left p ls = \<lparr>srv_http = Closed, srv_requests = 1, srv_cancel = False, srv_ctx_done = True, srv_loops = ls,
     srv_db = DbOpen, srv_phase = p\<rparr>"

definition ex_down :: Server where
  "ex_down = Shutdown_end (Some CtxErr) (ex_left (Waiting (Some CtxErr)) [])"

lemma ex_stopping_left: "ex_stopping = ex_left Draining [SchedulerLoop, ConsumerLoop, DispatcherLoop, SweeperLoop]"
  by (simp add: ex_stopping_def ex_left_def Shutdown_begin_def Run_start_def startLoops_def NewServer_def Let_def)

lemma ex_left_returns: "server_step (ex_left p (l # ls)) (ex_left p ls)"
  using server_step.loop_returns [of "ex_left p (l # ls)" l] by (simp add: ex_left_def)

lemma ex_left_waits: "server_step (ex_left Draining ls) (ex_left (Waiting (Some CtxErr)) ls)"
  using server_step.deadline [of "ex_left Draining ls"] by (simp add: ex_left_def)

lemma ex_down_step: "server_step (ex_left (Waiting (Some CtxErr)) []) ex_down"
  unfolding ex_down_def by (rule server_step.waited) (simp_all add: ex_left_def)

lemma ex_down_run: "(server_step ^^ 6) ex_stopping ex_down"
proof -
  have six: "6 = Suc (Suc (Suc (Suc (Suc (Suc 0)))))" by simp
  show ?thesis
    unfolding six ex_stopping_left
    by (rule relpowp_Suc_I2 [of server_step, OF ex_left_waits], (rule relpowp_Suc_I2 [of server_step, OF ex_left_returns])+,
        rule relpowp_Suc_I2 [of server_step, OF ex_down_step], rule relpowp_0_I)
qed

section \<open>A Kafka feed\<close>

text \<open>Two messages of which the first has been received.\<close>

definition ex_decode :: "string \<Rightarrow> string + TxCompletedEvent" where
  "ex_decode m = (if m = [] then Inl ''eof'' else Inr (ex_event m))"

definition ex_messages :: "(string + string) list" where
  "ex_messages = [Inr ''a'', Inr [], Inr ''b'']"

definition ex_feed :: KafkaFeed where
  "ex_feed = (kafka_subscribe ex_messages)\<lparr>kf_source := [Inr [], Inr ''b''], kf_received := [ex_event ''a'']\<rparr>"

lemma ex_feed_reach: "(feed_step ex_decode)\<^sup>*\<^sup>* (kafka_subscribe ex_messages) ex_feed"
proof -
  let ?s0 = "kafka_subscribe ex_messages"
  let ?s1 = "?s0\<lparr>kf_at := Reading\<rparr>"
  let ?s2 = "?s0\<lparr>kf_source := [Inr [], Inr ''b''], kf_at := Holding (ex_event ''a'')\<rparr>"
  let ?s3 = "?s0\<lparr>kf_source := [Inr [], Inr ''b''], kf_ch := \<lparr>ch_buf = [ex_event ''a''], ch_closed = False\<rparr>\<rparr>"
  have s1: "feed_step ex_decode ?s0 ?s1"
    by (rule feed_step.check_on) (simp_all add: kafka_subscribe_def)
  have s2: "feed_step ex_decode ?s1 ?s2"
    using feed_step.read_event [of ?s1 "''a''" "[Inr [], Inr ''b'']" ex_decode "ex_event ''a''"]
    by (simp add: kafka_subscribe_def ex_messages_def ex_decode_def)
  have s3: "feed_step ex_decode ?s2 ?s3"
    using feed_step.send [of ?s2 "ex_event ''a''" ex_decode] by (simp add: kafka_subscribe_def chan_cap_def)
  have s4: "feed_step ex_decode ?s3 ex_feed"
    using feed_step.receive [of ?s3 "ex_event ''a''" "[]" ex_decode] by (simp add: kafka_subscribe_def ex_feed_def)
  show ?thesis
    by (rule converse_rtranclp_into_rtranclp [of "feed_step ex_decode", OF s1],
        rule converse_rtranclp_into_rtranclp [of "feed_step ex_decode", OF s2],
        rule converse_rtranclp_into_rtranclp [of "feed_step ex_decode", OF s3],
        rule r_into_rtranclp [of "feed_step ex_decode", OF s4])
qed

section \<open>The live feed\<close>

text \<open>
  The consumer is running and an event has been pushed to it: in one run it is handled, in the
  other the context is canceled first and \<open>Run\<close> returns with the event in its channel.
\<close>

abbreviation "ex_consumer \<equiv> app_consumer ex_cfg (dev_services ex_dec ex_mar ex_unm)"

definition ex_listening :: "unit service LiveFeed" where
  "ex_listening = Consumer_Run ex_consumer (NewLive ex_world)"

definition ex_pushed :: "unit service LiveFeed" where
  "ex_pushed = ex_listening\<lparr>lf_pushes := [(ex_event ''t1'', [])], lf_sent := [ex_event ''t1''],
     lf_bus := (lf_bus ex_listening)\<lparr>bus_chan := (\<lambda>_. \<lparr>ch_buf = [], ch_closed = False\<rparr>)(0 :=
       \<lparr>ch_buf = [ex_event ''t1''], ch_closed = False\<rparr>)\<rparr>\<rparr>"

definition ex_heard :: "unit service LiveFeed" where
  "ex_heard = ex_pushed\<lparr>lf_bus := lf_bus ex_listening, lf_state := ex_joined, lf_handled := [ex_event ''t1'']\<rparr>"

definition ex_unheard :: "unit service LiveFeed" where
  "ex_unheard = Consumer_leave ex_consumer (Some CtxErr) (ex_pushed\<lparr>lf_done := True\<rparr>)"

lemmas ex_live_defs = ex_listening_def Consumer_Run_def NewLive_def Subscribe_def NewInMemory_def Let_def
  dev_components ex_cfg_def

lemma ex_pushed_run: "service_feed ex_dec ex_mar ex_unm ex_cfg (NewLive ex_world) ex_pushed"
proof -
  let ?step = "live_step (world_rt ex_dec) ex_consumer (other_step ex_dec ex_mar ex_unm ex_cfg)"
  let ?begun = "ex_listening\<lparr>lf_pushes := [(ex_event ''t1'', [0])]\<rparr>"
  have s1: "?step (NewLive ex_world) ex_listening"
    unfolding ex_listening_def by (rule live_step.runs) (simp add: NewLive_def)
  have s2: "?step ex_listening ?begun"
    using live_step.push_begins [of "world_rt ex_dec" ex_consumer "other_step ex_dec ex_mar ex_unm ex_cfg" ex_listening
        "ex_event ''t1''" "''tx.completed''"]
    by (simp add: ex_live_defs push_snapshot_def)
  have s3: "?step ?begun ex_pushed"
    using live_step.push_sends [of ?begun "[]" "ex_event ''t1''" 0 "[]" "[]" _ "world_rt ex_dec" ex_consumer
        "other_step ex_dec ex_mar ex_unm ex_cfg"]
    by (simp add: ex_live_defs ex_pushed_def send_next_def try_send_def chan_cap_def)
  show ?thesis
    by (rule converse_rtranclp_into_rtranclp [of ?step, OF s1], rule converse_rtranclp_into_rtranclp [of ?step, OF s2],
        rule r_into_rtranclp [of ?step, OF s3])
qed

lemma ex_heard_run: "service_feed ex_dec ex_mar ex_unm ex_cfg (NewLive ex_world) ex_heard"
proof -
  have "live_step (world_rt ex_dec) ex_consumer (other_step ex_dec ex_mar ex_unm ex_cfg) ex_pushed ex_heard"
    using live_step.receives [of ex_pushed "ex_event ''t1''" "lf_bus ex_listening" "world_rt ex_dec" ex_consumer
        "other_step ex_dec ex_mar ex_unm ex_cfg"]
    by (simp add: ex_live_defs ex_pushed_def ex_heard_def ex_joined_def recv_def fun_upd_idem)
  with ex_pushed_run show ?thesis by (rule rtranclp.rtrancl_into_rtrancl)
qed

lemma ex_unheard_run: "service_feed ex_dec ex_mar ex_unm ex_cfg (NewLive ex_world) ex_unheard"
proof -
  let ?step = "live_step (world_rt ex_dec) ex_consumer (other_step ex_dec ex_mar ex_unm ex_cfg)"
  have s1: "?step ex_pushed (ex_pushed\<lparr>lf_done := True\<rparr>)" by (rule live_step.cancels)
  have s2: "?step (ex_pushed\<lparr>lf_done := True\<rparr>) ex_unheard"
    unfolding ex_unheard_def by (rule live_step.leaves) (simp_all add: ex_live_defs ex_pushed_def)
  show ?thesis
    by (rule rtranclp.rtrancl_into_rtrancl [of ?step, OF rtranclp.rtrancl_into_rtrancl [of ?step, OF ex_pushed_run s1] s2])
qed

section \<open>Two transactions\<close>

text \<open>Two sessions that close the open batch of \<open>ex_db\<close>; the first has won.\<close>

definition ex_jobs :: "nat \<Rightarrow> job" where
  "ex_jobs i = MoveJob ''b1'' BatchOpen BatchClosed None"

lemma ex_one_won:
  "\<exists>s b. tx_run ex_jobs (NewSessions ex_db) s \<and> se_at s 0 = Moved (Inr (Some b)) \<and> se_at s 1 = Moved (Inr None) \<and>
    b_Status b = BatchClosed"
proof -
  define r where "r = hd (db_batches ex_db)"
  define b where "b = moved_batch BatchClosed None 9 r"
  define s0 where "s0 = NewSessions ex_db"
  define s1 where "s1 = goes 0 (ToSelect 9) s0"
  define s2 where "s2 = goes 1 (ToSelect 9) s1"
  define s3 where "s3 = goes 0 (ToUpdate b 9000) (s2\<lparr>se_lock := (se_lock s2)(''b1'' \<mapsto> 0)\<rparr>)"
  define s4 where "s4 = goes 0 (ToCommitMove b 9000) s3"
  define s5 where "s5 = goes 0 (Moved (Inr (Some (b\<lparr>b_ClosedAt := 9000\<rparr>))))
    (unlock 0 (s4\<lparr>se_db := write_batch ''b1'' b 9000 (se_db s4)\<rparr>))"
  define s6 where "s6 = goes 1 (Moved (Inr None)) s5"
  note defs = s6_def s5_def s4_def s3_def s2_def s1_def s0_def NewSessions_def unlock_def
  have r: "rowmap br_id (db_batches ex_db) ''b1'' = Some r" "br_status r = BatchOpen" "br_closed_at r = None"
    by (simp_all add: r_def ex_db_def NewTables_def rowmap_def)
  have b: "b_Status b = BatchClosed" by (simp add: b_def moved_batch_def Let_def)
  have t1: "tx_step ex_jobs s0 s1" unfolding s1_def by (rule tx_step.begins) (simp add: defs)
  have t2: "tx_step ex_jobs s1 s2" unfolding s2_def by (rule tx_step.begins) (simp add: defs)
  have t3: "tx_step ex_jobs s2 s3"
    unfolding s3_def b_def
    by (rule tx_step.move_locks [where frm = BatchOpen and to = BatchClosed and mu = None])
      (use r in \<open>simp_all add: defs ex_jobs_def closing_instant_def scan_batch_def of_tstz_def coalesce_def\<close>)
  have t4: "tx_step ex_jobs s3 s4" unfolding s4_def by (rule tx_step.move_updates) (simp add: defs)
  have t5: "tx_step ex_jobs s4 s5"
    unfolding s5_def by (rule tx_step.move_commits) (simp_all add: defs ex_jobs_def)
  have "\<exists>r'. rowmap br_id (db_batches (se_db s5)) ''b1'' = Some r' \<and> br_status r' = BatchClosed"
    using status_write [of "''b1''" b 9000 ex_db "''b1''"] r b by (auto simp: defs row_status_def)
  then obtain r' where r': "rowmap br_id (db_batches (se_db s5)) ''b1'' = Some r'" "br_status r' = BatchClosed" by blast
  have t6: "tx_step ex_jobs s5 s6"
    unfolding s6_def by (rule tx_step.move_refused [where r = r' and frm = BatchOpen and to = BatchClosed and mu = None]) (use r' in \<open>simp_all add: defs ex_jobs_def\<close>)
  have "tx_run ex_jobs s0 s1" using t1 by (rule r_into_rtranclp)
  note run = tx_run_step [OF tx_run_step [OF tx_run_step [OF tx_run_step [OF tx_run_step [OF this t2] t3] t4] t5] t6]
  have "se_at s6 0 = Moved (Inr (Some (b\<lparr>b_ClosedAt := 9000\<rparr>)))" "se_at s6 1 = Moved (Inr None)" by (simp_all add: defs)
  with run b show ?thesis unfolding s0_def by (intro exI [of _ s6] exI [of _ "b\<lparr>b_ClosedAt := 9000\<rparr>"]) simp
qed

section \<open>A ticker\<close>

text \<open>The scheduler's loop a quarter of its interval after it was entered: one tick.\<close>

definition ex_ticked :: "unit service Loop" where
  "ex_ticked = (Scheduler_Run ex_cfg (NewLoop 0 ex_open))\<lparr>lo_now := 7500000000, lo_next := 15000000000,
     lo_state := tick (world_rt ex_dec) (app_scheduler (world_rt ex_dec) ex_cfg (dev_services ex_dec ex_mar ex_unm)) ex_open,
     lo_bodies := 1\<rparr>"

lemma ex_tick_period: "tick_period ex_cfg = 7500000000"
  using tick_period_quarter [of ex_cfg] by (simp add: ex_cfg_def)

lemma ex_ticked_run:
  "loop_run (tick (world_rt ex_dec) (app_scheduler (world_rt ex_dec) ex_cfg (dev_services ex_dec ex_mar ex_unm)))
     (Scheduler_Run ex_cfg (NewLoop 0 ex_open)) ex_ticked"
proof -
  let ?body = "tick (world_rt ex_dec) (app_scheduler (world_rt ex_dec) ex_cfg (dev_services ex_dec ex_mar ex_unm))"
  let ?l0 = "Scheduler_Run ex_cfg (NewLoop 0 ex_open)"
  let ?l1 = "?l0\<lparr>lo_now := 7500000000\<rparr>"
  let ?l2 = "?l1\<lparr>lo_tick := True, lo_next := 15000000000\<rparr>"
  note start = Scheduler_Run_def NewTicker_def NewLoop_def ex_tick_period
  have s1: "loop_step ?body ?l0 ?l1"
    using loop_step.passes [of 7500000000 ?body ?l0] by (simp add: start)
  have s2: "loop_step ?body ?l1 ?l2"
    using loop_step.fires [of ?l1 ?body] by (simp add: start)
  have s3: "loop_step ?body ?l2 ex_ticked"
    using loop_step.ticks [of ?l2 ?body] by (simp add: start ex_ticked_def)
  show ?thesis
    by (rule converse_rtranclp_into_rtranclp [of "loop_step ?body", OF s1],
        rule converse_rtranclp_into_rtranclp [of "loop_step ?body", OF s2], rule r_into_rtranclp [of "loop_step ?body", OF s3])
qed

end
