(* ===== verification/Spec2Isabelle.thy ===== *)
theory Spec2Isabelle
  imports Examples
begin

text \<open>
  Treasury orchestration: a Go service that gathers completed on-ramp transactions into batches
  per asset pair, closes a batch by size or age, buys the crypto of a closed batch as one parent
  order, hedges the fiat exposure, tracks the float between the fiat and the crypto leg, funds hot
  wallets, and records every step for the ledger and the audit log. This development models the
  Go code under \<^verbatim>\<open>src/internal\<close> and \<^verbatim>\<open>src/cmd\<close> and proves what makes it correct.

  \<^bold>\<open>How the program flows, and where it is modelled.\<close>
  \<^item> An event arrives on the bus (\<open>Eventbus\<close>, \<open>Kafka_Feed\<close>), is deduplicated in the key store
    (\<open>Idempotency\<close>) and joins the open batch of its pair (\<open>Consumer\<close>, \<open>handle\<close>). The goroutine
    that does so, with the pushes it receives and its stop, is \<open>Live_Feed\<close>.
  \<^item> The scheduler's tick closes due batches (\<open>Scheduler\<close>, its loop and the other loops over a
    ticker in \<open>Loops\<close>); the close hook of
    \<^verbatim>\<open>app.go\<close> records the event (\<open>Emitter\<close>) and submits the batch (\<open>Executor\<close>);
    the fill hook adds the float (\<open>Float_Tracker\<close>), hedges (\<open>Hedger\<close>) and settles the batch.
    The hooks and the choices of \<open>Build\<close> are in \<open>App\<close>.
  \<^item> The downstream services are reached through \<open>Clients\<close>, wrapped by retry and circuit
    breaker (\<open>Retry\<close>); \<open>Downstream\<close> is their state in development mode.
  \<^item> Funding requests, rebalancing jobs and top-ups are in \<open>Funding\<close>, the demand they read in
    \<open>Projection\<close>, the configuration in \<open>Config\<close>.
  \<^item> The REST routes are in \<open>Api\<close>, with the parsing of their time stamps in \<open>Gotime\<close>; what
    they promise is in \<open>Routes\<close>.
  \<^item> The stores have one interface each (\<open>Store\<close>, records of operations). They are
    implemented in memory (\<open>Mem_Batch\<close>, \<open>Mem_Member\<close>, \<open>Mem_Order\<close>, \<open>Mem_Float\<close>,
    \<open>Mem_Funding\<close>, \<open>Mem_Outbox\<close>) and on Postgres (\<open>Pg_Conn\<close>, \<open>Pg_Batch\<close>,
    \<open>Pg_Stores\<close>; \<open>Pg_Sessions\<close> has the transactions of the batches statement by statement, any
    number at once; \<open>Pg_Sql\<close> the text of a query that is put together at run time). \<open>Migrations\<close> is the schema's runner, \<open>Startup\<close> the two commands,
    \<^verbatim>\<open>postgres.Open\<close> and telemetry, \<open>Server\<close> the life of the process.

  \<^bold>\<open>How the code is represented.\<close> A Go struct is a record whose fields have a prefix, a string
  enumeration a datatype, an interface a record of operations over the state. The state is passed
  explicitly: \<open>'x world\<close> (\<open>World\<close>) for the in-memory service, with the downstream services in
  its last field (\<open>'n service\<close>), \<open>pg_world\<close> (\<open>Pg_World\<close>) for Postgres. An error is a value of
  the datatype \<open>error\<close>, a result a sum. Clocks and identifiers are streams read in order, so that
  two readings differ and a property may ask that identifiers do not repeat. A decimal is an exact
  rational; a duration is an integer with the wrap-around of \<open>int64\<close> written out where the code
  multiplies. A pointer to a stored row is a function that reads the row in a later state.
  SQL statements are the functions on the tables their text denotes, each round trip may fail as a
  parameter decides, and a transaction that does not commit changes no table.

  \<^bold>\<open>Interfaces.\<close> Each is a locale with the laws its clients rely on, and is interpreted on the
  stores of the model: \<open>batch_store\<close> and \<open>membership_reader\<close>/\<open>membership_store\<close> both in
  memory and on Postgres, so the scheduler's lemmas (\<open>scheduler_env\<close>) hold on either;
  \<open>idem_slot\<close> for the key store; the environments of the executor, the retry loop, the emitter and
  the funding manager; \<open>pg_conn\<close>/\<open>pg_live\<close> for a connection that may fail or does not;
  \<open>migration_db\<close> for what the migration runner is given.

  \<^bold>\<open>What the lemmas show.\<close>
  \<^item> Each store: lookups after every operation, the invariant it keeps, errors on every branch.
  \<^item> \<open>Pipeline\<close>, \<open>Stages\<close>: the close of a batch from end to end, first when every service
    answers, then in every case. \<open>Lifecycle\<close>: the service as a step relation, and the
    invariant \<open>books\<close> of its reachable states, which reconciles batches, orders, requests, float
    and events. \<open>Cadence\<close>: a tick closes what is due. \<open>Race\<close>: what a close between the two
    store calls of the consumer does. \<open>Live_Feed\<close>: under every interleaving the memberships are
    the events handled, and what a stop leaves behind. \<open>Loops\<close>: a loop over a ticker is a number
    of bodies, at most one per period.
  \<^item> \<open>Pg_Facts\<close>: Postgres closes a batch as memory does, what is opened is read back, sweeps.
    \<open>Pg_Ops\<close>: every sequence of writes keeps the constraints of the schema, and a failed write
    changes nothing. \<open>Pg_Consumer\<close>: the consumer on Postgres, with and without lost round trips.
    \<open>Pg_Sessions\<close>: the row lock lets one of several concurrent transitions win; two concurrent
    opens can each insert a batch. \<open>Migration_Db\<close>: the runner under its contract, and interrupted runs.
  \<^item> The properties below span components; \<open>Examples\<close> holds the inputs they are evaluated on.

  \<^bold>\<open>Bounds.\<close> Every definition is total and no fuel is used: the recursion is structural, or
  on a number that is divided by ten. The loops over tickers and the consumer's loop are step
  relations, so a run may go on forever or stop anywhere; the functions that count ticks
  (\<open>Run_ticks\<close> and its like) and fold over events (\<open>Run_events\<close>) are shown to be what such runs do.
  The retry loop recurses on the attempts left.

  \<^bold>\<open>Not modelled.\<close>
  \<^item> In the step relation of \<open>Lifecycle\<close> a handler, a tick or a route is one step. Interleaving
    inside a handler is modelled where it matters: \<open>Push\<close> against the consumer and its stop
    (\<open>Live_Feed\<close>), the Kafka goroutine against the consumer (\<open>Kafka_Feed\<close>), the consumer against a
    close (\<open>Race\<close>), transactions against each other (\<open>Pg_Sessions\<close>, for the two that read before
    they write a batch; the other writes are run one after another), and the goroutines of the
    process at its shutdown (\<open>Server\<close>).
  \<^item> A context that is canceled inside a handler (the result of a wait and the fate of a round trip
    are parameters), log lines, request tracing, the rendering of metrics.
  \<^item> Libraries: the decoding of JSON, \<open>uuid.Parse\<close>, \<open>strconv.ParseFloat\<close>, the conversion of
    a float to a decimal, the Redis client, the Kafka reader and writer, the HTTP transport, pgx and
    the telemetry SDK are parameters. A constructor that only stores its dependencies is the record
    it fills.
\<close>

section \<open>The life of a batch\<close>

text \<open>
  C1. Closing an open batch in development mode carries it through its whole life: it is
  settled with the sum of its members as its notional, and its parent order is settled for the
  same notional, with the filled amount liquidity-routing reported and the notional
  fx-hedging reported hedged.
\<close>

theorem close_settles_the_batch:
  assumes "batch_map (w_batch w) uid = Some b" and "b_Status b = BatchOpen"
    and "n = notional_of uid (mt_rows (w_member w))" and "0 < n"
    and "order_map (w_order w) uid = None" and "seen_key w (agg_key uid) = None"
    and "seen_key w (hedge_key uid) = None" and "\<not> seen_event w (Key AggBatch EvBatchClose uid)"
    and "\<not> seen_event w (Key AggFloat EvFloatAdjust uid)"
    and "\<not> seen_event w (Key AggAggregate EvAggregateExec uid)" and "services_up w"
    and "(r, w') = close_batch (world_rt dec) (app_scheduler (world_rt dec) cfg (dev_services dec mar unm)) uid reason w"
  shows "\<exists>b' ord. batch_map (w_batch w') uid = Some b' \<and> b_Status b' = BatchSettled \<and> b_NotionalUSD b' = n \<and>
    order_map (w_order w') uid = Some ord \<and> o_Status ord = AggregateSettled \<and> o_NotionalUSD ord = n \<and>
    o_TotalFilled ord = fill_TotalFilled (fk_result (x_liq (w_ext w))) \<and>
    o_HedgedNotional ord = hr_HedgedNotional (fk_result (x_fx (w_ext w)))"
  using close_end_to_end(1,2) [OF assms] by blast

theorem close_settles_the_batch_witness:
  "\<exists>b' ord w'. w' = snd (close_batch (world_rt ex_dec) (app_scheduler (world_rt ex_dec) ex_cfg
      (dev_services ex_dec ex_mar ex_unm)) ''b1'' ReasonTime ex_open) \<and>
    batch_map (w_batch w') ''b1'' = Some b' \<and> b_Status b' = BatchSettled \<and> b_NotionalUSD b' = 100 \<and>
    order_map (w_order w') ''b1'' = Some ord \<and> o_TotalFilled ord = 1"
proof -
  have pos: "(0::decimal) < 100" by simp
  show ?thesis
    using close_settles_the_batch [OF ex_open_batch ex_open_fresh(1) pos ex_open_fresh(2,3,3,4,4,4,5)
        surjective_pairing [symmetric], of ex_dec ex_cfg ex_mar ex_unm ReasonTime]
    by (auto simp: ex_defs)
qed

text \<open>
  C2. The same close moves the capital exactly once: the float of the batch's currency grows
  by the notional and its crypto leg by the filled amount, no other currency changes, one
  request for the notional goes to liquidity-routing, and the outbox gains the three events
  of the close, the float adjustment and the execution, in this order.
\<close>

theorem close_moves_the_capital:
  assumes "batch_map (w_batch w) uid = Some b" and "b_Status b = BatchOpen"
    and "n = notional_of uid (mt_rows (w_member w))" and "0 < n"
    and "order_map (w_order w) uid = None" and "seen_key w (agg_key uid) = None"
    and "seen_key w (hedge_key uid) = None" and "\<not> seen_event w (Key AggBatch EvBatchClose uid)"
    and "\<not> seen_event w (Key AggFloat EvFloatAdjust uid)"
    and "\<not> seen_event w (Key AggAggregate EvAggregateExec uid)" and "services_up w"
    and "(r, w') = close_batch (world_rt dec) (app_scheduler (world_rt dec) cfg (dev_services dec mar unm)) uid reason w"
  shows "short_of c (w_float w') = short_of c (w_float w) + (if c = fiatOf (b_AssetPair b) then n else 0) \<and>
    long_of c (w_float w') = long_of c (w_float w) +
      (if c = fiatOf (b_AssetPair b) then fill_TotalFilled (fk_result (x_liq (w_ext w))) else 0) \<and>
    liq_calls w' = liq_calls w @
      [\<lparr>ao_AssetPair = b_AssetPair b, ao_Side = ''BUY'', ao_NotionalUSD = n, ao_TotalTarget = n\<rparr>] \<and>
    pending_keys w' = pending_keys w @ [Key AggBatch EvBatchClose uid, Key AggFloat EvFloatAdjust uid,
      Key AggAggregate EvAggregateExec uid]"
  using close_end_to_end(3-6) [OF assms] by blast

theorem close_moves_the_capital_witness:
  "\<exists>w'. w' = snd (close_batch (world_rt ex_dec) (app_scheduler (world_rt ex_dec) ex_cfg
      (dev_services ex_dec ex_mar ex_unm)) ''b1'' ReasonTime ex_open) \<and>
    short_of ''USD'' (w_float w') = 100 \<and> short_of ''EUR'' (w_float w') = 0 \<and> length (liq_calls w') = 1"
proof -
  have pos: "(0::decimal) < 100" by simp
  note t = close_moves_the_capital [OF ex_open_batch ex_open_fresh(1) pos ex_open_fresh(2,3,3,4,4,4,5)
        surjective_pairing [symmetric], of _ ex_dec ex_cfg ex_mar ex_unm ReasonTime]
  show ?thesis
    using t [of "''USD''"] t [of "''EUR''"] by (simp add: ex_defs fiatOf_def short_of_def)
qed

section \<open>The books in every reachable state\<close>



text \<open>
  C4. In every reachable state liquidity-routing has received exactly one request for each
  batch that was ever closed, for that batch's pair and notional, and no other request.
\<close>

theorem one_request_per_closed_batch:
  assumes "reachable dec mar unm cfg w"
  shows "mset (liq_calls w) = image_mset parent_request (closed_batches (w_batch w))"
  by (rule booksD(4) [OF reachable_books(1) [OF assms]])

theorem one_request_per_closed_batch_witness:
  "mset (liq_calls ex_settled) = image_mset parent_request (closed_batches (w_batch ex_settled)) \<and>
   closed_batches (w_batch ex_settled) \<noteq> {#}"
proof -
  obtain b where b: "batch_map (w_batch ex_settled) ex_uid = Some b" "b_Status b = BatchSettled"
    using ex_settled_batch by blast
  have "b \<in># closed_batches (w_batch ex_settled)" using rowmap_SomeD [OF b(1)] b(2) by (simp add: closed_set)
  then show ?thesis using one_request_per_closed_batch [OF ex_settled_reachable] by auto
qed





text \<open>
  C7. The audit trail is complete and says nothing else: in every reachable state the outbox
  has recorded, for a batch, its opening when it exists, its close when it was closed, and the
  float adjustment and the execution when it is settled, and never otherwise.
\<close>

theorem audit_trail_complete:
  assumes "reachable dec mar unm cfg w"
  shows "(seen_event w (Key AggBatch EvBatchOpen uid) \<longleftrightarrow> batch_map (w_batch w) uid \<noteq> None) \<and>
    (seen_event w (Key AggBatch EvBatchClose uid) \<longleftrightarrow> is_closed uid w) \<and>
    (seen_event w (Key AggFloat EvFloatAdjust uid) \<longleftrightarrow>
       (\<exists>b. batch_map (w_batch w) uid = Some b \<and> b_Status b = BatchSettled)) \<and>
    (seen_event w (Key AggAggregate EvAggregateExec uid) \<longleftrightarrow>
       (\<exists>b. batch_map (w_batch w) uid = Some b \<and> b_Status b = BatchSettled))"
proof -
  note bw = reachable_books(1) [OF assms]
  have dist: "distinct (map b_ID (w_batch w))"
    using core_invD(2) [OF booksD(1) [OF bw]] by (simp add: batch_inv_def)
  have "(\<exists>b \<in># closed_batches (w_batch w). b_ID b = uid \<and> b_Status b = BatchSettled) \<longleftrightarrow>
      (\<exists>b. batch_map (w_batch w) uid = Some b \<and> b_Status b = BatchSettled)"
    using rowmap_in_set [OF dist] by (fastforce simp: closed_set dest: rowmap_SomeD)
  then show ?thesis
    using booksD(7) [OF bw, of uid] is_closed_books [OF bw, of uid]
    by (simp add: batch_events_def rowmap_None)
qed

theorem audit_trail_complete_witness:
  "seen_event ex_settled (Key AggAggregate EvAggregateExec ex_uid) \<and>
   \<not> seen_event ex_joined (Key AggBatch EvBatchClose ex_uid)"
proof -
  have "\<not> is_closed ex_uid ex_joined"
    by (simp add: is_closed_def ex_joined_tables rowmap_def ex_joined_batch_def)
  then show ?thesis
    using audit_trail_complete [OF ex_settled_reachable, of ex_uid] audit_trail_complete [OF ex_joined_reachable, of ex_uid]
      ex_settled_batch by blast
qed

section \<open>The scheduler\<close>



text \<open>
  C9. The loop of the scheduler, whatever the order of time, ticks, cancellation and Stop: its state
  is that after some number of ticks, one after another, at most one per quarter of the configured
  interval; and it does not panic, provided the interval is positive and small enough for its
  conversion to nanoseconds to be exact.
\<close>

theorem scheduler_loop_is_ticks:
  assumes "loop_run (tick rt d) (Scheduler_Run cfg (NewLoop now s)) l"
    and "0 < BatchIntervalSeconds cfg" and "BatchIntervalSeconds cfg \<le> 9223372036"
  shows "\<exists>n. lo_state l = Run_ticks rt d n s \<and> int n * BatchIntervalSeconds cfg * second \<le> 4 * (lo_now l - now) \<and>
    lo_at l \<noteq> Crashed"
proof -
  obtain n where n: "lo_state l = Run_ticks rt d n s" "int n * tick_period cfg \<le> lo_now l - now" "lo_at l \<noteq> Crashed"
    using scheduler_loop [OF assms] by blast
  have "int n * BatchIntervalSeconds cfg * second = int n * (BatchIntervalSeconds cfg * second)" by simp
  also have "\<dots> = 4 * (int n * tick_period cfg)" using tick_period_quarter [OF assms(2,3)] by (metis mult.left_commute)
  also have "\<dots> \<le> 4 * (lo_now l - now)" using n(2) by simp
  finally have "int n * BatchIntervalSeconds cfg * second \<le> 4 * (lo_now l - now)" .
  with n show ?thesis by (intro exI [of _ n]) simp
qed

theorem scheduler_loop_is_ticks_witness:
  "\<exists>n. lo_state ex_ticked = Run_ticks (world_rt ex_dec) (app_scheduler (world_rt ex_dec) ex_cfg
     (dev_services ex_dec ex_mar ex_unm)) n ex_open \<and> n \<le> 1"
proof -
  have "0 < BatchIntervalSeconds ex_cfg" "BatchIntervalSeconds ex_cfg \<le> 9223372036" by (simp_all add: ex_cfg_def)
  from scheduler_loop_is_ticks [OF ex_ticked_run this] show ?thesis by (auto simp: ex_ticked_def ex_cfg_def)
qed

section \<open>The consumer\<close>

text \<open>
  C10. The memberships follow the feed: however the pushes of the HTTP handlers, the consumer and
  the service's other goroutines interleave, the memberships are the valid events among those the
  consumer has handled, each transaction at its first occurrence, with the amount, the notional, the
  user and the pair of the event. It handles what was put into its channel in that order, each event
  once, at most 1024 behind.
\<close>

theorem members_follow_the_feed:
  assumes "service_feed dec mar unm cfg (NewLive (NewAll clock ids (NewOutside net))) s"
    and "inj ids" and "\<forall>n. clock n \<noteq> zero_time"
  shows "map member_view (mt_rows (w_member (lf_state s))) = map event_view (accepted {} (lf_handled s)) \<and>
    prefix (lf_handled s) (lf_sent s) \<and> length (lf_sent s) \<le> length (lf_handled s) + 1024"
  using live_members(2) [OF assms] live_order(1,2) [OF assms(1)] by (simp add: chan_cap_def)

theorem members_follow_the_feed_witness:
  "map member_view (mt_rows (w_member (lf_state ex_heard))) = map event_view (accepted {} [ex_event ''t1''])"
  using members_follow_the_feed [OF ex_heard_run [unfolded ex_world_def] ex_ids_inj ex_clock_pos] by (simp add: ex_heard_def)

text \<open>
  C11. Once the consumer's Run has returned, nothing more is handled and nothing more is sent to its
  channel: an event that was sent and not handled, though its push answered 202, never becomes a
  membership, however long the service goes on.
\<close>

theorem shutdown_loses_the_buffer:
  assumes "service_feed dec mar unm cfg (NewLive (NewAll clock ids (NewOutside net))) s"
    and "inj ids" and "\<forall>n. clock n \<noteq> zero_time"
    and "lf_at s = Exited e" and "service_feed dec mar unm cfg s s'"
  shows "lf_handled s' = lf_handled s \<and> lf_sent s' = lf_sent s \<and>
    map member_view (mt_rows (w_member (lf_state s'))) = map event_view (accepted {} (lf_handled s))"
  using left_final [OF assms(5) live_run_inv [OF assms(1) live_inv_new] assms(4)]
    live_members(2) [OF rtranclp_trans [OF assms(1,5)] assms(2,3)] by simp

theorem shutdown_loses_the_buffer_witness:
  "lf_sent ex_unheard = [ex_event ''t1''] \<and> mt_rows (w_member (lf_state ex_unheard)) = []"
proof -
  have "lf_at ex_unheard = Exited (Some CtxErr)" by (simp add: ex_unheard_def Consumer_leave_def)
  from shutdown_loses_the_buffer [OF ex_unheard_run [unfolded ex_world_def] ex_ids_inj ex_clock_pos this rtranclp.rtrancl_refl]
  show ?thesis by (simp add: ex_unheard_def Consumer_leave_def ex_pushed_def ex_live_defs)
qed

text \<open>
  C12. The tables stay consistent and in agreement: identifiers are unique, at most one batch
  per pair is open, every membership belongs to a batch of its pair, and the notional stored
  on each batch is the sum over its members.
\<close>

theorem tables_agree:
  assumes "inj ids"
  shows "core_inv (Run_events (world_rt dec) (app_consumer cfg (dev_services dec mar unm)) evs (NewAll clock ids ext))"
proof -
  have c: "benign_chan None" by (simp add: benign_chan_def)
  show ?thesis
    using Run_events_core_inv [OF core_inv_new [OF assms] onBatchOpen_benign c] by (simp add: dev_components)
qed

theorem tables_agree_witness:
  "core_inv (Run_events (world_rt ex_dec) (app_consumer ex_cfg (dev_services ex_dec ex_mar ex_unm))
     [ex_event ''t1'', ex_event ''t1'', ex_event ''t2''] (NewAll ex_clock ex_ids (NewOutside ())))"
  by (rule tables_agree [OF ex_ids_inj])

text \<open>
  C13. The consumer takes the open batch of a pair and joins it in two calls to the stores. When
  the batch is closed between the two, the late member is in the batch and in its notional, but
  not in its parent order and not in the request to liquidity-routing, which stay at the notional
  without it.
\<close>

theorem late_member_is_not_ordered:
  assumes "reachable dec mar unm cfg w" and "(Inr b, w1) = OpenBatch (W_batch dec) pair w" and "b \<in> set (w_batch w)"
    and "w2 = snd (CloseBatch (world_rt dec) (app_scheduler (world_rt dec) cfg (dev_services dec mar unm)) (b_ID b) w1)"
    and "\<not> mt_byTx (w_member w) (ev_TxID ev)"
    and "w3 = join_found (world_rt dec) (app_consumer cfg (dev_services dec mar unm)) ev pair b w2"
    and "n = notional_of (b_ID b) (mt_rows (w_member w))"
  shows "\<exists>b3 ord r. batch_map (w_batch w3) (b_ID b) = Some b3 \<and> b_Status b3 \<noteq> BatchOpen \<and>
    b_NotionalUSD b3 = n + event_notional ev \<and>
    order_map (w_order w3) (b_ID b) = Some ord \<and> o_NotionalUSD ord = n \<and>
    liq_calls w3 = liq_calls w @ [r] \<and> ao_NotionalUSD r = n \<and>
    (\<exists>m \<in> set (mt_rows (w_member w3)). m_BatchID m = b_ID b \<and> m_TxID m = ev_TxID ev)"
  by (rule late_member [OF reachable_books(1) [OF assms(1)] assms(2-7)])

theorem late_member_is_not_ordered_witness:
  "\<exists>w3 b3 ord. batch_map (w_batch w3) ex_uid = Some b3 \<and> b_NotionalUSD b3 = 200 \<and>
    order_map (w_order w3) ex_uid = Some ord \<and> o_NotionalUSD ord = 100 \<and>
    w3 = join_found (world_rt ex_dec) (app_consumer ex_cfg (dev_services ex_dec ex_mar ex_unm)) (ex_event ''t2'')
      ''BTC/USD'' ex_joined_batch
      (snd (CloseBatch (world_rt ex_dec) (app_scheduler (world_rt ex_dec) ex_cfg (dev_services ex_dec ex_mar ex_unm)) ex_uid
        (snd (OpenBatch (W_batch ex_dec) ''BTC/USD'' ex_joined))))"
proof -
  have o: "(Inr ex_joined_batch, snd (OpenBatch (W_batch ex_dec) ''BTC/USD'' ex_joined)) = OpenBatch (W_batch ex_dec) ''BTC/USD'' ex_joined"
    by (simp add: W_simps Let_def mb_OpenBatch_def ex_joined_tables ex_joined_batch_def isOpenFor_def)
  have i: "b_ID ex_joined_batch = ex_uid" "ex_joined_batch \<in> set (w_batch ex_joined)"
    by (simp_all add: ex_joined_tables ex_joined_batch_def)
  have t: "\<not> mt_byTx (w_member ex_joined) (ev_TxID (ex_event ''t2''))"
    by (simp add: ex_joined_members ex_event_def)
  have e: "event_notional (ex_event ''t2'') = 100" by (simp add: event_notional_def ex_event_def)
  from late_member_is_not_ordered [OF ex_joined_reachable o i(2) refl t refl refl]
  show ?thesis unfolding i e ex_joined_tables(2) by auto
qed

section \<open>The outbox\<close>

text \<open>
  C14. Nothing recorded is lost: in every reachable state an entry of the outbox is still
  pending or has been accepted by both the ledger and the audit log, whatever failures the
  downstream services had on the way.
\<close>

theorem recorded_events_are_kept:
  assumes "reachable dec mar unm cfg w" and "seen_event w k"
  shows "k \<in> set (pending_keys w) \<or> in_ledger w k \<and> in_audit w k"
  using posted_seen [OF reachable_books(2) [OF assms(1)] assms(2)] by auto

theorem recorded_events_are_kept_witness:
  "Key AggBatch EvBatchOpen ex_uid \<in> set (pending_keys ex_joined) \<or>
   in_ledger ex_joined (Key AggBatch EvBatchOpen ex_uid) \<and> in_audit ex_joined (Key AggBatch EvBatchOpen ex_uid)"
  by (rule recorded_events_are_kept [OF ex_joined_reachable]) (simp add: ex_joined_events)

text \<open>
  C15. With both downstream services up, one pass of the dispatcher whose limit covers the
  pending entries empties the outbox and delivers every event recorded so far to the ledger
  and to the audit log.
\<close>

theorem dispatch_delivers_everything:
  assumes "reachable dec mar unm cfg w" and "both_up w" and "0 < limit"
    and "int (length (pending_keys w)) \<le> limit"
    and "(r, w') = Dispatch (world_rt dec) (app_emitter (dev_services dec mar unm)) limit w"
  shows "r = Inr (int (length (pending_keys w))) \<and> pending_keys w' = [] \<and>
    (\<forall>k. seen_event w k \<longrightarrow> in_ledger w' k \<and> in_audit w' k)"
proof -
  have p: "posted w" by (rule reachable_books(2) [OF assms(1)])
  then have ok: "outbox_ok w" by (simp add: posted_def)
  have d: "(r, w') = Dispatch (world_rt dec) (W_emit dec mar unm) limit w" using assms(5) by (simp add: dev_components)
  have up: "r = Inr (int (length (pending_keys w)))" "pending_keys w' = []"
    "\<forall>e \<in> set (filter is_pending (ot_rows (w_outbox w))). in_ledger w' (oe_DedupKey e) \<and> in_audit w' (oe_DedupKey e)"
    using Dispatch_up [OF ok assms(2,3) _ d] assms(4) by simp_all
  have keep: "in_ledger w k \<and> in_audit w k \<Longrightarrow> in_ledger w' k \<and> in_audit w' k" for k
    using wemit.Dispatch_delivers [OF ok assms(3) d] by (auto simp: wemit.delivered_def)
  have "in_ledger w' k \<and> in_audit w' k" if "seen_event w k" for k
    using posted_seen [OF p that] up(3) keep by blast
  with up(1,2) show ?thesis by blast
qed

theorem dispatch_delivers_everything_witness:
  "in_audit (snd (Dispatch (world_rt ex_dec) (app_emitter (dev_services ex_dec ex_mar ex_unm)) 100 ex_joined))
     (Key AggBatch EvBatchOpen ex_uid)"
proof -
  have up: "both_up ex_joined" by (simp add: both_up_def ex_joined_tables NewOutside_def NewFake_def)
  show ?thesis
    using dispatch_delivers_everything [OF ex_joined_reachable up _ _ surjective_pairing [symmetric], of 100]
      ex_joined_pending by (simp add: ex_joined_events)
qed

text \<open>
  C16. An entry that the ledger has accepted but the audit log has not is stuck when the ledger
  refuses repeated keys: every later attempt fails at the ledger, before the audit log, and
  leaves the outbox unchanged.
\<close>

theorem posted_entry_is_blocked:
  assumes "fk_dupErr (x_ledger (w_ext w))" and "in_ledger w (oe_DedupKey ent)"
    and "(ok, w') = dispatch_entry (world_rt dec) (app_emitter (dev_services dec mar unm)) ent w"
  shows "\<not> ok \<and> w_outbox w' = w_outbox w \<and> fk_calls (x_audit (w_ext w')) = fk_calls (x_audit (w_ext w))"
proof -
  have "(ok, w') = dispatch_entry (world_rt dec) (W_emit dec mar unm) ent w" using assms(3) by (simp add: dev_components)
  with assms(1,2) posted_entry_blocked [OF assms(1,2) this] show ?thesis
    by (auto simp: dispatch_entry_def post_ledger_world Let_def fake_call_def split: option.splits)
qed

theorem posted_entry_is_blocked_witness:
  "\<not> fst (dispatch_entry (world_rt ex_dec) (app_emitter (dev_services ex_dec ex_mar ex_unm)) ex_entry ex_blocked) \<and>
   w_outbox (snd (dispatch_entry (world_rt ex_dec) (app_emitter (dev_services ex_dec ex_mar ex_unm)) ex_entry ex_blocked))
     = w_outbox ex_blocked"
proof -
  have "fk_dupErr (x_ledger (w_ext ex_blocked))" "in_ledger ex_blocked (oe_DedupKey ex_entry)"
    by (simp_all add: ex_blocked_def ex_entry_def)
  from posted_entry_is_blocked [OF this surjective_pairing [symmetric]] show ?thesis by blast
qed

section \<open>Submission, retries and the breaker\<close>

text \<open>
  C17. However often a batch is submitted within a day, at most one request for it reaches
  liquidity-routing.
\<close>

theorem submit_sends_at_most_once:
  assumes "\<forall>n. T \<le> w_clock w n \<and> w_clock w n < T + 24 * hour"
    and "w' = Submit_times k (world_rt dec) (app_executor (world_rt dec) cfg (dev_services dec mar unm)) uid w"
  shows "liq_calls w' = liq_calls w \<or> (\<exists>b. liq_calls w' = liq_calls w @ [parent_request b])"
  using submit_at_most_once [OF onFill_ok assms(1)] assms(2) by (simp add: dev_components)

theorem submit_sends_at_most_once_witness:
  "let w' = Submit_times 3 (world_rt ex_dec) (app_executor (world_rt ex_dec) ex_cfg (dev_services ex_dec ex_mar ex_unm))
      ''b1'' ex_stopped
   in liq_calls w' = liq_calls ex_stopped \<or> (\<exists>b. liq_calls w' = liq_calls ex_stopped @ [parent_request b])"
  unfolding Let_def
  by (rule submit_sends_at_most_once [OF _ refl, of 1000]) (simp add: ex_stopped_def)

text \<open>
  C18. Over HTTP a resilient submission puts at most the configured number of requests on the wire
  (at least one), and they are the same request: the same URL, headers and body, with the
  idempotency key of the call, whatever the service and the network answer.
\<close>

theorem retries_are_identical:
  assumes "http_parse h (hc_baseURL c @ ''/v1/aggregate-orders'') = None"
    and "(r, w') = SubmitAggregate (ResilientLiquidity (world_rt dec) (net_wait (log_wait wt))
      (httpLiquidity (net_HTTP (log_HTTP h)) parse c) opts (Some liqBreaker)) q k w"
  shows "\<exists>n \<le> attempts_of opts. sent_over w' = sent_over w @ replicate n (aggregate_post h c q k)"
  by (rule http_retries [OF assms])

theorem retries_are_identical_witness:
  "\<exists>n \<le> 3. sent_over (snd (SubmitAggregate (ResilientLiquidity (world_rt ex_dec) (net_wait (log_wait ex_wait))
      (httpLiquidity (net_HTTP (log_HTTP ex_http)) Inl (NewHTTPLiquidity ''l'')) DefaultRetry (Some liqBreaker))
      (parent_request ex_batch) ''k'' (NewAll ex_clock ex_ids (NewOutside ((), []))))) =
    replicate n (aggregate_post ex_http (NewHTTPLiquidity ''l'') (parent_request ex_batch) ''k'')"
proof -
  have "http_parse ex_http (hc_baseURL (NewHTTPLiquidity ''l'') @ ''/v1/aggregate-orders'') = None"
    by (simp add: ex_http_def)
  from retries_are_identical [OF this prod.collapse, where dec = ex_dec and wt = ex_wait and parse = Inl and
      opts = DefaultRetry and q = "parent_request ex_batch" and k = "''k''" and w = "NewAll ex_clock ex_ids (NewOutside ((), []))"]
  show ?thesis by (simp add: attempts_of_def DefaultRetry_def NewAll_def NewOutside_def)
qed

text \<open>
  C19. The circuit breaker is a count of consecutive failures: after any sequence of permitted
  calls, successes and failures it lets a call through exactly when fewer than the threshold
  failed since the last success, or the timeout has passed since the last failure.
\<close>

theorem breaker_counts_failures:
  assumes "0 < n"
  shows "fst (Allow now (cb_run (NewCircuitBreaker n d) evs)) = spec_allows n d (spec_run evs) now"
  by (rule breaker_refines [OF assms])

theorem breaker_counts_failures_witness:
  "fst (Allow 10 (cb_run (NewCircuitBreaker 2 5) [CallFailed 1, CallFailed 7])) = False"
  using breaker_counts_failures [of 2 10 5 "[CallFailed 1, CallFailed 7]"]
  by (simp add: spec_run_def spec_allows_def Since_def)

section \<open>The REST interface\<close>



text \<open>
  C21. The close endpoint answers 404 for an unknown batch and 409 for one that is not open,
  both without effect; it closes an open batch and answers 200 with the closed batch, which
  carries the sum of its members as its notional.
\<close>

theorem close_endpoint:
  assumes "reachable dec mar unm cfg w" and "rq_Path r = ''/v1/batches/'' @ x @ ''/close''"
    and "CHR ''/'' \<notin> set x" and "x \<notin> {[], ''.'', ''..''}" and "uuid_Parse ps x = Some uid"
    and "rq_Method r = ''POST''" and "(r', w') = dev_serve dec mar unm cfg ps r w"
  shows "case batch_map (w_batch w) uid of
      None \<Rightarrow> rs_Code r' = StatusNotFound \<and> w' = w
    | Some b \<Rightarrow>
        if b_Status b = BatchOpen
        then rs_Code r' = StatusOK \<and> is_closed uid w' \<and>
          (\<exists>b'. rs_Body r' = BodyBatch b' \<and> b_ID b' = uid \<and> b_Status b' = BatchClosed \<and>
            b_NotionalUSD b' = notional_of uid (mt_rows (w_member w)))
        else rs_Code r' = StatusConflict \<and> w' = w"
proof -
  let ?c = "CloseBatch (world_rt dec) (app_scheduler (world_rt dec) cfg (dev_services dec mar unm)) uid w"
  have eq: "(r', w') = handleBatchClose (world_rt dec) (app_api (world_rt dec) cfg (dev_services dec mar unm)) r uid w"
    using close_route [OF assms(2-5)] assms(7) by simp
  have w': "w' = snd ?c"
    using close_effect [of dec cfg "dev_services dec mar unm" r uid w] assms(6) by (simp add: eq [symmetric])
  have r': "r' = (case fst ?c of Inl e \<Rightarrow> if e = ErrNotOpen then writeError StatusConflict (error_str e)
        else if IsNotFound e then writeError StatusNotFound ''batch not found''
        else writeError StatusInternalServerError (error_str e) | Inr b \<Rightarrow> writeJSON StatusOK (BodyBatch b))"
    using assms(6) arg_cong [OF eq, of fst]
    by (simp add: handleBatchClose_def app_api_def case_prod_beta split: sum.split)
  note ret = close_returns [of dec cfg mar unm uid w]
  have same: "w' = w" if "\<And>b. batch_map (w_batch w) uid = Some b \<Longrightarrow> b_Status b \<noteq> BatchOpen"
    using close_refused [OF that] w' by (simp add: CloseBatch_def)
  show ?thesis
  proof (cases "batch_map (w_batch w) uid")
    case None
    then show ?thesis using ret same r' by (simp add: writeError_def writeJSON_def IsNotFound_def)
  next
    case (Some b)
    show ?thesis
    proof (cases "b_Status b = BatchOpen")
      case False
      then show ?thesis using ret same r' Some by (simp add: writeError_def writeJSON_def)
    next
      case True
      have "is_closed uid w'"
        using close_closes [OF reachable_books(1) [OF assms(1)] Some True] w' by (simp add: CloseBatch_def)
      then show ?thesis
        using ret r' Some True rowmap_SomeD [OF Some]
        by (simp add: writeJSON_def transitioned_def set_notional_def Let_def)
    qed
  qed
qed

theorem close_endpoint_witness:
  "rs_Code (fst (dev_serve ex_dec ex_mar ex_unm ex_cfg ex_parsers ex_close ex_settled)) = 409 \<and>
   rs_Code (fst (dev_serve ex_dec ex_mar ex_unm ex_cfg ex_parsers ex_close ex_joined)) = 200"
proof -
  have u: "uuid_Parse ex_parsers ''0'' = Some ex_uid" by (simp add: ex_parsers_def ex_uid_def ex_ids_def)
  have p: "rq_Path ex_close = ''/v1/batches/'' @ ''0'' @ ''/close''" "rq_Method ex_close = ''POST''"
    by (simp_all add: ex_close_def)
  obtain b where b: "batch_map (w_batch ex_settled) ex_uid = Some b" "b_Status b = BatchSettled"
    using ex_settled_batch by blast
  have j: "batch_map (w_batch ex_joined) ex_uid = Some ex_joined_batch" "b_Status ex_joined_batch = BatchOpen"
    by (simp_all add: ex_joined_tables rowmap_def ex_joined_batch_def)
  show ?thesis
    using close_endpoint [OF ex_settled_reachable p(1) _ _ u p(2) surjective_pairing [symmetric]]
      close_endpoint [OF ex_joined_reachable p(1) _ _ u p(2) surjective_pairing [symmetric]] b j by simp
qed

text \<open>
  C22. The funding endpoint answers 400 for a malformed body or an amount that is not positive
  and 403 for one above the ceiling, and then no request is recorded and nothing is moved;
  otherwise it answers 201, one new request for the amount is recorded, completed or rejected
  as the wallet service decides, and the wallet service is asked for exactly this move.
\<close>

theorem funding_endpoint:
  assumes "rq_Path r = ''/v1/funding-requests''" and "rq_Method r = ''POST''"
    and "w_ids w (w_idn w) \<notin> fr_ID ` set (w_funding w)"
    and "(r', w') = dev_serve dec mar unm cfg ps r w"
  shows "case decode_funding ps (rq_Body r) of
      None \<Rightarrow> rs_Code r' = StatusBadRequest \<and> w' = w
    | Some q \<Rightarrow>
        if fb_Amount q \<le> 0 \<or> MaxFundingAmount < fb_Amount q
        then rs_Code r' = (if fb_Amount q \<le> 0 then StatusBadRequest else StatusForbidden) \<and>
          w_funding w' = w_funding w \<and> fund_moves w' = fund_moves w
        else rs_Code r' = StatusCreated \<and>
          (\<exists>uid fr. funding_map (w_funding w) uid = None \<and> funding_map (w_funding w') = (funding_map (w_funding w))(uid \<mapsto> fr) \<and>
            fr_Amount fr = fb_Amount q \<and> fr_Asset fr = fb_Asset q \<and>
            fr_Status fr = (if fund_up w then FundingCompleted else FundingRejected)) \<and>
          fund_moves w' = fund_moves w @ [\<lparr>fm_WalletID = fb_WalletID q, fm_Asset = fb_Asset q,
            fm_Amount = fb_Amount q, fm_Source = fb_SourceVenue q\<rparr>]"
proof (cases "decode_funding ps (rq_Body r)")
  case None
  then show ?thesis
    using funding_route [OF assms(1), of dec mar unm cfg ps w] assms(2,4)
    by (simp add: handleFunding_def writeError_def writeJSON_def)
next
  case (Some q)
  have eq: "(r', w') = handleFunding (world_rt dec) ps (app_manager cfg (dev_services dec mar unm)) r w"
    using funding_route [OF assms(1)] assms(4) by simp
  show ?thesis
  proof (cases "fb_Amount q \<le> 0 \<or> MaxFundingAmount < fb_Amount q")
    case True
    then show ?thesis
      using funding_refused [OF assms(2) Some True, of "world_rt dec" "app_manager cfg (dev_services dec mar unm)" w] Some eq
      by (auto simp: writeError_def writeJSON_def split: if_splits)
  next
    case False
    then have "0 < fb_Amount q" "fb_Amount q \<le> MaxFundingAmount" by simp_all
    from wappmanager.create_dispatches [OF _ this, of dec w cfg mar unm "fb_WalletID q" "fb_Asset q" "fb_SourceVenue q"]
    obtain p uid t t' s' where c: "CreateFundingRequest (world_rt dec) (app_manager cfg (dev_services dec mar unm))
        (fb_WalletID q) (fb_Asset q) (fb_Amount q) (fb_SourceVenue q) w = ((Some p, None), s')"
      "funding_map (w_funding w) uid = None" "funding_map (w_funding s') = (funding_map (w_funding w))(uid \<mapsto>
        funding_status t' (if fund_up w then FundingCompleted else FundingRejected)
          (new_funding uid t (funding_request (fb_WalletID q) (fb_Asset q) (fb_Amount q) (fb_SourceVenue q))))"
      "fund_moves s' = fund_moves w @ [\<lparr>fm_WalletID = fb_WalletID q, fm_Asset = fb_Asset q,
        fm_Amount = fb_Amount q, fm_Source = fb_SourceVenue q\<rparr>]"
      using assms(3) by (auto simp: world_rt_simps)
    have "w' = s'" "rs_Code r' = StatusCreated"
      using eq assms(2) Some c(1) by (simp_all add: handleFunding_def writeJSON_def)
    define fr where "fr = funding_status t' (if fund_up w then FundingCompleted else FundingRejected)
      (new_funding uid t (funding_request (fb_WalletID q) (fb_Asset q) (fb_Amount q) (fb_SourceVenue q)))"
    have fr: "fr_Amount fr = fb_Amount q" "fr_Asset fr = fb_Asset q"
      "fr_Status fr = (if fund_up w then FundingCompleted else FundingRejected)"
      by (simp_all add: fr_def funding_status_def new_funding_def funding_request_def Let_def)
    have "funding_map (w_funding w') = (funding_map (w_funding w))(uid \<mapsto> fr)"
      using c(3) \<open>w' = s'\<close> by (simp add: fr_def)
    with c(2) fr have "\<exists>uid fr. funding_map (w_funding w) uid = None \<and>
        funding_map (w_funding w') = (funding_map (w_funding w))(uid \<mapsto> fr) \<and> fr_Amount fr = fb_Amount q \<and>
        fr_Asset fr = fb_Asset q \<and> fr_Status fr = (if fund_up w then FundingCompleted else FundingRejected)"
      by blast
    then show ?thesis using c(4) False Some \<open>w' = s'\<close> \<open>rs_Code r' = StatusCreated\<close> by simp
  qed
qed

theorem funding_endpoint_witness:
  "rs_Code (fst (dev_serve ex_dec ex_mar ex_unm ex_cfg ex_parsers ex_fund ex_open)) = 201"
  using funding_endpoint [OF _ _ _ surjective_pairing [symmetric], where w = ex_open and dec = ex_dec and mar = ex_mar and unm = ex_unm
        and cfg = ex_cfg and ps = ex_parsers and r = ex_fund]
  by (simp add: ex_fund_def ex_parsers_def ex_defs MaxFundingAmount_def)

section \<open>Float, hedging and funding\<close>

text \<open>
  C23. A fill always succeeds, and then the gauge of its currency shows the whole position and
  an alarm is raised for each configured bound the position breaks, the upper before the
  lower; nothing else is measured.
\<close>

theorem fill_raises_alarms:
  assumes "(e, w') = float_OnAggregateFill (world_rt dec) (app_float cfg (dev_services dec mar unm)) b ord fiat asset w"
  shows "e = None \<and> w_metrics w' = w_metrics w @ FloatUSD fiat (short_of fiat (w_float w')) #
    map (FloatBreach fiat) (breaches dec cfg (short_of fiat (w_float w')))"
proof -
  let ?p = "fill_position cfg (w_clock w (w_reads w)) b (ord (w\<lparr>w_reads := Suc (w_reads w)\<rparr>)) fiat asset"
  define w1 where "w1 = snd (AddFloat (W_float dec) ?p (w\<lparr>w_reads := Suc (w_reads w)\<rparr>))"
  define w2 where "w2 = onAdjust (dev_services dec mar unm) fiat (o_NotionalUSD (ord w1)) (b_ID b) w1"
  have m: "w_metrics w2 = w_metrics w" by (simp add: w2_def w1_def onAdjust_def app_event_dev W_simps Let_def)
  have "(e, w') = (None, enforceBounds (world_rt dec) (app_float cfg (dev_services dec mar unm)) fiat w2)"
    unfolding assms w2_def w1_def
    by (simp add: float_OnAggregateFill_def dev_components W_float_simps Let_def)
  then show ?thesis using m by (auto simp: dev_components enforceBounds_quiet)
qed

theorem fill_raises_alarms_witness:
  "FloatBreach ''USD'' ''max'' \<in> set (w_metrics (snd (float_OnAggregateFill (world_rt ex_dec)
     (app_float ex_cfg (dev_services ex_dec ex_mar ex_unm)) ex_batch (\<lambda>_. parent_order (ex_batch\<lparr>b_NotionalUSD := 500\<rparr>)) ''USD'' ''BTC'' ex_world)))"
proof -
  let ?r = "float_OnAggregateFill (world_rt ex_dec)
     (app_float ex_cfg (dev_services ex_dec ex_mar ex_unm)) ex_batch (\<lambda>_. parent_order (ex_batch\<lparr>b_NotionalUSD := 500\<rparr>)) ''USD'' ''BTC'' ex_world"
  have "short_of ''USD'' (w_float (snd ?r)) = 500"
    by (simp add: float_OnAggregateFill_def dev_components W_float_simps Let_def enforceBounds_quiet onAdjust_def
        app_event_dev mf_AddFloat_def ex_world_def NewAll_def fill_position_def parent_order_def short_of_def)
  then show ?thesis
    using fill_raises_alarms [OF surjective_pairing [symmetric], where w = ex_world and dec = ex_dec and cfg = ex_cfg
        and mar = ex_mar and unm = ex_unm and b = ex_batch and fiat = "''USD''" and asset = "''BTC''"
        and ord = "\<lambda>_. parent_order (ex_batch\<lparr>b_NotionalUSD := 500\<rparr>)"]
    by (simp add: breaches_def ex_cfg_def ex_dec_def)
qed

text \<open>
  C24. A sweep settles every position that was due when it looked and returns how many they
  were. It does not change the amounts reported for any currency.
\<close>

theorem sweep_settles_matured:
  assumes "distinct (map fp_ID (w_float w))" and "now = w_clock w (w_reads w)"
    and "(r, w') = SweepMatured (world_rt dec) (app_float cfg (dev_services dec mar unm)) w"
  shows "r = Inr (int (length (filter (isMatured now) (w_float w)))) \<and>
    filter (isMatured now) (w_float w') = [] \<and> short_of c (w_float w') = short_of c (w_float w)"
  using sweep_world [OF assms(1) _ assms(2)] assms(3) by (simp add: dev_components)

theorem sweep_settles_matured_witness:
  "\<exists>w'. SweepMatured (world_rt ex_dec) (app_float ex_cfg (dev_services ex_dec ex_mar ex_unm))
      (ex_world\<lparr>w_float := [ex_position]\<rparr>) = (Inr 1, w') \<and> short_of ''USD'' (w_float w') = 7"
proof -
  let ?w = "ex_world\<lparr>w_float := [ex_position]\<rparr>"
  have d: "distinct (map fp_ID (w_float ?w))" by simp
  show ?thesis
    using sweep_settles_matured [OF d refl surjective_pairing [symmetric], where dec = ex_dec and cfg = ex_cfg
        and mar = ex_mar and unm = ex_unm and c = "''USD''"]
    by (intro exI [of _ "snd (SweepMatured (world_rt ex_dec) (app_float ex_cfg (dev_services ex_dec ex_mar ex_unm)) ?w)"])
       (simp add: prod_eq_iff ex_position_def ex_defs isMatured_def IsZero_def short_of_def)
qed





section \<open>Policy, transport and start-up\<close>

text \<open>
  C27. The Kafka feed hands the consumer the decodable messages in their order, none twice and none
  left out, however the reading goroutine, the consumer and the cancellation interleave. As long as
  the goroutine runs, what was received, what is buffered, what it holds and what it has yet to
  read make up the whole feed.
\<close>

theorem kafka_feed_in_order:
  assumes "(feed_step decode)\<^sup>*\<^sup>* (kafka_subscribe msgs) s"
  shows "prefix (kf_received s) (kafka_forward decode msgs) \<and>
    (kf_at s \<notin> {Gone, Panicked} \<longrightarrow>
      kf_received s @ ch_buf (kf_ch s) @ in_hand (kf_at s) @ kafka_forward decode (kf_source s) = kafka_forward decode msgs)"
  using feed_in_order [OF assms] by blast

theorem kafka_feed_in_order_witness:
  "(feed_step ex_decode)\<^sup>*\<^sup>* (kafka_subscribe ex_messages) ex_feed \<and>
   prefix [ex_event ''a''] (kafka_forward ex_decode ex_messages)"
  using kafka_feed_in_order [OF ex_feed_reach] ex_feed_reach by (simp add: ex_feed_def)



section \<open>Postgres\<close>

text \<open>
  C29. The scheduler closes a batch on Postgres as it does in memory. From tables that agree up to
  the closing instants, with the same notional of the batch's members, both closes return the same
  error or the same batch, and the tables agree again.
\<close>

theorem postgres_closes_as_memory:
  fixes v :: pg_world and w :: "'x world"
  assumes "agree (pg_batches (g_db v)) (batch_map (w_batch w))" and "member_inv (w_member w)"
    and "notional_of uid (map scan_member (db_members (g_db v))) = notional_of uid (mt_rows (w_member w))"
    and "(r, v') = close_batch (pg_rt dec) (Pg_sched cfg dec jsonb ttl None) uid reason v"
    and "(r', w') = close_batch (world_rt dec) (W_sched cfg dec ttl None) uid reason w"
  shows "rel_sum (=) same_batch r r' \<and> agree (pg_batches (g_db v')) (batch_map (w_batch w'))"
  by (rule close_agrees [OF assms])

theorem postgres_closes_as_memory_witness:
  "rel_sum (=) same_batch
    (fst (close_batch (pg_rt ex_dec) (Pg_sched ex_cfg ex_dec Some 30 None) ''b1'' ReasonManual ex_pg))
    (fst (close_batch (world_rt ex_dec) (W_sched ex_cfg ex_dec 30 None) ''b1'' ReasonManual ex_micro))"
proof -
  have m: "member_inv (w_member ex_micro)"
    by (simp add: ex_micro_def ex_defs member_inv_def)
  have n: "notional_of ''b1'' (map scan_member (db_members (g_db ex_pg))) = notional_of ''b1'' (mt_rows (w_member ex_micro))"
    by (simp add: ex_micro_def ex_defs ex_pg_defs scan_member_def notional_of_def)
  from postgres_closes_as_memory [OF ex_agree m n prod.collapse prod.collapse, of ex_dec ex_cfg Some 30 ReasonManual]
  show ?thesis by blast
qed

text \<open>
  C30. The consumer leaves the same memberships on Postgres as in memory: from empty tables, with no
  round trip lost, any stream of events gives the same members in the same order, with the same
  amount, notional, user and pair, although the two stores generate other identifiers.
\<close>

theorem postgres_members_as_memory:
  assumes "inj (g_ids v)" and "g_db v = NewTables" and "g_idem v = NewMem"
  shows "map (member_view \<circ> scan_member) (db_members (g_db (Run_events (pg_rt dec)
      (app_consumer cfg (on_postgres dec (NewDB (pool dec no_faults jsonb)) S)) evs v))) =
    map member_view (mt_rows (w_member (Run_events (world_rt dec)
      (app_consumer cfg (dev_services dec mar unm)) evs (NewAll clock ids ext))))"
  using run_live [OF pg_ok_new(1) [OF assms]] unfolding members_from_empty
  by (simp add: pg_ok_new(2,3) [OF assms]) (simp add: pg_views_def)

theorem postgres_members_as_memory_witness:
  "\<forall>S. map (member_view \<circ> scan_member) (db_members (g_db (Run_events (pg_rt ex_dec)
      (app_consumer ex_cfg (on_postgres ex_dec (NewDB (pool ex_dec no_faults Some)) S)) [ex_event ''t1'', ex_event ''t1'', ex_event ''t2'']
      (ex_pg\<lparr>g_db := NewTables\<rparr>)))) = [event_view (ex_event ''t1''), event_view (ex_event ''t2'')]"
proof
  fix S
  have "inj (g_ids (ex_pg\<lparr>g_db := NewTables\<rparr>))" using ex_ids_inj by (simp add: ex_pg_def)
  from postgres_members_as_memory [OF this, where dec = ex_dec and cfg = ex_cfg and jsonb = Some and S = S and
      evs = "[ex_event ''t1'', ex_event ''t1'', ex_event ''t2'']" and mar = ex_mar and unm = ex_unm and clock = ex_clock
      and ids = ex_ids and ext = "NewOutside ()"]
  show "map (member_view \<circ> scan_member) (db_members (g_db (Run_events (pg_rt ex_dec)
      (app_consumer ex_cfg (on_postgres ex_dec (NewDB (pool ex_dec no_faults Some)) S)) [ex_event ''t1'', ex_event ''t1'', ex_event ''t2'']
      (ex_pg\<lparr>g_db := NewTables\<rparr>)))) = [event_view (ex_event ''t1''), event_view (ex_event ''t2'')]"
    unfolding members_from_empty by (simp add: ex_pg_def valid_event_def ex_event_def)
qed


text \<open>
  C32. An event whose handling failed is lost: once an event has been handled, whatever became of
  it, its transaction is claimed for a day, and no redelivery within that day changes a table,
  even if the network has recovered.
\<close>

theorem failed_event_is_lost:
  assumes "valid_event ev" and "ms_seen (g_idem v) (''tx:'' @ ev_TxID ev) = None"
    and "\<forall>n. T \<le> g_clock v n \<and> g_clock v n < T + 24 * hour"
    and "v' = handle (pg_rt dec) (app_consumer cfg (on_postgres dec (NewDB (pool dec faults jsonb)) S)) ev v"
    and "\<forall>ev' \<in> set evs. valid_event ev' \<and> ev_TxID ev' = ev_TxID ev"
  shows "g_db (Run_events (pg_rt dec) (app_consumer cfg (on_postgres dec (NewDB (pool dec faults' jsonb)) S)) evs v') = g_db v'"
  by (rule redelivered_pg [OF assms])

theorem failed_event_is_lost_witness:
  "\<forall>S. g_db (Run_events (pg_rt ex_dec) (app_consumer ex_cfg (on_postgres ex_dec (NewDB (pool ex_dec no_faults Some)) S))
      [ex_event ''t9'', ex_event ''t9''] (handle (pg_rt ex_dec) (app_consumer ex_cfg (on_postgres ex_dec (NewDB (pool ex_dec (ex_lost 0) Some)) S)) (ex_event ''t9'') (ex_pg\<lparr>g_clock := (\<lambda>_. 1000)\<rparr>))) = ex_db"
proof
  fix S :: "pg_world Services"
  let ?v' = "handle (pg_rt ex_dec) (app_consumer ex_cfg (on_postgres ex_dec (NewDB (pool ex_dec (ex_lost 0) Some)) S))
    (ex_event ''t9'') (ex_pg\<lparr>g_clock := (\<lambda>_. 1000)\<rparr>)"
  have "g_db ?v' = ex_db"
    by (simp add: handle_def ex_event_def memIdem_def ms_CheckAndMark_def ex_pg_def NewMem_def pgMember_def
        pg_ExistsByTxID_def query_def stmt_def ex_lost_def Let_def)
  moreover have "g_db (Run_events (pg_rt ex_dec) (app_consumer ex_cfg (on_postgres ex_dec (NewDB (pool ex_dec no_faults Some)) S))
      [ex_event ''t9'', ex_event ''t9''] ?v') = g_db ?v'"
    by (rule failed_event_is_lost [OF _ _ _ refl, where T = 1000]) (simp_all add: valid_event_def ex_event_def ex_pg_def NewMem_def)
  ultimately show "g_db (Run_events (pg_rt ex_dec) (app_consumer ex_cfg (on_postgres ex_dec (NewDB (pool ex_dec no_faults Some)) S))
      [ex_event ''t9'', ex_event ''t9''] ?v') = ex_db" by simp
qed







text \<open>
  C36. Two transactions that open a batch for one pair at the same time can each insert one: both
  return a batch of their own, and the table has two open batches of the pair.
\<close>

theorem concurrent_opens_split_the_pair:
  assumes "i \<noteq> j" and "jobs i = OpenJob p" and "jobs j = OpenJob p" and "select_open p db = None"
    and "u \<notin> br_id ` set (db_batches db)" and "v \<notin> br_id ` set (db_batches db)" and "u \<noteq> v"
  shows "\<exists>s b b'. tx_run jobs (NewSessions db) s \<and> se_at s i = Opened (Inr b) \<and> se_at s j = Opened (Inr b') \<and>
    b_ID b = u \<and> b_ID b' = v \<and>
    map br_id (filter (\<lambda>r. br_asset_pair r = p \<and> br_status r = BatchOpen) (db_batches (se_db s))) = [u, v]"
proof -
  have none: "filter (\<lambda>r. br_asset_pair r = p \<and> br_status r = BatchOpen) (db_batches db) = []"
    using assms(4) by (auto simp: select_open_def find_None_iff filter_empty_conv)
  obtain s now now' where s: "tx_run jobs (NewSessions db) s"
      "se_at s i = Opened (Inr (open_result (new_row u p now)))" "se_at s j = Opened (Inr (open_result (new_row v p now')))"
      "db_batches (se_db s) = db_batches db @ [new_row u p now, new_row v p now']"
    using two_opens [OF assms] by blast
  have "b_ID (open_result (new_row x p t)) = x" for x t by (simp add: open_result_def scan_batch_def new_row_def)
  moreover have "map br_id (filter (\<lambda>r. br_asset_pair r = p \<and> br_status r = BatchOpen) (db_batches (se_db s))) = [u, v]"
    using none by (simp add: s(4) new_row_def)
  ultimately show ?thesis
    using s(1-3) by (intro exI [of _ s] exI [of _ "open_result (new_row u p now)"] exI [of _ "open_result (new_row v p now')"]) simp
qed

theorem concurrent_opens_split_the_pair_witness:
  "\<exists>s. tx_run (\<lambda>_. OpenJob ''ETH/USD'') (NewSessions ex_db) s \<and>
    map br_id (filter (\<lambda>r. br_asset_pair r = ''ETH/USD'' \<and> br_status r = BatchOpen) (db_batches (se_db s))) = [''b2'', ''b3'']"
  using concurrent_opens_split_the_pair [of 0 1 "\<lambda>_. OpenJob ''ETH/USD''" "''ETH/USD''" ex_db "''b2''" "''b3''"]
  by (fastforce simp: select_open_def ex_db_def NewTables_def)

text \<open>
  C37. A sweep on Postgres. In a database without the function uuid_nil, as the migrations leave
  it, every sweep fails and settles nothing. With the function, a sweep settles every position due
  and pays it out: what the currency reports short falls by what was due, and nothing is due
  afterwards.
\<close>

theorem sweep_on_postgres:
  assumes "distinct (map fl_id (db_floats (g_db w)))" and "now = g_clock w (g_reads w)"
    and "(r, w') = SweepMatured (pg_rt dec) (Pg_float cfg dec jsonb) w"
  shows "(\<not> db_uuid_nil (g_db w) \<longrightarrow> r = Inl undefined_function \<and> g_db w' = g_db w) \<and>
    (db_uuid_nil (g_db w) \<longrightarrow>
      r = Inr (int (length (filter (pg_matured now) (db_floats (g_db w))))) \<and>
      filter (pg_matured now) (db_floats (g_db w')) = [] \<and>
      pg_short c (g_db w') = pg_short c (g_db w) -
        sum_list (map fl_short_fiat_amount (filter (pg_matured now) (of_currency c (g_db w)))))"
  using sweep_pg [OF assms] by blast

theorem sweep_on_postgres_witness:
  "fst (SweepMatured (pg_rt ex_dec) (Pg_float ex_cfg ex_dec Some) ex_pg) = Inl undefined_function"
proof -
  have d: "distinct (map fl_id (db_floats (g_db ex_pg)))" by (simp add: ex_pg_defs)
  have n: "\<not> db_uuid_nil (g_db ex_pg)" by (simp add: ex_pg_defs)
  from sweep_on_postgres [OF d refl prod.collapse, of ex_dec ex_cfg Some] n show ?thesis by blast
qed

section \<open>Migrations\<close>

text \<open>
  C38. The embedded files and the migrations are the same thing: writing migrations out as files
  and reading the directory back gives them unchanged exactly when they are in the order of their
  versions, each version once and with both scripts.
\<close>

theorem migrations_read_back:
  "All (Inr (files_of ms)) = Inr ms \<longleftrightarrow>
   sorted (map Version ms) \<and> distinct (map Version ms) \<and> (\<forall>m \<in> set ms. Mig_Up m \<noteq> [] \<and> Mig_Down m \<noteq> [])"
  using All_files All_spec(1,2,4) [of "files_of ms" ms] by blast

theorem migrations_read_back_witness:
  "All (Inr (files_of ex_migrations)) = Inr ex_migrations"
proof -
  have "sorted (map Version ex_migrations)" "distinct (map Version ex_migrations)"
    "\<forall>m \<in> set ex_migrations. Mig_Up m \<noteq> [] \<and> Mig_Down m \<noteq> []"
    by (simp_all add: ex_migrations_def ex_migration_def)
  then show ?thesis using migrations_read_back [of ex_migrations] by blast
qed

text \<open>
  C39. A migration that was interrupted is completed by the next run. Whatever failed in the first
  run, it has recorded no version but its own migrations'; and a run in which nothing fails then
  executes exactly the scripts of the versions not yet recorded, in order, and leaves every version
  recorded.
\<close>

theorem interrupted_migration_resumes:
  assumes "All dir = Inr migs" and "\<forall>m \<in> set migs. names_own writes m"
    and "(e, s1) = RunnerWithQuery_Up (md_rt dec) dir (md_runner faults creates writes) s"
    and "(e', s2) = RunnerWithQuery_Up (md_rt dec) dir (md_runner (\<lambda>_. None) creates writes) s1"
  shows "recorded_or_none s \<subseteq> recorded_or_none s1 \<and> recorded_or_none s1 \<subseteq> recorded_or_none s \<union> Version ` set migs \<and>
    e' = None \<and> recorded_or_none s2 = recorded_or_none s \<union> Version ` set migs \<and>
    md_ran s2 = md_ran s1 @ map Mig_Up (filter (\<lambda>m. Version m \<notin> recorded_or_none s1) migs)"
proof -
  note grow = Up_grows [OF assms(1,2) assms(3) [symmetric]]
  obtain s' where s': "RunnerWithQuery_Up (md_rt dec) dir (md_runner (\<lambda>_. None) creates writes) s1 = (None, s')"
      "md_recorded s' = Some (recorded_or_none s1 \<union> Version ` set migs)"
      "md_ran s' = md_ran s1 @ map Mig_Up (filter (\<lambda>m. Version m \<notin> recorded_or_none s1) migs)"
    using Up_completes [OF assms(1,2)] by blast
  have eq: "e' = None" "s2 = s'" using assms(4) s'(1) by simp_all
  have "recorded_or_none s2 = recorded_or_none s1 \<union> Version ` set migs" by (simp only: eq s'(2) option.case)
  then show ?thesis using grow eq s'(3) by auto
qed

theorem interrupted_migration_resumes_witness:
  "recorded_or_none (snd (RunnerWithQuery_Up (md_rt ex_dec) (Inr (files_of [ex_migration]))
     (md_runner (\<lambda>_. None) (\<lambda>q. q = ''UP'') (own_writes ex_migration))
     (snd (RunnerWithQuery_Up (md_rt ex_dec) (Inr (files_of [ex_migration]))
       (md_runner (ex_lost 3) (\<lambda>q. q = ''UP'') (own_writes ex_migration)) ex_fresh)))) = {''0001''}"
proof -
  have all: "All (Inr (files_of [ex_migration])) = Inr [ex_migration]"
    by (rule All_files) (simp_all add: ex_migration_def)
  have own: "\<forall>m \<in> set [ex_migration]. names_own (own_writes ex_migration) m"
    by (simp add: ex_migration_def names_own_def own_writes_def bookkeeping_def create_versions_def
        insert_version_def delete_version_def)
  from interrupted_migration_resumes [OF all own prod.collapse prod.collapse, where dec = ex_dec and faults = "ex_lost 3" and creates = "\<lambda>q. q = ''UP''" and s = ex_fresh]
  show ?thesis by (simp add: ex_fresh_def ex_migration_def)
qed

section \<open>The process\<close>

text \<open>
  C40. A shutdown ends. From a server that has begun to shut down, however its goroutines
  interleave, every run is at most as long as the loops and requests that are left and two steps
  more; and where no step is possible Run has returned, every loop with it, and the database is
  not left open. No loop ever runs on a closed database; a request only after the five seconds of
  the shutdown have passed, which Run then returns as its error.
\<close>

theorem shutdown_terminates:
  assumes "server_reach db s" and "db \<noteq> DbClosed"
  shows "(srv_phase s = Draining \<and> (server_step ^^ n) s s' \<longrightarrow>
      n \<le> length (srv_loops s) + srv_requests s + 2 \<and>
      ((\<nexists>s''. server_step s' s'') \<longrightarrow> (\<exists>e. srv_phase s' = Returned e \<and> srv_loops s' = [] \<and> srv_db s' \<noteq> DbOpen))) \<and>
    (srv_db s = DbClosed \<longrightarrow> srv_loops s = [] \<and> (0 < srv_requests s \<longrightarrow> srv_phase s = Returned (Some CtxErr)))"
proof -
  have "srv_db s = DbClosed \<longrightarrow> srv_loops s = [] \<and> (0 < srv_requests s \<longrightarrow> srv_phase s = Returned (Some CtxErr))"
    using reach_phase_ok [OF assms] by (cases "srv_phase s") auto
  then show ?thesis using shutdown_ends [OF assms] by blast
qed

theorem shutdown_terminates_witness:
  "(server_step ^^ 6) ex_stopping ex_down \<and> srv_loops ex_down = [] \<and> srv_phase ex_down = Returned (Some CtxErr) \<and>
   6 \<le> length (srv_loops ex_stopping) + srv_requests ex_stopping + 2"
proof -
  have p: "srv_phase ex_stopping = Draining" by (simp add: ex_stopping_left ex_left_def)
  have d: "srv_db ex_down = DbClosed" "0 < srv_requests ex_down" by (simp_all add: ex_down_def Shutdown_end_def ex_left_def)
  have r: "server_reach DbOpen ex_down"
    using rtranclp_trans [OF ex_stopping_reach relpowp_imp_rtranclp [OF ex_down_run]] .
  show ?thesis
    using shutdown_terminates [OF ex_stopping_reach, of 6 ex_down] shutdown_terminates [OF r] p d ex_down_run by simp
qed

end
